theory Spec2Isabelle
  imports Complex_Main "HOL-Library.AList" "HOL-Library.Log_Nat" "HOL-Library.Monad_Syntax"
begin

section \<open>Conventions\<close>

text \<open>
  The engine is written in TypeScript. Its \<open>number\<close> values are modelled as
  reals. For the algorithms that only combine numbers (pools, coordinate transforms,
  tile layout, keyframe interpolation) arithmetic is exact: rounding moves their
  results by rounding errors and nothing else. Two places compare an accumulated sum
  with a threshold, so that one rounding error decides how often a loop runs or
  whether an animation stops: the fixed-timestep accumulator and the time cursor of a
  property animation. These exist a second time, with the suffix \<open>64\<close>, where every
  arithmetic result is rounded to binary64 as JavaScript does. \<open>NaN\<close> and the
  infinities are not modelled; where a JavaScript operation would produce one (a
  division by zero, a remainder by zero) the text says so next to the definition.
  The editor canvas (\<open>GameCanvas\<close>) and the exported bundle (\<open>exportGame\<close>)
  carry the same loop twice; definitions follow the editor and name the places where
  the bundle differs.
\<close>

section \<open>Scene model\<close>

text \<open>
  The interfaces of \<open>types.ts\<close> as records. A field keeps its TypeScript name unless
  the name is taken in HOL or by another record: the coordinates of \<open>Vector2\<close> are
  \<open>vecX\<close>, \<open>vecY\<close>; \<open>type\<close>, \<open>name\<close>, \<open>id\<close>, \<open>text\<close>, \<open>time\<close> and
  \<open>value\<close> carry the name of their interface. An optional field (\<open>f?: T\<close>) is an
  option.
\<close>

record vector2 =
  vecX :: real
  vecY :: real

datatype entityType = Rect | Circle | Sprite | Button | Tilemap | Particles

datatype anchorType =
  TopLeft | TopCenter | TopRight | CenterLeft | Center | CenterRight
  | BottomLeft | BottomCenter | BottomRight

record transformComponent =
  position :: vector2
  rotation :: real
  scale :: vector2
  isUI :: "bool option"
  anchor :: "anchorType option"

record physicsComponent =
  velocity :: vector2
  isStatic :: bool
  gravityScale :: real

record spriteAnimation =
  spriteAnimName :: string
  frames :: "real list"
  fps :: real

record rendererComponent =
  rendererType :: entityType
  color :: string
  width :: real
  height :: real
  spriteUrl :: "string option"
  rendererText :: "string option"
  fontSize :: "real option"
  cols :: "real option"
  rows :: "real option"
  animations :: "spriteAnimation list option"
  currentAnimation :: "string option"
  currentFrame :: "real option"
  parallaxFactor :: "real option"

datatype scriptType = ScriptNone | ScriptCustom

record scriptComponent =
  scriptType :: scriptType
  scriptName :: "string option"
  content :: "string option"

record particleEmitterComponent =
  emitting :: bool
  maxParticles :: real
  emissionRate :: real
  lifetime :: real
  lifetimeRange :: real
  speed :: real
  speedRange :: real
  angle :: real
  spread :: real
  colorStart :: string
  colorEnd :: string
  sizeStart :: real
  sizeEnd :: real

record tilemapLayer =
  layerName :: string
  layerData :: "real list"

record tilemapComponent =
  tileSize :: real
  columns :: real
  tilemapRows :: real
  layers :: "tilemapLayer list"
  tilesetUrl :: "string option"

record keyframe =
  keyframeTime :: real
  keyframeValue :: real

record propertyAnimation =
  animName :: string
  property :: string
  keyframes :: "keyframe list"
  loop :: bool
  playing :: bool
  currentTime :: real

record entity =
  entityId :: string
  entityName :: string
  transform :: transformComponent
  physics :: "physicsComponent option"
  renderer :: rendererComponent
  script :: "scriptComponent option"
  particles :: "particleEmitterComponent option"
  tilemap :: "tilemapComponent option"
  propertyAnimations :: "propertyAnimation list option"
  prefabId :: "string option"

record cameraSettings =
  cameraPosition :: vector2
  zoom :: real
  targetId :: "string option"
  lerpSpeed :: real

record physicsSettings =
  fixedTimestep :: real

record scene =
  entities :: "entity list"
  backgroundColor :: string
  camera :: "cameraSettings option"
  scenePhysics :: "physicsSettings option"

section \<open>Arithmetic of JavaScript numbers\<close>

text \<open>
  \<open>a % b\<close>: the remainder of the division truncated towards zero, with the sign of
  the dividend. (\<open>a % 0\<close> is \<open>NaN\<close> in JavaScript; here it is \<open>a\<close>.)
\<close>

definition jsTrunc :: "real \<Rightarrow> int" where
  "jsTrunc q = (if 0 \<le> q then \<lfloor>q\<rfloor> else \<lceil>q\<rceil>)"

definition jsRem :: "real \<Rightarrow> real \<Rightarrow> real" where
  "jsRem a b = a - b * of_int (jsTrunc (a / b))"

text \<open>\<open>v || d\<close> on an optional number: \<open>undefined\<close> and \<open>0\<close> are falsy.\<close>

definition numOr :: "real option \<Rightarrow> real \<Rightarrow> real" where
  "numOr v d = (case v of None \<Rightarrow> d | Some n \<Rightarrow> if n = 0 then d else n)"

text \<open>\<open>v ?? d\<close>: only \<open>undefined\<close> (and \<open>null\<close>) give the default.\<close>

definition nullish :: "'a option \<Rightarrow> 'a \<Rightarrow> 'a" where
  "nullish v d = (case v of None \<Rightarrow> d | Some n \<Rightarrow> n)"

text \<open>Truthiness of an optional string and of an optional boolean.\<close>

definition truthyStr :: "string option \<Rightarrow> bool" where
  "truthyStr v = (case v of None \<Rightarrow> False | Some t \<Rightarrow> t \<noteq> [])"

definition truthyBool :: "bool option \<Rightarrow> bool" where
  "truthyBool v = (case v of None \<Rightarrow> False | Some b \<Rightarrow> b)"

subsection \<open>Binary64\<close>

text \<open>
  A JavaScript number is an IEEE 754 binary64 value: \<open>m * 2^e\<close> with an integer
  \<open>m\<close>, \<open>|m| < 2^53\<close>, and \<open>e \<ge> -1074\<close>. An arithmetic operation returns the
  exact result rounded to the nearest such value, a tie going to the even \<open>m\<close>.

  \<open>roundEven\<close> rounds a real to the nearest integer, ties to even. \<open>exponentOf x\<close> is
  \<open>floor (log2 |x|)\<close>, computed from the length in bits of an integer. The values next
  to \<open>x\<close> are the multiples of \<open>2^u\<close> with \<open>u = exponentOf x - 52\<close>, and with
  \<open>u = -1074\<close> in the subnormal range. \<open>round64 x\<close> is the nearest of them.
  (A result of magnitude \<open>2^1024\<close> or more is an infinity in JavaScript; here it
  stays finite.)
\<close>

definition roundEven :: "real \<Rightarrow> int" where
  "roundEven x =
     (let f = \<lfloor>x\<rfloor>; r = x - of_int f
      in if r < 1 / 2 then f else if 1 / 2 < r then f + 1 else if even f then f else f + 1)"

definition exponentOf :: "real \<Rightarrow> int" where
  "exponentOf x =
     (if 1 \<le> \<bar>x\<bar> then bitlen \<lfloor>\<bar>x\<bar>\<rfloor> - 1 else - bitlen (\<lceil>1 / \<bar>x\<bar>\<rceil> - 1))"

definition ulpExponent :: "real \<Rightarrow> int" where
  "ulpExponent x = max (exponentOf x - 52) (- 1074)"

definition round64 :: "real \<Rightarrow> real" where
  "round64 x = of_int (roundEven (x / 2 powi ulpExponent x)) * 2 powi ulpExponent x"

section \<open>Fixed-timestep accumulator\<close>

text \<open>\<open>scene.physics?.fixedTimestep || 1/60\<close>: an absent setting and the falsy
  value \<open>0\<close> give the default; every other number, a negative one too, is used.\<close>

definition fixedTimestepOf :: "physicsSettings option \<Rightarrow> real" where
  "fixedTimestepOf ps =
     (case ps of
        None \<Rightarrow> 1 / 60
      | Some p \<Rightarrow> if fixedTimestep p = 0 then 1 / 60 else fixedTimestep p)"

text \<open>
  The \<open>while (accumulator >= fixedTimestep)\<close> loop of \<open>update\<close>, in exact
  arithmetic. The physics engine is a parameter: \<open>engineUpdate ms w\<close> stands for
  \<open>Matter.Engine.update(engine, ms)\<close> on the world \<open>w\<close>. The engine reference may be
  null (\<open>if (matterEngineRef.current)\<close>), hence the option. With a timestep that is
  not positive the loop never exits; not returning is the value \<open>None\<close>.
\<close>

partial_function (option) physicsLoop ::
  "(real \<Rightarrow> 'w \<Rightarrow> 'w) \<Rightarrow> real \<Rightarrow> real \<Rightarrow> 'w option \<Rightarrow> (real \<times> 'w option) option" where
  "physicsLoop engineUpdate ft acc w =
     (if acc \<ge> ft
      then physicsLoop engineUpdate ft (acc - ft) (map_option (engineUpdate (ft * 1000)) w)
      else Some (acc, w))"

text \<open>\<open>accumulatorRef.current += dt\<close>, then the loop.\<close>

definition accumulate ::
  "(real \<Rightarrow> 'w \<Rightarrow> 'w) \<Rightarrow> real \<Rightarrow> real \<Rightarrow> real \<Rightarrow> 'w option \<Rightarrow> (real \<times> 'w option) option" where
  "accumulate engineUpdate ft acc dt w = physicsLoop engineUpdate ft (acc + dt) w"

text \<open>\<open>loop\<close>: \<open>dt = (time - lastTime) / 1000\<close> and \<open>update(Math.min(dt, 0.1))\<close>.\<close>

definition frameDt :: "real \<Rightarrow> real \<Rightarrow> real" where
  "frameDt time lastTime = (time - lastTime) / 1000"

definition cappedDt :: "real \<Rightarrow> real" where
  "cappedDt dt = min dt (1 / 10)"

subsection \<open>The accumulator in binary64\<close>

text \<open>
  The same loop with the arithmetic of the program: \<open>accumulatorRef.current += dt\<close>,
  \<open>accumulatorRef.current -= fixedTimestep\<close> and \<open>fixedTimestep * 1000\<close> each round
  their result, the comparison \<open>>=\<close> is exact, and the literal \<open>0.1\<close> of
  \<open>Math.min(dt, 0.1)\<close> is the binary64 value nearest to one tenth. Here the loop
  also fails to exit when the timestep is so small against the accumulator that
  \<open>acc - ft\<close> rounds to \<open>acc\<close>.
\<close>

partial_function (option) physicsLoop64 ::
  "(real \<Rightarrow> 'w \<Rightarrow> 'w) \<Rightarrow> real \<Rightarrow> real \<Rightarrow> 'w option \<Rightarrow> (real \<times> 'w option) option" where
  "physicsLoop64 engineUpdate ft acc w =
     (if acc \<ge> ft
      then physicsLoop64 engineUpdate ft (round64 (acc - ft))
             (map_option (engineUpdate (round64 (ft * 1000))) w)
      else Some (acc, w))"

declare physicsLoop64.simps [code]

definition accumulate64 ::
  "(real \<Rightarrow> 'w \<Rightarrow> 'w) \<Rightarrow> real \<Rightarrow> real \<Rightarrow> real \<Rightarrow> 'w option \<Rightarrow> (real \<times> 'w option) option" where
  "accumulate64 engineUpdate ft acc dt w = physicsLoop64 engineUpdate ft (round64 (acc + dt)) w"

definition cappedDt64 :: "real \<Rightarrow> real" where
  "cappedDt64 dt = min dt (round64 (1 / 10))"

section \<open>Particle subsystem\<close>

text \<open>A particle of an emitter's pool (\<open>x, y, vx, vy, life, maxLife\<close>).\<close>

record particle =
  particleX :: real
  particleY :: real
  particleVx :: real
  particleVy :: real
  life :: real
  maxLife :: real

text \<open>
  \<open>Math.random()\<close> is a source of draws \<open>rnd 0, rnd 1, ...\<close>; the state carries the
  index of the next draw. Nothing is assumed about the draws.

  The ageing loop runs over the pool from its last index to its first, removing a
  particle in place when its life is used up; the relative order of the others is kept.
\<close>

fun agePool :: "real \<Rightarrow> particle list \<Rightarrow> particle list" where
  "agePool dt [] = []"
| "agePool dt (p # ps) =
     (let rest = agePool dt ps;
          lf = life p - dt
      in if lf \<le> 0 then rest
         else p\<lparr>particleX := particleX p + particleVx p * dt,
                particleY := particleY p + particleVy p * dt,
                life := lf\<rparr> # rest)"

text \<open>\<open>while (emitCount > 0 && pool.length < entity.particles.maxParticles)\<close>.\<close>

function spawnLoop ::
  "(nat \<Rightarrow> real) \<Rightarrow> particleEmitterComponent \<Rightarrow> vector2 \<Rightarrow> int \<Rightarrow> nat \<Rightarrow> particle list
     \<Rightarrow> nat \<times> particle list" where
  "spawnLoop rnd em pos emitCount k pool =
     (if emitCount > 0 \<and> real (length pool) < maxParticles em then
        (let ang = (angle em + (rnd k - 1 / 2) * spread em) * pi / 180;
             spd = speed em + (rnd (k + 1) - 1 / 2) * speedRange em;
             lf = lifetime em + (rnd (k + 2) - 1 / 2) * lifetimeRange em
         in spawnLoop rnd em pos (emitCount - 1) (k + 3)
              (pool @ [\<lparr>particleX = vecX pos, particleY = vecY pos,
                         particleVx = cos ang * spd, particleVy = sin ang * spd,
                         life = lf, maxLife = lf\<rparr>]))
      else (k, pool))"
  by pat_completeness auto
termination
  by (relation "measure (\<lambda>(rnd, em, pos, emitCount, k, pool). nat emitCount)") auto

declare spawnLoop.simps [simp del]

text \<open>The \<open>// Particles\<close> block of \<open>update\<close> for one emitter and its pool.\<close>

definition updateParticles ::
  "(nat \<Rightarrow> real) \<Rightarrow> particleEmitterComponent \<Rightarrow> vector2 \<Rightarrow> real \<Rightarrow> nat \<Rightarrow> particle list
     \<Rightarrow> nat \<times> particle list" where
  "updateParticles rnd em pos dt k pool =
     (let aged = agePool dt pool
      in if emitting em then
           (let toEmit = emissionRate em * dt;
                whole = \<lfloor>toEmit\<rfloor>;
                frac = toEmit - of_int whole;
                emitCount = whole + (if rnd k < frac then 1 else 0)
            in spawnLoop rnd em pos emitCount (Suc k) aged)
         else (k, aged))"

text \<open>
  A sequence of simulation steps of one emitter: each step comes with the emitter
  configuration, the position of the entity and the frame time of that step.
\<close>

fun runParticles ::
  "(nat \<Rightarrow> real) \<Rightarrow> nat \<Rightarrow> particle list \<Rightarrow> (particleEmitterComponent \<times> vector2 \<times> real) list
     \<Rightarrow> nat \<times> particle list" where
  "runParticles rnd k pool [] = (k, pool)"
| "runParticles rnd k pool ((em, pos, dt) # steps) =
     (case updateParticles rnd em pos dt k pool of
        (k', pool') \<Rightarrow> runParticles rnd k' pool' steps)"

section \<open>Entities as JavaScript objects\<close>

text \<open>
  Two places of the program treat an entity as a plain object rather than through its
  interface: the prefab handlers (\<open>JSON.stringify\<close>, \<open>JSON.parse\<close>, object spread) and
  the property animations, which walk a dotted path by string lookup. \<open>jsval\<close> is the
  value such code sees. An object is the list of its own properties; in the image of a
  record every declared property is listed, an absent optional one with the value
  \<open>undefined\<close> (a read cannot tell the two apart).
\<close>

datatype jsval =
  JUndefined
  | JNull
  | JBool bool
  | JNum real
  | JStr string
  | JArr "jsval list"
  | JObj "(string \<times> jsval) list"

text \<open>
  What a step can end in instead of a value: a \<open>TypeError\<close> JavaScript throws, or
  behaviour this development does not model (members inherited from a prototype,
  members of arrays and strings, objects that no longer fit the interfaces, numbers
  that are \<open>NaN\<close> or infinite). \<open>Unmodelled\<close> is not something the program does: it
  marks the point from which the development says nothing about the run.
\<close>

datatype fault = TypeError string | Unmodelled string

definition truthy :: "jsval \<Rightarrow> bool" where
  "truthy v =
     (case v of
        JUndefined \<Rightarrow> False
      | JNull \<Rightarrow> False
      | JBool b \<Rightarrow> b
      | JNum n \<Rightarrow> n \<noteq> 0
      | JStr s \<Rightarrow> s \<noteq> []
      | JArr xs \<Rightarrow> True
      | JObj kvs \<Rightarrow> True)"

definition inheritedNames :: "string list" where
  "inheritedNames =
     [''constructor'', ''toString'', ''toLocaleString'', ''valueOf'', ''hasOwnProperty'',
      ''isPrototypeOf'', ''propertyIsEnumerable'', ''__proto__'', ''__defineGetter__'',
      ''__defineSetter__'', ''__lookupGetter__'', ''__lookupSetter__'']"

text \<open>\<open>target[k]\<close> as a read.\<close>

definition readProp :: "jsval \<Rightarrow> string \<Rightarrow> fault + jsval" where
  "readProp t k =
     (case t of
        JUndefined \<Rightarrow> Inl (TypeError ''Cannot read properties of undefined'')
      | JNull \<Rightarrow> Inl (TypeError ''Cannot read properties of null'')
      | JObj kvs \<Rightarrow>
          if k \<in> set inheritedNames then Inl (Unmodelled ''inherited member'')
          else Inr (case map_of kvs k of None \<Rightarrow> JUndefined | Some v \<Rightarrow> v)
      | JArr xs \<Rightarrow> Inl (Unmodelled ''member of an array'')
      | JStr s \<Rightarrow> Inl (Unmodelled ''member of a string'')
      | JBool b \<Rightarrow> Inl (Unmodelled ''member of a boolean'')
      | JNum n \<Rightarrow> Inl (Unmodelled ''member of a number''))"

text \<open>
  \<open>target[k] = v\<close>, returning the target after the assignment. The editor's code is
  an ES module and runs in strict mode, where creating a property on a primitive
  throws; the bundle's inline script is sloppy and ignores the assignment.
\<close>

definition writeProp :: "bool \<Rightarrow> jsval \<Rightarrow> string \<Rightarrow> jsval \<Rightarrow> fault + jsval" where
  "writeProp strict t k v =
     (case t of
        JUndefined \<Rightarrow> Inl (TypeError ''Cannot set properties of undefined'')
      | JNull \<Rightarrow> Inl (TypeError ''Cannot set properties of null'')
      | JObj kvs \<Rightarrow>
          if k \<in> set inheritedNames then Inl (Unmodelled ''inherited member'')
          else Inr (JObj (AList.update k v kvs))
      | JArr xs \<Rightarrow> Inl (Unmodelled ''member of an array'')
      | _ \<Rightarrow> if strict then Inl (TypeError ''Cannot create property'') else Inr t)"

text \<open>Storing a changed child back where it was read from.\<close>

definition storeChild :: "jsval \<Rightarrow> string \<Rightarrow> jsval \<Rightarrow> jsval" where
  "storeChild t k child =
     (case t of
        JObj kvs \<Rightarrow> (case map_of kvs k of None \<Rightarrow> t | Some old \<Rightarrow> JObj (AList.update k child kvs))
      | _ \<Rightarrow> t)"

text \<open>
  The walk \<open>for (i = 0; i < parts.length - 1; i++) target = target[parts[i]]\<close>
  followed by \<open>if (target) target[parts[parts.length - 1]] = value\<close>, as a function
  that returns the root object after the assignment.
\<close>

fun assignPath :: "bool \<Rightarrow> jsval \<Rightarrow> string list \<Rightarrow> jsval \<Rightarrow> fault + jsval" where
  "assignPath strict t [] v = Inr t"
| "assignPath strict t [k] v = (if truthy t then writeProp strict t k v else Inr t)"
| "assignPath strict t (k # ks) v =
     (case readProp t k of
        Inl f \<Rightarrow> Inl f
      | Inr child \<Rightarrow>
          (case assignPath strict child ks v of
             Inl f \<Rightarrow> Inl f
           | Inr child' \<Rightarrow> Inr (storeChild t k child')))"

text \<open>\<open>s.split('.')\<close>.\<close>

fun splitOn :: "char \<Rightarrow> string \<Rightarrow> string list" where
  "splitOn c [] = [[]]"
| "splitOn c (x # xs) =
     (if x = c then [] # splitOn c xs
      else (case splitOn c xs of [] \<Rightarrow> [[x]] | p # ps \<Rightarrow> (x # p) # ps))"

text \<open>
  \<open>JSON.parse(JSON.stringify(v))\<close>: properties holding \<open>undefined\<close> are dropped,
  \<open>undefined\<close> array elements become \<open>null\<close>. (Numbers are reals here, so the
  \<open>NaN\<close> and infinities that JSON turns into \<open>null\<close> do not occur.)
\<close>

fun jsonClone :: "jsval \<Rightarrow> jsval"
  and jsonCloneFields :: "(string \<times> jsval) list \<Rightarrow> (string \<times> jsval) list"
  and jsonCloneItems :: "jsval list \<Rightarrow> jsval list" where
  "jsonClone (JObj kvs) = JObj (jsonCloneFields kvs)"
| "jsonClone (JArr xs) = JArr (jsonCloneItems xs)"
| "jsonClone JUndefined = JUndefined"
| "jsonClone JNull = JNull"
| "jsonClone (JBool b) = JBool b"
| "jsonClone (JNum n) = JNum n"
| "jsonClone (JStr s) = JStr s"
| "jsonCloneFields [] = []"
| "jsonCloneFields (kv # r) =
     (if snd kv = JUndefined then jsonCloneFields r
      else (fst kv, jsonClone (snd kv)) # jsonCloneFields r)"
| "jsonCloneItems [] = []"
| "jsonCloneItems (v # r) =
     (if v = JUndefined then JNull else jsonClone v) # jsonCloneItems r"

text \<open>Reading a property of a parsed object through an interface: absent is \<open>undefined\<close>.\<close>

definition field :: "jsval \<Rightarrow> string \<Rightarrow> jsval" where
  "field t k =
     (case t of
        JObj kvs \<Rightarrow> (case map_of kvs k of None \<Rightarrow> JUndefined | Some v \<Rightarrow> v)
      | _ \<Rightarrow> JUndefined)"

subsection \<open>Records as objects\<close>

definition optJ :: "('a \<Rightarrow> jsval) \<Rightarrow> 'a option \<Rightarrow> jsval" where
  "optJ enc v = (case v of None \<Rightarrow> JUndefined | Some a \<Rightarrow> enc a)"

definition vector2J :: "vector2 \<Rightarrow> jsval" where
  "vector2J v = JObj [(''x'', JNum (vecX v)), (''y'', JNum (vecY v))]"

fun anchorName :: "anchorType \<Rightarrow> string" where
  "anchorName TopLeft = ''top-left''"
| "anchorName TopCenter = ''top-center''"
| "anchorName TopRight = ''top-right''"
| "anchorName CenterLeft = ''center-left''"
| "anchorName Center = ''center''"
| "anchorName CenterRight = ''center-right''"
| "anchorName BottomLeft = ''bottom-left''"
| "anchorName BottomCenter = ''bottom-center''"
| "anchorName BottomRight = ''bottom-right''"

fun entityTypeName :: "entityType \<Rightarrow> string" where
  "entityTypeName Rect = ''rect''"
| "entityTypeName Circle = ''circle''"
| "entityTypeName Sprite = ''sprite''"
| "entityTypeName Button = ''button''"
| "entityTypeName Tilemap = ''tilemap''"
| "entityTypeName Particles = ''particles''"

fun scriptTypeName :: "scriptType \<Rightarrow> string" where
  "scriptTypeName ScriptNone = ''none''"
| "scriptTypeName ScriptCustom = ''custom''"

definition transformJ :: "transformComponent \<Rightarrow> jsval" where
  "transformJ t =
     JObj [(''position'', vector2J (position t)), (''rotation'', JNum (rotation t)),
           (''scale'', vector2J (scale t)), (''isUI'', optJ JBool (isUI t)),
           (''anchor'', optJ (\<lambda>a. JStr (anchorName a)) (anchor t))]"

definition physicsJ :: "physicsComponent \<Rightarrow> jsval" where
  "physicsJ p =
     JObj [(''velocity'', vector2J (velocity p)), (''isStatic'', JBool (isStatic p)),
           (''gravityScale'', JNum (gravityScale p))]"

definition spriteAnimationJ :: "spriteAnimation \<Rightarrow> jsval" where
  "spriteAnimationJ a =
     JObj [(''name'', JStr (spriteAnimName a)), (''frames'', JArr (map JNum (frames a))),
           (''fps'', JNum (fps a))]"

definition rendererJ :: "rendererComponent \<Rightarrow> jsval" where
  "rendererJ r =
     JObj [(''type'', JStr (entityTypeName (rendererType r))), (''color'', JStr (color r)),
           (''width'', JNum (width r)), (''height'', JNum (height r)),
           (''spriteUrl'', optJ JStr (spriteUrl r)), (''text'', optJ JStr (rendererText r)),
           (''fontSize'', optJ JNum (fontSize r)), (''cols'', optJ JNum (cols r)),
           (''rows'', optJ JNum (rows r)),
           (''animations'', optJ (\<lambda>l. JArr (map spriteAnimationJ l)) (animations r)),
           (''currentAnimation'', optJ JStr (currentAnimation r)),
           (''currentFrame'', optJ JNum (currentFrame r)),
           (''parallaxFactor'', optJ JNum (parallaxFactor r))]"

definition scriptJ :: "scriptComponent \<Rightarrow> jsval" where
  "scriptJ s =
     JObj [(''type'', JStr (scriptTypeName (scriptType s))), (''name'', optJ JStr (scriptName s)),
           (''content'', optJ JStr (content s))]"

definition particlesJ :: "particleEmitterComponent \<Rightarrow> jsval" where
  "particlesJ p =
     JObj [(''emitting'', JBool (emitting p)), (''maxParticles'', JNum (maxParticles p)),
           (''emissionRate'', JNum (emissionRate p)), (''lifetime'', JNum (lifetime p)),
           (''lifetimeRange'', JNum (lifetimeRange p)), (''speed'', JNum (speed p)),
           (''speedRange'', JNum (speedRange p)), (''angle'', JNum (angle p)),
           (''spread'', JNum (spread p)), (''colorStart'', JStr (colorStart p)),
           (''colorEnd'', JStr (colorEnd p)), (''sizeStart'', JNum (sizeStart p)),
           (''sizeEnd'', JNum (sizeEnd p))]"

definition tilemapLayerJ :: "tilemapLayer \<Rightarrow> jsval" where
  "tilemapLayerJ l = JObj [(''name'', JStr (layerName l)), (''data'', JArr (map JNum (layerData l)))]"

definition tilemapJ :: "tilemapComponent \<Rightarrow> jsval" where
  "tilemapJ t =
     JObj [(''tileSize'', JNum (tileSize t)), (''columns'', JNum (columns t)),
           (''rows'', JNum (tilemapRows t)), (''layers'', JArr (map tilemapLayerJ (layers t))),
           (''tilesetUrl'', optJ JStr (tilesetUrl t))]"

definition keyframeJ :: "keyframe \<Rightarrow> jsval" where
  "keyframeJ k = JObj [(''time'', JNum (keyframeTime k)), (''value'', JNum (keyframeValue k))]"

definition propertyAnimationJ :: "propertyAnimation \<Rightarrow> jsval" where
  "propertyAnimationJ a =
     JObj [(''name'', JStr (animName a)), (''property'', JStr (property a)),
           (''keyframes'', JArr (map keyframeJ (keyframes a))), (''loop'', JBool (loop a)),
           (''playing'', JBool (playing a)), (''currentTime'', JNum (currentTime a))]"

definition entityJ :: "entity \<Rightarrow> jsval" where
  "entityJ e =
     JObj [(''id'', JStr (entityId e)), (''name'', JStr (entityName e)),
           (''transform'', transformJ (transform e)), (''physics'', optJ physicsJ (physics e)),
           (''renderer'', rendererJ (renderer e)), (''script'', optJ scriptJ (script e)),
           (''particles'', optJ particlesJ (particles e)),
           (''tilemap'', optJ tilemapJ (tilemap e)),
           (''propertyAnimations'',
              optJ (\<lambda>l. JArr (map propertyAnimationJ l)) (propertyAnimations e)),
           (''prefabId'', optJ JStr (prefabId e))]"

subsection \<open>Objects as records\<close>

text \<open>
  Reading a parsed object through the interfaces of \<open>types.ts\<close>. TypeScript does not
  check the cast (\<open>const newEntity: Entity = ...\<close>); the decoders do, and give \<open>None\<close>
  for an object the records cannot hold.
\<close>

definition numOf :: "jsval \<Rightarrow> real option" where
  "numOf v = (case v of JNum n \<Rightarrow> Some n | _ \<Rightarrow> None)"

definition strOf :: "jsval \<Rightarrow> string option" where
  "strOf v = (case v of JStr s \<Rightarrow> Some s | _ \<Rightarrow> None)"

definition boolOf :: "jsval \<Rightarrow> bool option" where
  "boolOf v = (case v of JBool b \<Rightarrow> Some b | _ \<Rightarrow> None)"

definition optOf :: "(jsval \<Rightarrow> 'a option) \<Rightarrow> jsval \<Rightarrow> 'a option option" where
  "optOf dec v = (if v = JUndefined then Some None else map_option Some (dec v))"

definition listOf :: "(jsval \<Rightarrow> 'a option) \<Rightarrow> jsval \<Rightarrow> 'a list option" where
  "listOf dec v = (case v of JArr xs \<Rightarrow> those (map dec xs) | _ \<Rightarrow> None)"

definition anchorOf :: "jsval \<Rightarrow> anchorType option" where
  "anchorOf v =
     (case v of
        JStr s \<Rightarrow>
          List.find (\<lambda>a. anchorName a = s)
            [TopLeft, TopCenter, TopRight, CenterLeft, Center, CenterRight,
             BottomLeft, BottomCenter, BottomRight]
      | _ \<Rightarrow> None)"

definition entityTypeOf :: "jsval \<Rightarrow> entityType option" where
  "entityTypeOf v =
     (case v of
        JStr s \<Rightarrow>
          List.find (\<lambda>a. entityTypeName a = s) [Rect, Circle, Sprite, Button, Tilemap, Particles]
      | _ \<Rightarrow> None)"

definition scriptTypeOf :: "jsval \<Rightarrow> scriptType option" where
  "scriptTypeOf v =
     (case v of
        JStr s \<Rightarrow> List.find (\<lambda>a. scriptTypeName a = s) [ScriptNone, ScriptCustom]
      | _ \<Rightarrow> None)"

definition vector2Of :: "jsval \<Rightarrow> vector2 option" where
  "vector2Of v =
     do { a \<leftarrow> numOf (field v ''x'');
          b \<leftarrow> numOf (field v ''y'');
          Some \<lparr>vecX = a, vecY = b\<rparr> }"

definition transformOf :: "jsval \<Rightarrow> transformComponent option" where
  "transformOf v =
     do { p \<leftarrow> vector2Of (field v ''position'');
          r \<leftarrow> numOf (field v ''rotation'');
          s \<leftarrow> vector2Of (field v ''scale'');
          u \<leftarrow> optOf boolOf (field v ''isUI'');
          a \<leftarrow> optOf anchorOf (field v ''anchor'');
          Some \<lparr>position = p, rotation = r, scale = s, isUI = u, anchor = a\<rparr> }"

definition physicsOf :: "jsval \<Rightarrow> physicsComponent option" where
  "physicsOf v =
     do { a \<leftarrow> vector2Of (field v ''velocity'');
          b \<leftarrow> boolOf (field v ''isStatic'');
          c \<leftarrow> numOf (field v ''gravityScale'');
          Some \<lparr>velocity = a, isStatic = b, gravityScale = c\<rparr> }"

definition spriteAnimationOf :: "jsval \<Rightarrow> spriteAnimation option" where
  "spriteAnimationOf v =
     do { a \<leftarrow> strOf (field v ''name'');
          b \<leftarrow> listOf numOf (field v ''frames'');
          c \<leftarrow> numOf (field v ''fps'');
          Some \<lparr>spriteAnimName = a, frames = b, fps = c\<rparr> }"

definition rendererOf :: "jsval \<Rightarrow> rendererComponent option" where
  "rendererOf v =
     do { a \<leftarrow> entityTypeOf (field v ''type'');
          b \<leftarrow> strOf (field v ''color'');
          c \<leftarrow> numOf (field v ''width'');
          d \<leftarrow> numOf (field v ''height'');
          e \<leftarrow> optOf strOf (field v ''spriteUrl'');
          f \<leftarrow> optOf strOf (field v ''text'');
          g \<leftarrow> optOf numOf (field v ''fontSize'');
          h \<leftarrow> optOf numOf (field v ''cols'');
          i \<leftarrow> optOf numOf (field v ''rows'');
          j \<leftarrow> optOf (listOf spriteAnimationOf) (field v ''animations'');
          k \<leftarrow> optOf strOf (field v ''currentAnimation'');
          l \<leftarrow> optOf numOf (field v ''currentFrame'');
          m \<leftarrow> optOf numOf (field v ''parallaxFactor'');
          Some \<lparr>rendererType = a, color = b, width = c, height = d, spriteUrl = e,
                rendererText = f, fontSize = g, cols = h, rows = i, animations = j,
                currentAnimation = k, currentFrame = l, parallaxFactor = m\<rparr> }"

definition scriptOf :: "jsval \<Rightarrow> scriptComponent option" where
  "scriptOf v =
     do { a \<leftarrow> scriptTypeOf (field v ''type'');
          b \<leftarrow> optOf strOf (field v ''name'');
          c \<leftarrow> optOf strOf (field v ''content'');
          Some \<lparr>scriptType = a, scriptName = b, content = c\<rparr> }"

definition particlesOf :: "jsval \<Rightarrow> particleEmitterComponent option" where
  "particlesOf v =
     do { a \<leftarrow> boolOf (field v ''emitting'');
          b \<leftarrow> numOf (field v ''maxParticles'');
          c \<leftarrow> numOf (field v ''emissionRate'');
          d \<leftarrow> numOf (field v ''lifetime'');
          e \<leftarrow> numOf (field v ''lifetimeRange'');
          f \<leftarrow> numOf (field v ''speed'');
          g \<leftarrow> numOf (field v ''speedRange'');
          h \<leftarrow> numOf (field v ''angle'');
          i \<leftarrow> numOf (field v ''spread'');
          j \<leftarrow> strOf (field v ''colorStart'');
          k \<leftarrow> strOf (field v ''colorEnd'');
          l \<leftarrow> numOf (field v ''sizeStart'');
          m \<leftarrow> numOf (field v ''sizeEnd'');
          Some \<lparr>emitting = a, maxParticles = b, emissionRate = c, lifetime = d,
                lifetimeRange = e, speed = f, speedRange = g, angle = h, spread = i,
                colorStart = j, colorEnd = k, sizeStart = l, sizeEnd = m\<rparr> }"

definition tilemapLayerOf :: "jsval \<Rightarrow> tilemapLayer option" where
  "tilemapLayerOf v =
     do { a \<leftarrow> strOf (field v ''name'');
          b \<leftarrow> listOf numOf (field v ''data'');
          Some \<lparr>layerName = a, layerData = b\<rparr> }"

definition tilemapOf :: "jsval \<Rightarrow> tilemapComponent option" where
  "tilemapOf v =
     do { a \<leftarrow> numOf (field v ''tileSize'');
          b \<leftarrow> numOf (field v ''columns'');
          c \<leftarrow> numOf (field v ''rows'');
          d \<leftarrow> listOf tilemapLayerOf (field v ''layers'');
          e \<leftarrow> optOf strOf (field v ''tilesetUrl'');
          Some \<lparr>tileSize = a, columns = b, tilemapRows = c, layers = d, tilesetUrl = e\<rparr> }"

definition keyframeOf :: "jsval \<Rightarrow> keyframe option" where
  "keyframeOf v =
     do { a \<leftarrow> numOf (field v ''time'');
          b \<leftarrow> numOf (field v ''value'');
          Some \<lparr>keyframeTime = a, keyframeValue = b\<rparr> }"

definition propertyAnimationOf :: "jsval \<Rightarrow> propertyAnimation option" where
  "propertyAnimationOf v =
     do { a \<leftarrow> strOf (field v ''name'');
          b \<leftarrow> strOf (field v ''property'');
          c \<leftarrow> listOf keyframeOf (field v ''keyframes'');
          d \<leftarrow> boolOf (field v ''loop'');
          e \<leftarrow> boolOf (field v ''playing'');
          f \<leftarrow> numOf (field v ''currentTime'');
          Some \<lparr>animName = a, property = b, keyframes = c, loop = d, playing = e,
                currentTime = f\<rparr> }"

definition entityOf :: "jsval \<Rightarrow> entity option" where
  "entityOf v =
     do { a \<leftarrow> strOf (field v ''id'');
          b \<leftarrow> strOf (field v ''name'');
          c \<leftarrow> transformOf (field v ''transform'');
          d \<leftarrow> optOf physicsOf (field v ''physics'');
          e \<leftarrow> rendererOf (field v ''renderer'');
          f \<leftarrow> optOf scriptOf (field v ''script'');
          g \<leftarrow> optOf particlesOf (field v ''particles'');
          h \<leftarrow> optOf tilemapOf (field v ''tilemap'');
          i \<leftarrow> optOf (listOf propertyAnimationOf) (field v ''propertyAnimations'');
          j \<leftarrow> optOf strOf (field v ''prefabId'');
          Some \<lparr>entityId = a, entityName = b, transform = c, physics = d, renderer = e,
                script = f, particles = g, tilemap = h, propertyAnimations = i,
                prefabId = j\<rparr> }"

section \<open>Property animations\<close>

text \<open>
  The time cursor: \<open>anim.currentTime += dt\<close>, then the wrap (looping) or the clamp
  (not looping) once the cursor is beyond the time of the last keyframe. The caller
  has checked that there are at least two keyframes.
\<close>

definition advanceTime :: "real \<Rightarrow> propertyAnimation \<Rightarrow> propertyAnimation" where
  "advanceTime dt a =
     (let ct = currentTime a + dt;
          maxTime = keyframeTime (last (keyframes a))
      in if ct > maxTime then
           (if loop a then a\<lparr>currentTime := jsRem ct maxTime\<rparr>
            else a\<lparr>currentTime := maxTime, playing := False\<rparr>)
         else a\<lparr>currentTime := ct\<rparr>)"

text \<open>The linear scan for the first pair of neighbours that brackets the cursor.\<close>

fun bracket :: "real \<Rightarrow> keyframe list \<Rightarrow> (keyframe \<times> keyframe) option" where
  "bracket ct (k1 # k2 # ks) =
     (if ct \<ge> keyframeTime k1 \<and> ct \<le> keyframeTime k2 then Some (k1, k2)
      else bracket ct (k2 # ks))"
| "bracket ct ks = None"

text \<open>
  The interpolated value; without a bracketing pair the first and the last keyframe
  are used. Two keyframes with the same time make JavaScript divide by zero; the
  program assigns the \<open>NaN\<close> or the infinity like any number and carries on, the
  reals cannot hold it, and the development does not follow the run further.
\<close>

definition interpolate :: "real \<Rightarrow> keyframe list \<Rightarrow> fault + real" where
  "interpolate ct ks =
     (let pair = (case bracket ct ks of None \<Rightarrow> (hd ks, last ks) | Some p \<Rightarrow> p);
          kf1 = fst pair;
          kf2 = snd pair
      in if keyframeTime kf2 = keyframeTime kf1 then Inl (Unmodelled ''division by zero'')
         else Inr (keyframeValue kf1
                     + (keyframeValue kf2 - keyframeValue kf1)
                       * ((ct - keyframeTime kf1) / (keyframeTime kf2 - keyframeTime kf1))))"

text \<open>
  \<open>// Apply value\<close>: the path is walked on the entity as an object, and the object
  after the assignment is read back through the interface. An object that no longer
  is an \<open>Entity\<close> as the records hold it (a new property, a component overwritten by
  a number) is not modelled further.
\<close>

definition applyValue :: "bool \<Rightarrow> entity \<Rightarrow> string list \<Rightarrow> real \<Rightarrow> fault + entity" where
  "applyValue strict e parts v =
     (case assignPath strict (entityJ e) parts (JNum v) of
        Inl f \<Rightarrow> Inl f
      | Inr obj \<Rightarrow>
          (case entityOf obj of
             None \<Rightarrow> Inl (Unmodelled ''not an Entity'')
           | Some e' \<Rightarrow> if entityJ e' = obj then Inr e' else Inl (Unmodelled ''not an Entity'')))"

text \<open>
  The body of \<open>entity.propertyAnimations.forEach\<close> for the animation at index \<open>i\<close>.
  The result is the entity as the body leaves it and the fault that ended the body, if
  any: the cursor has already moved when the path walk throws.
\<close>

definition stepAnimation :: "bool \<Rightarrow> real \<Rightarrow> nat \<Rightarrow> entity \<Rightarrow> fault option \<times> entity" where
  "stepAnimation strict dt i e =
     (case propertyAnimations e of
        None \<Rightarrow> (None, e)
      | Some anims \<Rightarrow>
          if i < length anims \<and> playing (anims ! i) \<and> length (keyframes (anims ! i)) > 1 then
            (let a = anims ! i;
                 ct = currentTime a + dt;
                 maxTime = keyframeTime (last (keyframes a))
             in if ct > maxTime \<and> loop a \<and> maxTime = 0 then
                  (Some (Unmodelled ''remainder by zero''), e)
                else
                  (let a' = advanceTime dt a;
                       e1 = e\<lparr>propertyAnimations := Some (anims[i := a'])\<rparr>
                   in case interpolate (currentTime a') (keyframes a') of
                        Inl f \<Rightarrow> (Some f, e1)
                      | Inr v \<Rightarrow>
                          (case applyValue strict e1 (splitOn CHR ''.'' (property a')) v of
                             Inl f \<Rightarrow> (Some f, e1)
                           | Inr e2 \<Rightarrow> (None, e2))))
          else (None, e))"

text \<open>\<open>forEach\<close>: the animations in order, stopping at a fault.\<close>

fun animateFrom :: "bool \<Rightarrow> real \<Rightarrow> nat list \<Rightarrow> entity \<Rightarrow> fault option \<times> entity" where
  "animateFrom strict dt [] e = (None, e)"
| "animateFrom strict dt (i # is) e =
     (case stepAnimation strict dt i e of
        (Some f, e') \<Rightarrow> (Some f, e')
      | (None, e') \<Rightarrow> animateFrom strict dt is e')"

definition animateEntity :: "bool \<Rightarrow> real \<Rightarrow> entity \<Rightarrow> fault option \<times> entity" where
  "animateEntity strict dt e =
     (case propertyAnimations e of
        None \<Rightarrow> (None, e)
      | Some anims \<Rightarrow> animateFrom strict dt [0 ..< length anims] e)"


subsection \<open>The animation step in binary64\<close>

text \<open>
  The same body with the arithmetic of the program. \<open>anim.currentTime += dt\<close> rounds
  the sum before it is compared with the time of the last keyframe. The remainder
  \<open>%\<close> of two binary64 values is again one, so the wrap is exact.
\<close>

definition advanceTime64 :: "real \<Rightarrow> propertyAnimation \<Rightarrow> propertyAnimation" where
  "advanceTime64 dt a =
     (let ct = round64 (currentTime a + dt);
          maxTime = keyframeTime (last (keyframes a))
      in if ct > maxTime then
           (if loop a then a\<lparr>currentTime := jsRem ct maxTime\<rparr>
            else a\<lparr>currentTime := maxTime, playing := False\<rparr>)
         else a\<lparr>currentTime := ct\<rparr>)"

text \<open>
  \<open>t = (currentTime - kf1.time) / (kf2.time - kf1.time)\<close> and
  \<open>value = kf1.value + (kf2.value - kf1.value) * t\<close>: five operations, each rounded.
  A denominator of zero gives \<open>NaN\<close> or an infinity in JavaScript, which is assigned
  like any number; the reals cannot hold it, and the development does not follow the
  program further.
\<close>

definition interpolate64 :: "real \<Rightarrow> keyframe list \<Rightarrow> fault + real" where
  "interpolate64 ct ks =
     (let pair = (case bracket ct ks of None \<Rightarrow> (hd ks, last ks) | Some p \<Rightarrow> p);
          kf1 = fst pair;
          kf2 = snd pair;
          den = round64 (keyframeTime kf2 - keyframeTime kf1)
      in if den = 0 then Inl (Unmodelled ''division by zero'')
         else
           (let t = round64 (round64 (ct - keyframeTime kf1) / den)
            in Inr (round64 (keyframeValue kf1
                      + round64 (round64 (keyframeValue kf2 - keyframeValue kf1) * t)))))"

definition stepAnimation64 :: "bool \<Rightarrow> real \<Rightarrow> nat \<Rightarrow> entity \<Rightarrow> fault option \<times> entity" where
  "stepAnimation64 strict dt i e =
     (case propertyAnimations e of
        None \<Rightarrow> (None, e)
      | Some anims \<Rightarrow>
          if i < length anims \<and> playing (anims ! i) \<and> length (keyframes (anims ! i)) > 1 then
            (let a = anims ! i;
                 ct = round64 (currentTime a + dt);
                 maxTime = keyframeTime (last (keyframes a))
             in if ct > maxTime \<and> loop a \<and> maxTime = 0 then
                  (Some (Unmodelled ''remainder by zero''), e)
                else
                  (let a' = advanceTime64 dt a;
                       e1 = e\<lparr>propertyAnimations := Some (anims[i := a'])\<rparr>
                   in case interpolate64 (currentTime a') (keyframes a') of
                        Inl f \<Rightarrow> (Some f, e1)
                      | Inr v \<Rightarrow>
                          (case applyValue strict e1 (splitOn CHR ''.'' (property a')) v of
                             Inl f \<Rightarrow> (Some f, e1)
                           | Inr e2 \<Rightarrow> (None, e2))))
          else (None, e))"

fun animateFrom64 :: "bool \<Rightarrow> real \<Rightarrow> nat list \<Rightarrow> entity \<Rightarrow> fault option \<times> entity" where
  "animateFrom64 strict dt [] e = (None, e)"
| "animateFrom64 strict dt (i # is) e =
     (case stepAnimation64 strict dt i e of
        (Some f, e') \<Rightarrow> (Some f, e')
      | (None, e') \<Rightarrow> animateFrom64 strict dt is e')"

definition animateEntity64 :: "bool \<Rightarrow> real \<Rightarrow> entity \<Rightarrow> fault option \<times> entity" where
  "animateEntity64 strict dt e =
     (case propertyAnimations e of
        None \<Rightarrow> (None, e)
      | Some anims \<Rightarrow> animateFrom64 strict dt [0 ..< length anims] e)"

fun animateFrames64 :: "bool \<Rightarrow> entity \<Rightarrow> real list \<Rightarrow> fault option \<times> entity" where
  "animateFrames64 strict e [] = (None, e)"
| "animateFrames64 strict e (dt # dts) =
     (case animateEntity64 strict dt e of
        (Some f, e') \<Rightarrow> (Some f, e')
      | (None, e') \<Rightarrow> animateFrames64 strict e' dts)"

section \<open>Simulation step\<close>

text \<open>
  The log panel of the editor (\<open>logs\<close> in \<open>App.tsx\<close>): the messages that the
  interception of \<open>console.log\<close>, \<open>console.warn\<close> and \<open>console.error\<close> has added.
\<close>

datatype logKind = LogInfo | LogWarn | LogError

record logMessage =
  logType :: logKind
  logText :: string

text \<open>
  \<open>App.tsx\<close> replaces the three console functions by wrappers that call the browser's
  own function and then \<open>addLog\<close>, which renders every argument with
  \<open>typeof a === 'object' ? JSON.stringify(a) : String(a)\<close> and joins the results with
  a blank. An argument is held by what that rendering makes of it: a value that is not
  an object, with its \<open>String(a)\<close>; an object, with its \<open>JSON.stringify(a)\<close> (an
  \<open>Error\<close> has no enumerable property of its own and gives \<open>{}\<close>); or an object
  on which \<open>JSON.stringify\<close> throws a \<open>TypeError\<close>, with the message of that error
  (an object that refers to itself, an object that holds a \<open>BigInt\<close>).
\<close>

datatype logged = NotObject string | Serialisable string | Unserialisable string

definition renderArg :: "logged \<Rightarrow> fault + string" where
  "renderArg a =
     (case a of
        NotObject s \<Rightarrow> Inr s
      | Serialisable s \<Rightarrow> Inr s
      | Unserialisable m \<Rightarrow> Inl (TypeError m))"

text \<open>\<open>args.map(...)\<close>: the arguments in order, a throw ending the call.\<close>

fun renderArgs :: "logged list \<Rightarrow> fault + string list" where
  "renderArgs [] = Inr []"
| "renderArgs (a # as) =
     (case renderArg a of
        Inl f \<Rightarrow> Inl f
      | Inr t \<Rightarrow> (case renderArgs as of Inl f \<Rightarrow> Inl f | Inr ts \<Rightarrow> Inr (t # ts)))"

text \<open>\<open>.join(' ')\<close>.\<close>

fun joinBlank :: "string list \<Rightarrow> string" where
  "joinBlank [] = []"
| "joinBlank [t] = t"
| "joinBlank (t # u # ts) = t @ '' '' @ joinBlank (u # ts)"

definition addLog :: "logKind \<Rightarrow> logged list \<Rightarrow> logMessage list \<Rightarrow> fault + logMessage list" where
  "addLog kind args logs =
     (case renderArgs args of
        Inl f \<Rightarrow> Inl f
      | Inr ts \<Rightarrow> Inr (logs @ [\<lparr>logType = kind, logText = joinBlank ts\<rparr>]))"

text \<open>
  \<open>console.error(...args)\<close>. Under the interception it is
  \<open>originalError(...args); addLog('error', args)\<close>. The browser's own console is
  outside the program and takes any argument; without the interception (the exported
  bundle has none) the call leaves no trace here.
\<close>

definition consoleError :: "bool \<Rightarrow> logged list \<Rightarrow> logMessage list \<Rightarrow> fault + logMessage list" where
  "consoleError intercepts args logs = (if intercepts then addLog LogError args logs else Inr logs)"

text \<open>
  What one frame works on besides the entities: the particle pools by entity id
  (\<open>particlesRef\<close>), the index of the next random draw, and the log panel.
\<close>

record simState =
  pools :: "string \<rightharpoonup> particle list"
  nextDraw :: nat
  console :: "logMessage list"

record body =
  bodyX :: real
  bodyY :: real
  bodyAngle :: real

record inputSnapshot =
  inputX :: real
  inputY :: real
  inputAction :: bool

text \<open>
  A script is host-supplied JavaScript. Its run is a parameter: given the script text,
  the entity, the input snapshot and the frame time, it returns or throws a value, in
  both cases leaving the entity as it mutated it. (A script that fails to compile
  throws a \<open>SyntaxError\<close> inside the same \<open>try\<close>. Effects of a script on anything but
  its entity, and a script that does not return, are outside this development.)
\<close>

datatype scriptOutcome = Returned entity | Threw entity logged

record 'w env =
  engineUpdate :: "real \<Rightarrow> 'w \<Rightarrow> 'w"
  bodyOf :: "'w \<Rightarrow> string \<Rightarrow> body option"
  draws :: "nat \<Rightarrow> real"
  runScript :: "string \<Rightarrow> entity \<Rightarrow> inputSnapshot \<Rightarrow> real \<Rightarrow> scriptOutcome"
  strictMode :: bool
  intercepted :: bool
  input :: inputSnapshot

text \<open>\<open>// Sync Physics\<close>.\<close>

definition syncPhysics :: "(string \<Rightarrow> body option) \<Rightarrow> entity \<Rightarrow> entity" where
  "syncPhysics bodies e =
     (case physics e of
        None \<Rightarrow> e
      | Some ph \<Rightarrow>
          (case bodies (entityId e) of
             None \<Rightarrow> e
           | Some b \<Rightarrow>
               e\<lparr>transform := (transform e)\<lparr>position := \<lparr>vecX = bodyX b, vecY = bodyY b\<rparr>,
                                              rotation := bodyAngle b * 180 / pi\<rparr>\<rparr>))"

text \<open>\<open>// Particles\<close>, on the pool of the entity.\<close>

definition particleStage :: "(nat \<Rightarrow> real) \<Rightarrow> real \<Rightarrow> entity \<Rightarrow> simState \<Rightarrow> simState" where
  "particleStage rnd dt e st =
     (case particles e of
        None \<Rightarrow> st
      | Some em \<Rightarrow>
          (let pool = (case pools st (entityId e) of None \<Rightarrow> [] | Some p \<Rightarrow> p);
               r = updateParticles rnd em (position (transform e)) dt (nextDraw st) pool
           in st\<lparr>pools := (pools st)(entityId e \<mapsto> snd r), nextDraw := fst r\<rparr>))"

text \<open>
  \<open>// Custom Scripts\<close>: the \<open>try\<close> and its \<open>catch\<close>. The handler calls
  \<open>console.error(`Error in script for entity ${entity.name}:`, e)\<close> on the entity
  as the script left it; what that call throws leaves the handler. \<open>intercepted\<close> says
  whether \<open>console.error\<close> is the wrapper of \<open>App.tsx\<close>, as it is in the editor. (The
  bundle calls \<open>console.error(e)\<close>, on the browser's own console.)
\<close>

definition scriptStage ::
  "'w env \<Rightarrow> real \<Rightarrow> simState \<times> entity \<Rightarrow> fault option \<times> simState \<times> entity" where
  "scriptStage ev dt se =
     (let st = fst se; e = snd se in
      case script e of
        None \<Rightarrow> (None, st, e)
      | Some s \<Rightarrow>
          if scriptType s = ScriptCustom \<and> truthyStr (content s) then
            (case runScript ev (case content s of None \<Rightarrow> [] | Some c \<Rightarrow> c) e (input ev) dt of
               Returned e' \<Rightarrow> (None, st, e')
             | Threw e' v \<Rightarrow>
                 (case consoleError (intercepted ev)
                         [NotObject (''Error in script for entity '' @ entityName e' @ '':''), v]
                         (console st) of
                    Inl f \<Rightarrow> (Some f, st, e')
                  | Inr logs \<Rightarrow> (None, st\<lparr>console := logs\<rparr>, e')))
          else (None, st, e))"

text \<open>
  The callback of \<open>entitiesRef.current.map\<close> for one entity: physics sync, particles,
  property animations, script. A fault of the animations ends it, and so does a fault
  that leaves the handler of the script.
\<close>

definition updateEntity ::
  "'w env \<Rightarrow> (string \<Rightarrow> body option) \<Rightarrow> real \<Rightarrow> simState \<Rightarrow> entity
     \<Rightarrow> fault option \<times> simState \<times> entity" where
  "updateEntity ev bodies dt st e =
     (let e1 = syncPhysics bodies e;
          st1 = particleStage (draws ev) dt e1 st
      in case animateEntity (strictMode ev) dt e1 of
           (Some f, e2) \<Rightarrow> (Some f, st1, e2)
         | (None, e2) \<Rightarrow> scriptStage ev dt (st1, e2))"

text \<open>
  \<open>map\<close> over the entities in scene order. An exception leaves the callback, the
  \<open>map\<close> and \<open>update\<close>: the entities after the faulting one are not visited.
\<close>

fun updateEntities ::
  "'w env \<Rightarrow> (string \<Rightarrow> body option) \<Rightarrow> real \<Rightarrow> simState \<Rightarrow> entity list
     \<Rightarrow> fault option \<times> simState \<times> entity list" where
  "updateEntities ev bodies dt st [] = (None, st, [])"
| "updateEntities ev bodies dt st (e # es) =
     (case updateEntity ev bodies dt st e of
        (Some f, st', e') \<Rightarrow> (Some f, st', e' # es)
      | (None, st', e') \<Rightarrow>
          (case updateEntities ev bodies dt st' es of
             (r, st'', es') \<Rightarrow> (r, st'', e' # es')))"

record 'w frameState =
  accumulator :: real
  engine :: "'w option"
  frameEntities :: "entity list"
  sim :: simState

text \<open>
  \<open>update(dt)\<close>. \<open>None\<close>: the physics loop does not return. Otherwise the fault that
  left \<open>update\<close>, if any, and the state. (The bundle adds the capped frame time to the
  accumulator and hands the raw frame time to the particles, animations and scripts.)
\<close>

definition update ::
  "'w env \<Rightarrow> bool \<Rightarrow> scene \<Rightarrow> real \<Rightarrow> 'w frameState \<Rightarrow> (fault option \<times> 'w frameState) option" where
  "update ev isPlaying sc dt fs =
     (if \<not> isPlaying then Some (None, fs)
      else
        (case accumulate (engineUpdate ev) (fixedTimestepOf (scenePhysics sc))
                (accumulator fs) dt (engine fs) of
           None \<Rightarrow> None
         | Some (acc, w) \<Rightarrow>
             (let bodies = (case w of None \<Rightarrow> (\<lambda>i. None) | Some wd \<Rightarrow> bodyOf ev wd);
                  r = updateEntities ev bodies dt (sim fs) (frameEntities fs)
              in Some (fst r,
                       fs\<lparr>accumulator := acc, engine := w,
                          frameEntities := snd (snd r), sim := fst (snd r)\<rparr>))))"

text \<open>
  The editor's \<open>loop\<close> over a sequence of frames, each given by its raw frame time:
  \<open>update(Math.min(dt, 0.1))\<close>, and the next frame is requested only after
  \<open>update\<close> (and \<open>draw\<close>) returned, so a fault that leaves \<open>update\<close> ends the loop.
  (The bundle requests the next frame first: there a fault ends the frame it occurs in,
  before the remaining entities and the drawing, and the next frame starts over.)
\<close>

fun runLoop ::
  "'w env \<Rightarrow> scene \<Rightarrow> 'w frameState \<Rightarrow> real list \<Rightarrow> (fault option \<times> 'w frameState) option" where
  "runLoop ev sc fs [] = Some (None, fs)"
| "runLoop ev sc fs (dt # dts) =
     (case update ev True sc (cappedDt dt) fs of
        None \<Rightarrow> None
      | Some (Some f, fs') \<Rightarrow> Some (Some f, fs')
      | Some (None, fs') \<Rightarrow> runLoop ev sc fs' dts)"

section \<open>The 2D canvas\<close>

text \<open>
  The part of \<open>CanvasRenderingContext2D\<close> the renderer uses. The current
  transformation matrix maps \<open>(u, v)\<close> to
  \<open>(ma * u + mc * v + me, mb * u + md * v + mf)\<close>; \<open>translate\<close>, \<open>rotate\<close> and
  \<open>scale\<close> multiply it from the right, \<open>save\<close> pushes the drawing state and
  \<open>restore\<close> pops the state pushed last (and does nothing on an empty stack). Every
  drawing call is recorded with the drawing state it was issued under.
\<close>

record matrix =
  ma :: real
  mb :: real
  mc :: real
  md :: real
  me :: real
  mf :: real

definition identityMatrix :: matrix where
  "identityMatrix = \<lparr>ma = 1, mb = 0, mc = 0, md = 1, me = 0, mf = 0\<rparr>"

definition applyMatrix :: "matrix \<Rightarrow> real \<times> real \<Rightarrow> real \<times> real" where
  "applyMatrix m p =
     (ma m * fst p + mc m * snd p + me m, mb m * fst p + md m * snd p + mf m)"

definition translateM :: "real \<Rightarrow> real \<Rightarrow> matrix \<Rightarrow> matrix" where
  "translateM tx ty m =
     m\<lparr>me := ma m * tx + mc m * ty + me m, mf := mb m * tx + md m * ty + mf m\<rparr>"

definition scaleM :: "real \<Rightarrow> real \<Rightarrow> matrix \<Rightarrow> matrix" where
  "scaleM sx sy m =
     m\<lparr>ma := ma m * sx, mb := mb m * sx, mc := mc m * sy, md := md m * sy\<rparr>"

definition rotateM :: "real \<Rightarrow> matrix \<Rightarrow> matrix" where
  "rotateM a m =
     m\<lparr>ma := ma m * cos a + mc m * sin a, mb := mb m * cos a + md m * sin a,
       mc := mc m * cos a - ma m * sin a, md := md m * cos a - mb m * sin a\<rparr>"

record gstate =
  ctm :: matrix
  fillStyle :: string
  globalAlpha :: real
  fontPx :: real

datatype primitive =
  FillRect real real real real
  | FillCircle real real real
  | FillText string real real
  | DrawImage string real real real real real real real real

record canvas =
  canvasWidth :: real
  canvasHeight :: real
  cur :: gstate
  saved :: "gstate list"
  drawn :: "(gstate \<times> primitive) list"

definition ctxSave :: "canvas \<Rightarrow> canvas" where
  "ctxSave c = c\<lparr>saved := cur c # saved c\<rparr>"

definition ctxRestore :: "canvas \<Rightarrow> canvas" where
  "ctxRestore c = (case saved c of [] \<Rightarrow> c | g # gs \<Rightarrow> c\<lparr>cur := g, saved := gs\<rparr>)"

definition ctxTranslate :: "real \<Rightarrow> real \<Rightarrow> canvas \<Rightarrow> canvas" where
  "ctxTranslate tx ty c = c\<lparr>cur := (cur c)\<lparr>ctm := translateM tx ty (ctm (cur c))\<rparr>\<rparr>"

definition ctxScale :: "real \<Rightarrow> real \<Rightarrow> canvas \<Rightarrow> canvas" where
  "ctxScale sx sy c = c\<lparr>cur := (cur c)\<lparr>ctm := scaleM sx sy (ctm (cur c))\<rparr>\<rparr>"

definition ctxRotate :: "real \<Rightarrow> canvas \<Rightarrow> canvas" where
  "ctxRotate a c = c\<lparr>cur := (cur c)\<lparr>ctm := rotateM a (ctm (cur c))\<rparr>\<rparr>"

definition setFillStyle :: "string \<Rightarrow> canvas \<Rightarrow> canvas" where
  "setFillStyle col c = c\<lparr>cur := (cur c)\<lparr>fillStyle := col\<rparr>\<rparr>"

definition setGlobalAlpha :: "real \<Rightarrow> canvas \<Rightarrow> canvas" where
  "setGlobalAlpha al c = c\<lparr>cur := (cur c)\<lparr>globalAlpha := al\<rparr>\<rparr>"

definition setFontPx :: "real \<Rightarrow> canvas \<Rightarrow> canvas" where
  "setFontPx n c = c\<lparr>cur := (cur c)\<lparr>fontPx := n\<rparr>\<rparr>"

definition emit :: "primitive \<Rightarrow> canvas \<Rightarrow> canvas" where
  "emit pr c = c\<lparr>drawn := drawn c @ [(cur c, pr)]\<rparr>"

text \<open>An entry of the image cache: an \<open>Image\<close> element that is loading or complete.\<close>

record image =
  complete :: bool
  imageWidth :: real
  imageHeight :: real

definition loadingImage :: image where
  "loadingImage = \<lparr>complete = False, imageWidth = 0, imageHeight = 0\<rparr>"

section \<open>Renderer\<close>

text \<open>
  The tile loop of \<open>drawEntity\<close>: \<open>for (let i = 0; i < layer.data.length; i++)\<close>
  over one layer, \<open>i\<close> being the index of the head of the remaining cells.
\<close>

fun tileLoop ::
  "string \<Rightarrow> real \<Rightarrow> real \<Rightarrow> int \<Rightarrow> real \<Rightarrow> real \<Rightarrow> nat \<Rightarrow> real list \<Rightarrow> canvas \<Rightarrow> canvas" where
  "tileLoop url ts ncols tilesPerRow hw hh i [] c = c"
| "tileLoop url ts ncols tilesPerRow hw hh i (tileIndex # rest) c =
     tileLoop url ts ncols tilesPerRow hw hh (Suc i) rest
       (if tileIndex > 0 then
          (let tx = jsRem (tileIndex - 1) (of_int tilesPerRow) * ts;
               ty = of_int \<lfloor>(tileIndex - 1) / of_int tilesPerRow\<rfloor> * ts;
               dx = - hw + jsRem (real i) ncols * ts;
               dy = - hh + of_int \<lfloor>real i / ncols\<rfloor> * ts
           in emit (DrawImage url tx ty ts ts dx dy ts ts) c)
        else c)"

text \<open>The \<open>// Tilemap\<close> block of \<open>drawEntity\<close>, without the editor's grid lines.\<close>

definition drawTilemap ::
  "tilemapComponent \<Rightarrow> (string \<rightharpoonup> image) \<times> canvas \<Rightarrow> (string \<rightharpoonup> image) \<times> canvas" where
  "drawTilemap tm st =
     (let cache = fst st; c = snd st;
          hw = (columns tm * tileSize tm) / 2;
          hh = (tilemapRows tm * tileSize tm) / 2
      in case tilesetUrl tm of
           None \<Rightarrow> (cache, c)
         | Some url \<Rightarrow>
             if url = [] then (cache, c)
             else
               (case cache url of
                  Some img \<Rightarrow>
                    if complete img then
                      (cache,
                       fold (\<lambda>layer. tileLoop url (tileSize tm) (columns tm)
                                        \<lfloor>imageWidth img / tileSize tm\<rfloor> hw hh 0 (layerData layer))
                            (layers tm) c)
                    else (cache, c)
                | None \<Rightarrow> (cache(url \<mapsto> loadingImage), c)))"

text \<open>
  \<open>drawEntity\<close>. The selection outline, the resize handles and the tilemap grid the
  editor strokes for the selected entity while not playing are left out: they are
  issued between the same \<open>save\<close> and \<open>restore\<close>, do not touch the transform and
  do not exist in the exported bundle.
\<close>

text \<open>The \<open>switch (entity.transform.anchor)\<close>: what is added to \<open>x\<close> and \<open>y\<close>.\<close>

definition anchorOffset :: "real \<Rightarrow> real \<Rightarrow> anchorType option \<Rightarrow> real \<times> real" where
  "anchorOffset w h a =
     (case a of
        None \<Rightarrow> (0, 0)
      | Some TopLeft \<Rightarrow> (0, 0)
      | Some TopCenter \<Rightarrow> (w / 2, 0)
      | Some TopRight \<Rightarrow> (w, 0)
      | Some CenterLeft \<Rightarrow> (0, h / 2)
      | Some Center \<Rightarrow> (w / 2, h / 2)
      | Some CenterRight \<Rightarrow> (w, h / 2)
      | Some BottomLeft \<Rightarrow> (0, h)
      | Some BottomCenter \<Rightarrow> (w / 2, h)
      | Some BottomRight \<Rightarrow> (w, h))"

text \<open>The part of \<open>drawEntity\<close> up to \<open>ctx.scale\<close>: it positions the entity.\<close>

definition placeEntity :: "vector2 \<Rightarrow> entity \<Rightarrow> bool \<Rightarrow> canvas \<Rightarrow> canvas" where
  "placeEntity cameraOffset e ui c0 =
     (let c1 = ctxSave c0;
          c2 =
            (if ui then
               (let c = ctxSave (ctxRestore c1);
                    off = anchorOffset (canvasWidth c) (canvasHeight c) (anchor (transform e));
                    x = vecX (position (transform e)) + fst off;
                    y = vecY (position (transform e)) + snd off
                in ctxTranslate x y c)
             else
               (let parallax = nullish (parallaxFactor (renderer e)) 1;
                    camX = vecX cameraOffset * parallax;
                    camY = vecY cameraOffset * parallax
                in ctxTranslate (vecX (position (transform e)) - camX)
                     (vecY (position (transform e)) - camY) c1));
          c3 = ctxRotate (rotation (transform e) * pi / 180) c2
      in ctxScale (vecX (scale (transform e))) (vecY (scale (transform e))) c3)"

text \<open>The \<open>if / else if\<close> chain on \<open>entity.renderer.type\<close>.\<close>

definition drawShape ::
  "rendererComponent \<Rightarrow> (string \<rightharpoonup> image) \<times> canvas \<Rightarrow> (string \<rightharpoonup> image) \<times> canvas" where
  "drawShape r st =
     (let cache = fst st; c = snd st in
      if rendererType r = Rect then
        (cache, emit (FillRect (- width r / 2) (- height r / 2) (width r) (height r))
                  (setFillStyle (color r) c))
      else if rendererType r = Circle then
        (cache, emit (FillCircle 0 0 (width r / 2)) (setFillStyle (color r) c))
      else if rendererType r = Button then
        (let c1 = emit (FillRect (- width r / 2) (- height r / 2) (width r) (height r))
                    (setFillStyle (color r) c)
         in case rendererText r of
              None \<Rightarrow> (cache, c1)
            | Some t \<Rightarrow>
                if t = [] then (cache, c1)
                else (cache, emit (FillText t 0 0)
                               (setFontPx (numOr (fontSize r) 16) (setFillStyle ''#ffffff'' c1))))
      else if rendererType r = Sprite \<and> truthyStr (spriteUrl r) then
        (case spriteUrl r of
           None \<Rightarrow> (cache, c)
         | Some url \<Rightarrow>
             (case cache url of
                Some img \<Rightarrow>
                  if complete img then
                    (let ncols = numOr (cols r) 1;
                         nrows = numOr (rows r) 1;
                         frame = numOr (currentFrame r) 0;
                         frameWidth = imageWidth img / ncols;
                         frameHeight = imageHeight img / nrows;
                         col = jsRem frame ncols;
                         row = of_int \<lfloor>frame / ncols\<rfloor>
                     in (cache, emit (DrawImage url (col * frameWidth) (row * frameHeight)
                                        frameWidth frameHeight
                                        (- width r / 2) (- height r / 2) (width r) (height r)) c))
                  else (cache, c)
              | None \<Rightarrow> (cache(url \<mapsto> loadingImage), c)))
      else (cache, c))"

text \<open>The \<open>// Draw Particles (in world space)\<close> loop body.\<close>

definition drawParticle ::
  "vector2 \<Rightarrow> entity \<Rightarrow> particleEmitterComponent \<Rightarrow> particle \<Rightarrow> canvas \<Rightarrow> canvas" where
  "drawParticle cameraOffset e em p c =
     (let progress = 1 - life p / maxLife p;
          size = sizeStart em + (sizeEnd em - sizeStart em) * progress;
          parallax = nullish (parallaxFactor (renderer e)) 1;
          camX = vecX cameraOffset * parallax;
          camY = vecY cameraOffset * parallax;
          c1 = ctxTranslate (particleX p - camX) (particleY p - camY) (ctxSave c);
          c2 = setGlobalAlpha (life p / maxLife p) (setFillStyle (colorStart em) c1)
      in ctxRestore (emit (FillCircle 0 0 (size / 2)) c2))"

definition drawEntity ::
  "vector2 \<Rightarrow> (string \<rightharpoonup> particle list) \<Rightarrow> entity \<Rightarrow> bool
     \<Rightarrow> (string \<rightharpoonup> image) \<times> canvas \<Rightarrow> (string \<rightharpoonup> image) \<times> canvas" where
  "drawEntity cameraOffset particlePools e ui st =
     (let st1 = drawShape (renderer e) (fst st, placeEntity cameraOffset e ui (snd st));
          st2 = (case tilemap e of None \<Rightarrow> st1 | Some tm \<Rightarrow> drawTilemap tm st1);
          c3 = ctxRestore (snd st2)
      in if \<not> ui then
           (case particles e of
              None \<Rightarrow> (fst st2, c3)
            | Some em \<Rightarrow>
                (case particlePools (entityId e) of
                   None \<Rightarrow> (fst st2, c3)
                 | Some pool \<Rightarrow> (fst st2, fold (drawParticle cameraOffset e em) pool c3)))
         else (fst st2, c3))"

definition sceneZoom :: "scene \<Rightarrow> real" where
  "sceneZoom sc = (case camera sc of None \<Rightarrow> 1 | Some cam \<Rightarrow> if zoom cam = 0 then 1 else zoom cam)"

text \<open>
  \<open>draw\<close>: clear to the background colour, set up the camera (translate to the canvas
  centre, scale by the zoom), draw the world entities and then the UI entities.
  \<open>cameraOffset\<close> is the editor's pan position; the bundle uses the position of the
  camera's target entity in its place.
\<close>

definition draw ::
  "scene \<Rightarrow> entity list \<Rightarrow> vector2 \<Rightarrow> (string \<rightharpoonup> particle list)
     \<Rightarrow> (string \<rightharpoonup> image) \<times> canvas \<Rightarrow> (string \<rightharpoonup> image) \<times> canvas" where
  "draw sc es cameraOffset particlePools st =
     (let c0 = emit (FillRect 0 0 (canvasWidth (snd st)) (canvasHeight (snd st)))
                 (setFillStyle (backgroundColor sc) (snd st));
          c1 = ctxTranslate (canvasWidth c0 / 2) (canvasHeight c0 / 2) (ctxSave c0);
          c2 = ctxScale (sceneZoom sc) (sceneZoom sc) c1;
          nonUIEntities = filter (\<lambda>e. \<not> truthyBool (isUI (transform e))) es;
          uiEntities = filter (\<lambda>e. truthyBool (isUI (transform e))) es;
          st1 = fold (\<lambda>e. drawEntity cameraOffset particlePools e False) nonUIEntities (fst st, c2);
          st2 = fold (\<lambda>e. drawEntity cameraOffset particlePools e True) uiEntities st1
      in (fst st2, ctxRestore (snd st2)))"

section \<open>Interaction layer: pointer-down\<close>

text \<open>
  \<open>getCanvasCoordinates\<close>: the pointer in canvas pixels (the canvas may be shown
  scaled inside its bounding rectangle), then in camera space: relative to the canvas
  centre and divided by the zoom.
\<close>

record clientRect =
  rectLeft :: real
  rectTop :: real
  rectWidth :: real
  rectHeight :: real

record pointerCoords =
  screenX :: real
  screenY :: real
  clientX :: real
  clientY :: real

definition getCanvasCoordinates ::
  "real \<Rightarrow> real \<Rightarrow> clientRect \<Rightarrow> real \<Rightarrow> real \<Rightarrow> real \<Rightarrow> pointerCoords" where
  "getCanvasCoordinates cw ch rect zm cx cy =
     (let scaleX = cw / rectWidth rect;
          scaleY = ch / rectHeight rect;
          rawX = (cx - rectLeft rect) * scaleX;
          rawY = (cy - rectTop rect) * scaleY
      in \<lparr>screenX = (rawX - cw / 2) / zm, screenY = (rawY - ch / 2) / zm,
          clientX = cx, clientY = cy\<rparr>)"

text \<open>
  The pointer in the local space of an entity: relative to the entity's
  parallax-adjusted position and rotated by minus the entity's rotation.
\<close>

definition localPointer :: "vector2 \<Rightarrow> real \<Rightarrow> real \<Rightarrow> entity \<Rightarrow> real \<times> real" where
  "localPointer cameraOffset sx sy e =
     (let parallax = nullish (parallaxFactor (renderer e)) 1;
          camX = vecX cameraOffset * parallax;
          camY = vecY cameraOffset * parallax;
          ex = vecX (position (transform e)) - camX;
          ey = vecY (position (transform e)) - camY;
          dx = sx - ex;
          dy = sy - ey;
          ang = - rotation (transform e) * pi / 180
      in (dx * cos ang - dy * sin ang, dx * sin ang + dy * cos ang))"

text \<open>The predicate of \<open>[...entitiesRef.current].reverse().find(...)\<close>.\<close>

definition entityHit :: "vector2 \<Rightarrow> real \<Rightarrow> real \<Rightarrow> entity \<Rightarrow> bool" where
  "entityHit cameraOffset sx sy e =
     (let w = width (renderer e) * vecX (scale (transform e));
          h = height (renderer e) * vecY (scale (transform e));
          localX = fst (localPointer cameraOffset sx sy e);
          localY = snd (localPointer cameraOffset sx sy e)
      in if rendererType (renderer e) = Circle
         then sqrt (localX * localX + localY * localY) \<le> w / 2
         else localX \<ge> - w / 2 \<and> localX \<le> w / 2 \<and> localY \<ge> - h / 2 \<and> localY \<le> h / 2)"

definition clickedEntity :: "vector2 \<Rightarrow> real \<Rightarrow> real \<Rightarrow> entity list \<Rightarrow> entity option" where
  "clickedEntity cameraOffset sx sy es = List.find (entityHit cameraOffset sx sy) (rev es)"

text \<open>The resize handles of the selected entity, tested before the entities.\<close>

datatype handle = TL | TR | BL | BR

definition resizeHandleAt :: "vector2 \<Rightarrow> real \<Rightarrow> real \<Rightarrow> real \<Rightarrow> entity \<Rightarrow> handle option" where
  "resizeHandleAt cameraOffset zm sx sy e =
     (let w = width (renderer e) * vecX (scale (transform e));
          h = height (renderer e) * vecY (scale (transform e));
          localX = fst (localPointer cameraOffset sx sy e);
          localY = snd (localPointer cameraOffset sx sy e);
          hw = w / 2;
          hh = h / 2;
          hs = 10 / zm;
          isHit = (\<lambda>hx hy. \<bar>localX - hx\<bar> < hs \<and> \<bar>localY - hy\<bar> < hs)
      in if isHit (- hw) (- hh) then Some TL
         else if isHit hw (- hh) then Some TR
         else if isHit (- hw) hh then Some BL
         else if isHit hw hh then Some BR
         else None)"

record resizeStart =
  startX :: real
  startY :: real
  startSx :: real
  startSy :: real
  startW :: real
  startH :: real

record pointerState =
  selectedEntityId :: "string option"
  isDragging :: bool
  isResizing :: "handle option"
  isPanning :: bool
  dragOffset :: vector2
  resizeStartRef :: resizeStart
  lastPanPos :: vector2

text \<open>
  \<open>// Check Resize Handles first if an entity is selected\<close>: the handle of the
  selected entity under the pointer, with that entity.
\<close>

definition grabbedHandle ::
  "real \<Rightarrow> vector2 \<Rightarrow> entity list \<Rightarrow> pointerCoords \<Rightarrow> string option
     \<Rightarrow> (handle \<times> entity) option" where
  "grabbedHandle zm cameraOffset es pc selected =
     (case selected of
        None \<Rightarrow> None
      | Some sel \<Rightarrow>
          if sel = [] then None
          else
            (case List.find (\<lambda>e. entityId e = sel) es of
               None \<Rightarrow> None
             | Some e \<Rightarrow>
                 if rendererType (renderer e) \<noteq> Circle then
                   map_option (\<lambda>hnd. (hnd, e))
                     (resizeHandleAt cameraOffset zm (screenX pc) (screenY pc) e)
                 else None))"

text \<open>
  \<open>handlePointerDown\<close>. \<open>onSelectEntity\<close> is taken to store the selection, as the
  application's handler does.
\<close>

definition handlePointerDown ::
  "bool \<Rightarrow> bool \<Rightarrow> real \<Rightarrow> vector2 \<Rightarrow> entity list \<Rightarrow> pointerCoords \<Rightarrow> pointerState \<Rightarrow> pointerState" where
  "handlePointerDown isPlaying isReadOnly zm cameraOffset es pc st =
     (if isPlaying \<or> isReadOnly then st
      else
        (case grabbedHandle zm cameraOffset es pc (selectedEntityId st) of
           Some (hnd, e) \<Rightarrow>
             st\<lparr>isResizing := Some hnd,
                resizeStartRef :=
                  \<lparr>startX = screenX pc, startY = screenY pc,
                   startSx = vecX (scale (transform e)), startSy = vecY (scale (transform e)),
                   startW = width (renderer e), startH = height (renderer e)\<rparr>\<rparr>
         | None \<Rightarrow>
             (case clickedEntity cameraOffset (screenX pc) (screenY pc) es of
                Some e \<Rightarrow>
                  (let parallax = nullish (parallaxFactor (renderer e)) 1;
                       camX = vecX cameraOffset * parallax;
                       camY = vecY cameraOffset * parallax
                   in st\<lparr>selectedEntityId := Some (entityId e), isDragging := True,
                         dragOffset :=
                           \<lparr>vecX = screenX pc - (vecX (position (transform e)) - camX),
                            vecY = screenY pc - (vecY (position (transform e)) - camY)\<rparr>\<rparr>)
              | None \<Rightarrow>
                  st\<lparr>selectedEntityId := None, isPanning := True,
                     lastPanPos := \<lparr>vecX = clientX pc, vecY = clientY pc\<rparr>\<rparr>)))"

section \<open>Prefabs\<close>

text \<open>
  The application state the prefab handlers of \<open>App.tsx\<close> work on. The \<open>data\<close> of a
  prefab asset is JSON text; it is represented by the value \<open>JSON.parse\<close> returns for
  it, so \<open>JSON.stringify\<close> stores \<open>jsonClone v\<close> and \<open>JSON.parse\<close> reads it back
  unchanged. \<open>crypto.randomUUID()\<close> is a parameter of each handler.
\<close>

datatype assetKind = ImageAsset | AudioAsset | ScriptAsset | PrefabAsset

record asset =
  assetId :: string
  assetName :: string
  assetType :: assetKind
  assetUrl :: string
  assetData :: "jsval option"

record appState =
  currentScene :: "scene option"
  assets :: "asset list"
  appSelectedEntityId :: "string option"
  consoleLog :: "logMessage list"

text \<open>The rest of a destructuring \<open>{ k, ...rest }\<close> and the properties a spread copies.\<close>

definition objectRest :: "string \<Rightarrow> jsval \<Rightarrow> jsval" where
  "objectRest k v = (case v of JObj kvs \<Rightarrow> JObj (AList.delete k kvs) | _ \<Rightarrow> JObj [])"

definition spreadOf :: "jsval \<Rightarrow> (string \<times> jsval) list" where
  "spreadOf v = (case v of JObj kvs \<Rightarrow> kvs | _ \<Rightarrow> [])"

definition savePrefabData :: "entity \<Rightarrow> jsval" where
  "savePrefabData e = jsonClone (objectRest ''id'' (jsonClone (entityJ e)))"

definition handleSavePrefab :: "string \<Rightarrow> string \<Rightarrow> appState \<Rightarrow> appState" where
  "handleSavePrefab uuid eid st =
     (case currentScene st of
        None \<Rightarrow> st
      | Some sc \<Rightarrow>
          (case List.find (\<lambda>e. entityId e = eid) (entities sc) of
             None \<Rightarrow> st
           | Some e \<Rightarrow>
               st\<lparr>assets := assets st @
                     [\<lparr>assetId = uuid, assetName = entityName e @ '' Prefab'',
                       assetType = PrefabAsset, assetUrl = [],
                       assetData = Some (savePrefabData e)\<rparr>]\<rparr>))"

text \<open>
  The object literal of \<open>handleInstantiatePrefab\<close>:
  \<open>{ ...entityData, id, name, prefabId, transform: { ...entityData.transform, position } }\<close>.
  Reading \<open>entityData.transform.position.x\<close> throws when a parent is missing; a name
  that is not a string or a coordinate that is not a number is not modelled.
\<close>

definition instantiateObject :: "string \<Rightarrow> string \<Rightarrow> jsval \<Rightarrow> fault + jsval" where
  "instantiateObject uuid pid entityData =
     (case readProp entityData ''name'' of
        Inl f \<Rightarrow> Inl f
      | Inr nm \<Rightarrow>
     (case readProp entityData ''transform'' of
        Inl f \<Rightarrow> Inl f
      | Inr tr \<Rightarrow>
     (case readProp tr ''position'' of
        Inl f \<Rightarrow> Inl f
      | Inr pos \<Rightarrow>
     (case readProp pos ''x'' of
        Inl f \<Rightarrow> Inl f
      | Inr px \<Rightarrow>
     (case readProp pos ''y'' of
        Inl f \<Rightarrow> Inl f
      | Inr py \<Rightarrow>
     (case (nm, px, py) of
        (JStr n, JNum a, JNum b) \<Rightarrow>
          Inr (JObj
            (AList.update ''transform''
               (JObj (AList.update ''position''
                        (JObj [(''x'', JNum (a + 20)), (''y'', JNum (b + 20))])
                        (spreadOf tr)))
               (AList.update ''prefabId'' (JStr pid)
                  (AList.update ''name'' (JStr (n @ '' (Instance)''))
                     (AList.update ''id'' (JStr uuid) (spreadOf entityData))))))
      | _ \<Rightarrow> Inl (Unmodelled ''name or position of another type'')))))))"

definition handleInstantiatePrefab :: "string \<Rightarrow> string \<Rightarrow> appState \<Rightarrow> fault + appState" where
  "handleInstantiatePrefab uuid pid st =
     (case List.find (\<lambda>a. assetId a = pid) (assets st) of
        None \<Rightarrow> Inr st
      | Some prefabAsset \<Rightarrow>
          (case assetData prefabAsset of
             None \<Rightarrow> Inr st
           | Some entityData \<Rightarrow>
               (case instantiateObject uuid pid entityData of
                  Inl (TypeError msg) \<Rightarrow>
                    Inr (st\<lparr>consoleLog := consoleLog st @
                           [\<lparr>logType = LogError,
                             logText = ''Failed to instantiate prefab '' @ msg\<rparr>]\<rparr>)
                | Inl (Unmodelled msg) \<Rightarrow> Inl (Unmodelled msg)
                | Inr obj \<Rightarrow>
                    (case entityOf obj of
                       None \<Rightarrow> Inl (Unmodelled ''not an Entity'')
                     | Some newEntity \<Rightarrow>
                         Inr (st\<lparr>currentScene :=
                                   map_option
                                     (\<lambda>sc. sc\<lparr>entities := entities sc @ [newEntity]\<rparr>)
                                     (currentScene st),
                                 appSelectedEntityId := Some (entityId newEntity)\<rparr>)))))"

section \<open>The claims' own terms and the inputs of the examples\<close>

text \<open>The number of physics advances the specification promises for one frame.\<close>

definition advances :: "real \<Rightarrow> real \<Rightarrow> real \<Rightarrow> nat" where
  "advances ft acc dt = nat \<lfloor>(acc + min dt (1 / 10)) / ft\<rfloor>"

text \<open>
  What claim C10 says the tile loop issues for cell \<open>i\<close> holding the tile index
  \<open>n > 0\<close>, on a grid of \<open>c\<close> columns and \<open>r\<close> rows drawn from a tileset with
  \<open>tpr\<close> tiles per row: source tile \<open>n - 1\<close> in row-major order, destination column
  \<open>i mod c\<close> and row \<open>i div c\<close>, the grid centred on the origin.
\<close>

definition tileCall :: "string \<Rightarrow> real \<Rightarrow> nat \<Rightarrow> real \<Rightarrow> nat \<Rightarrow> nat \<Rightarrow> nat \<Rightarrow> primitive" where
  "tileCall url ts c r tpr i n =
     DrawImage url (real ((n - 1) mod tpr) * ts) (real ((n - 1) div tpr) * ts) ts ts
       (- ((real c * ts) / 2) + real (i mod c) * ts)
       (- ((r * ts) / 2) + real (i div c) * ts) ts ts"

definition layerCalls :: "string \<Rightarrow> real \<Rightarrow> nat \<Rightarrow> real \<Rightarrow> nat \<Rightarrow> nat \<Rightarrow> nat list \<Rightarrow> primitive list" where
  "layerCalls url ts c r tpr i ns =
     map (\<lambda>(j, n). tileCall url ts c r tpr j n)
       (filter (\<lambda>(j, n). 0 < n) (zip [i ..< i + length ns] ns))"

definition natLayer :: "string \<times> nat list \<Rightarrow> tilemapLayer" where
  "natLayer l = \<lparr>layerName = fst l, layerData = map real (snd l)\<rparr>"

text \<open>
  The transform under which \<open>drawEntity\<close> draws a world entity, in camera space
  (before the camera's own translate and scale): translate to the parallax-adjusted
  position, rotate, scale. Claim C9 compares the hit test with it.
\<close>

definition entityMatrix :: "vector2 \<Rightarrow> entity \<Rightarrow> matrix" where
  "entityMatrix cameraOffset e =
     (let parallax = nullish (parallaxFactor (renderer e)) 1;
          camX = vecX cameraOffset * parallax;
          camY = vecY cameraOffset * parallax
      in scaleM (vecX (scale (transform e))) (vecY (scale (transform e)))
           (rotateM (rotation (transform e) * pi / 180)
              (translateM (vecX (position (transform e)) - camX)
                 (vecY (position (transform e)) - camY) identityMatrix)))"

text \<open>
  The rectangle of the hit-testing example of claim C9: 100 by 20, centred on the
  world origin, unscaled, with the rotation (in degrees) as parameter.
\<close>

definition exampleRect :: "real \<Rightarrow> entity" where
  "exampleRect deg =
     \<lparr>entityId = ''rect-1'', entityName = ''New rect'',
      transform = \<lparr>position = \<lparr>vecX = 0, vecY = 0\<rparr>, rotation = deg,
                   scale = \<lparr>vecX = 1, vecY = 1\<rparr>, isUI = None, anchor = None\<rparr>,
      physics = None,
      renderer = \<lparr>rendererType = Rect, color = ''#06b6d4'', width = 100, height = 20,
                  spriteUrl = None, rendererText = None, fontSize = Some 16, cols = None,
                  rows = None, animations = None, currentAnimation = None,
                  currentFrame = None, parallaxFactor = Some 1\<rparr>,
      script = None, particles = None, tilemap = None, propertyAnimations = None,
      prefabId = None\<rparr>"

definition originVec :: vector2 where
  "originVec = \<lparr>vecX = 0, vecY = 0\<rparr>"

text \<open>The emitter the editor creates (\<open>handleAddEntity\<close>), with the cap as parameter.\<close>

definition defaultEmitter :: "real \<Rightarrow> particleEmitterComponent" where
  "defaultEmitter cap =
     \<lparr>emitting = True, maxParticles = cap, emissionRate = 10, lifetime = 2,
      lifetimeRange = 1 / 2, speed = 100, speedRange = 20, angle = - 90, spread = 45,
      colorStart = ''#ffaa00'', colorEnd = ''#ff0000'', sizeStart = 10, sizeEnd = 2\<rparr>"

text \<open>A source of draws that always yields \<open>0\<close>, for concrete runs.\<close>

definition zeroDraws :: "nat \<Rightarrow> real" where
  "zeroDraws i = 0"

text \<open>A fresh canvas of the given size, and the pixel a drawing state maps its origin to.\<close>

definition blankCanvas :: "real \<Rightarrow> real \<Rightarrow> canvas" where
  "blankCanvas w h =
     \<lparr>canvasWidth = w, canvasHeight = h,
      cur = \<lparr>ctm = identityMatrix, fillStyle = ''#000000'', globalAlpha = 1, fontPx = 10\<rparr>,
      saved = [], drawn = []\<rparr>"

definition originPixel :: "gstate \<Rightarrow> real \<times> real" where
  "originPixel g = applyMatrix (ctm g) (0, 0)"

text \<open>
  The UI entity of the example of claim C4 (a button anchored bottom-right at
  \<open>(-10, -10)\<close>) and a scene without camera settings holding it.
\<close>

definition exampleButton :: entity where
  "exampleButton =
     \<lparr>entityId = ''button-1'', entityName = ''New button'',
      transform = \<lparr>position = \<lparr>vecX = - 10, vecY = - 10\<rparr>, rotation = 0,
                   scale = \<lparr>vecX = 1, vecY = 1\<rparr>, isUI = Some True,
                   anchor = Some BottomRight\<rparr>,
      physics = None,
      renderer = \<lparr>rendererType = Button, color = ''#0ea5e9'', width = 120, height = 50,
                  spriteUrl = None, rendererText = Some ''Button'', fontSize = Some 16,
                  cols = None, rows = None, animations = None, currentAnimation = None,
                  currentFrame = None, parallaxFactor = Some 1\<rparr>,
      script = None, particles = None, tilemap = None, propertyAnimations = None,
      prefabId = None\<rparr>"

definition exampleScene :: "entity list \<Rightarrow> scene" where
  "exampleScene es =
     \<lparr>entities = es, backgroundColor = ''#1a1a1a'', camera = None, scenePhysics = None\<rparr>"

text \<open>What claim C8 says an instance is: the original with a fresh id and moved by (20, 20).\<close>

definition claimedInstance :: "string \<Rightarrow> entity \<Rightarrow> entity" where
  "claimedInstance uuid e =
     e\<lparr>entityId := uuid,
       transform := (transform e)\<lparr>position :=
         \<lparr>vecX = vecX (position (transform e)) + 20,
          vecY = vecY (position (transform e)) + 20\<rparr>\<rparr>\<rparr>"

text \<open>What the handlers produce.\<close>

definition prefabInstance :: "string \<Rightarrow> string \<Rightarrow> entity \<Rightarrow> entity" where
  "prefabInstance uuid pid e =
     (claimedInstance uuid e)\<lparr>entityName := entityName e @ '' (Instance)'',
                               prefabId := Some pid\<rparr>"

text \<open>An application state holding one scene with the example rectangle, and the
  entities of the scene a handler leaves behind.\<close>

definition exampleApp :: appState where
  "exampleApp =
     \<lparr>currentScene = Some (exampleScene [exampleRect 0]), assets = [],
      appSelectedEntityId = None, consoleLog = []\<rparr>"

definition resultEntities :: "fault + appState \<Rightarrow> entity list" where
  "resultEntities r =
     (case r of
        Inl f \<Rightarrow> []
      | Inr st \<Rightarrow> (case currentScene st of None \<Rightarrow> [] | Some sc \<Rightarrow> entities sc))"

text \<open>The animation of claims C6 and C7: keyframes (0, 0) and (1, 10) on \<open>transform.position.x\<close>.\<close>

definition rampAnimation :: "bool \<Rightarrow> propertyAnimation" where
  "rampAnimation looping =
     \<lparr>animName = ''ramp'', property = ''transform.position.x'',
      keyframes = [\<lparr>keyframeTime = 0, keyframeValue = 0\<rparr>,
                   \<lparr>keyframeTime = 1, keyframeValue = 10\<rparr>],
      loop = looping, playing = True, currentTime = 0\<rparr>"

text \<open>The ramp animation with its cursor and its playing flag set, and an entity with
  its \<open>transform.position.x\<close> set.\<close>

definition rampAt :: "bool \<Rightarrow> real \<Rightarrow> bool \<Rightarrow> propertyAnimation" where
  "rampAt looping ct pl = (rampAnimation looping)\<lparr>currentTime := ct, playing := pl\<rparr>"

definition withPositionX :: "real \<Rightarrow> entity \<Rightarrow> entity" where
  "withPositionX v e =
     e\<lparr>transform := (transform e)\<lparr>position := (position (transform e))\<lparr>vecX := v\<rparr>\<rparr>\<rparr>"

definition rampEntity :: "bool \<Rightarrow> entity" where
  "rampEntity looping = (exampleRect 0)\<lparr>propertyAnimations := Some [rampAnimation looping]\<rparr>"

definition animationsOf :: "entity \<Rightarrow> propertyAnimation list" where
  "animationsOf e = (case propertyAnimations e of None \<Rightarrow> [] | Some l \<Rightarrow> l)"

text \<open>
  The time an animation has run after a sequence of frames: the frame times added one
  by one to the cursor, as binary64 adds them.
\<close>

fun runningSum64 :: "real \<Rightarrow> real list \<Rightarrow> real" where
  "runningSum64 c [] = c"
| "runningSum64 c (dt # dts) = runningSum64 (round64 (c + dt)) dts"

text \<open>
  The entities of the fault-isolation claims: a rectangle without a physics component
  whose animation targets \<open>physics.velocity.x\<close>, and the same run of scripts with
  every throw replaced by a normal return at the same point.
\<close>

definition brokenAnimation :: propertyAnimation where
  "brokenAnimation = (rampAnimation False)\<lparr>property := ''physics.velocity.x''\<rparr>"

definition brokenEntity :: entity where
  "brokenEntity =
     (exampleRect 0)\<lparr>entityId := ''broken-1'', propertyAnimations := Some [brokenAnimation]\<rparr>"

definition calm :: "scriptOutcome \<Rightarrow> scriptOutcome" where
  "calm r = (case r of Returned e \<Rightarrow> Returned e | Threw e v \<Rightarrow> Returned e)"

definition quiet :: "'w env \<Rightarrow> 'w env" where
  "quiet ev = ev\<lparr>runScript := (\<lambda>src e inp dt. calm (runScript ev src e inp dt))\<rparr>"

definition withConsole :: "logMessage list \<Rightarrow> 'w frameState \<Rightarrow> 'w frameState" where
  "withConsole c fs = fs\<lparr>sim := (sim fs)\<lparr>console := c\<rparr>\<rparr>"

text \<open>
  Two scripts and what running them does. \<open>foo();\<close> calls a function that does not
  exist and throws a \<open>ReferenceError\<close>, an object that \<open>JSON.stringify\<close> renders as
  \<open>{}\<close>. The other throws an object that refers to itself, on which
  \<open>JSON.stringify\<close> throws. Neither touches the entity.
\<close>

definition exampleScripts :: "string \<Rightarrow> entity \<Rightarrow> inputSnapshot \<Rightarrow> real \<Rightarrow> scriptOutcome" where
  "exampleScripts src e inp dt =
     (if src = ''foo();'' then Threw e (Serialisable ''{}'')
      else if src = ''const o = {}; o.self = o; throw o;''
      then Threw e (Unserialisable ''Converting circular structure to JSON'')
      else Returned e)"

text \<open>
  The editor and the exported bundle without physics bodies, and an entity for each
  of the two scripts.
\<close>

definition editorEnv :: "unit env" where
  "editorEnv =
     \<lparr>engineUpdate = (\<lambda>ms w. w), bodyOf = (\<lambda>w i. None), draws = zeroDraws,
      runScript = exampleScripts, strictMode = True, intercepted = True,
      input = \<lparr>inputX = 0, inputY = 0, inputAction = False\<rparr>\<rparr>"

definition bundleEnv :: "unit env" where
  "bundleEnv = editorEnv\<lparr>strictMode := False, intercepted := False\<rparr>"

definition scriptedEntity :: entity where
  "scriptedEntity =
     (exampleRect 0)\<lparr>entityId := ''scripted-1'',
        script := Some \<lparr>scriptType = ScriptCustom, scriptName = Some ''main'',
                        content = Some ''foo();''\<rparr>\<rparr>"

definition cyclicEntity :: entity where
  "cyclicEntity =
     (exampleRect 0)\<lparr>entityId := ''scripted-2'',
        script := Some \<lparr>scriptType = ScriptCustom, scriptName = Some ''main'',
                        content = Some ''const o = {}; o.self = o; throw o;''\<rparr>\<rparr>"

definition emptySim :: simState where
  "emptySim = \<lparr>pools = Map.empty, nextDraw = 0, console = []\<rparr>"

section \<open>Properties of binary64 rounding\<close>

text \<open>
  The rounding error is at most half a unit in the last place; a value
  \<open>m * 2^e\<close> with \<open>|m| < 2^53\<close> and \<open>e \<ge> -1074\<close> is its own rounding; rounding is
  idempotent and, on the non-negative reals, monotone.
\<close>

lemma roundEven_error: "\<bar>of_int (roundEven y) - y\<bar> \<le> 1 / 2"
  unfolding roundEven_def Let_def by (auto simp: abs_real_def) linarith+

lemma roundEven_of_int [simp]: "roundEven (of_int m) = m"
  unfolding roundEven_def Let_def by simp

lemma roundEven_zero [simp]: "roundEven 0 = 0"
  unfolding roundEven_def Let_def by simp

lemma roundEven_nonneg: "0 \<le> y \<Longrightarrow> 0 \<le> roundEven y"
  unfolding roundEven_def Let_def by (auto simp: ) 

lemma roundEven_mono: "x \<le> y \<Longrightarrow> roundEven x \<le> roundEven y"
proof -
  assume xy: "x \<le> y"
  have fl: "\<lfloor>x\<rfloor> \<le> \<lfloor>y\<rfloor>" using xy by (rule floor_mono)
  show ?thesis
  proof (cases "\<lfloor>x\<rfloor> = \<lfloor>y\<rfloor>")
    case True
    then show ?thesis using xy unfolding roundEven_def Let_def by auto
  next
    case False
    then have "\<lfloor>x\<rfloor> + 1 \<le> \<lfloor>y\<rfloor>" using fl by simp
    moreover have "roundEven x \<le> \<lfloor>x\<rfloor> + 1" unfolding roundEven_def Let_def by auto
    moreover have "\<lfloor>y\<rfloor> \<le> roundEven y" unfolding roundEven_def Let_def by auto
    ultimately show ?thesis by linarith
  qed
qed

lemma exponentOf_bounds:
  assumes "x \<noteq> 0"
  shows "2 powi exponentOf x \<le> \<bar>x\<bar>" and "\<bar>x\<bar> < 2 powi (exponentOf x + 1)"
proof -
  have "2 powi exponentOf x \<le> \<bar>x\<bar> \<and> \<bar>x\<bar> < 2 powi (exponentOf x + 1)"
  proof (cases "1 \<le> \<bar>x\<bar>")
    case True
    define m where "m = \<lfloor>\<bar>x\<bar>\<rfloor>"
    have m: "0 < m" using True unfolding m_def by simp
    have e: "exponentOf x = bitlen m - 1" using True by (simp add: exponentOf_def m_def)
    have b1: "1 \<le> bitlen m" using m by (simp add: bitlen_alt_def)
    from bitlen_bounds[OF m] have lo: "2 ^ nat (bitlen m - 1) \<le> m" and hi: "m < 2 ^ nat (bitlen m)"
      by simp_all
    have "(2::real) powi (bitlen m - 1) = 2 ^ nat (bitlen m - 1)"
      using b1 by (simp add: power_int_nonneg_exp)
    also have "\<dots> = of_int (2 ^ nat (bitlen m - 1))" by simp
    also have "\<dots> \<le> of_int m" using lo by (simp only: of_int_le_iff)
    also have "\<dots> \<le> \<bar>x\<bar>" unfolding m_def by simp
    finally have A: "2 powi exponentOf x \<le> \<bar>x\<bar>" by (simp add: e)
    have "m + 1 \<le> 2 ^ nat (bitlen m)" using hi by simp
    then have "(of_int (m + 1) :: real) \<le> of_int (2 ^ nat (bitlen m))" by (simp only: of_int_le_iff)
    moreover have "\<bar>x\<bar> < of_int (m + 1)" unfolding m_def by linarith
    moreover have "(2::real) powi (bitlen m - 1 + 1) = 2 ^ nat (bitlen m)"
      using b1 by (simp add: power_int_nonneg_exp)
    ultimately have B: "\<bar>x\<bar> < 2 powi (exponentOf x + 1)" by (simp add: e)
    show ?thesis using A B by simp
  next
    case False
    define y where "y = 1 / \<bar>x\<bar>"
    define c where "c = \<lceil>y\<rceil> - 1"
    have x0: "0 < \<bar>x\<bar>" using assms by simp
    have y1: "1 < y" using False x0 unfolding y_def by (simp add: field_simps)
    have c: "0 < c" unfolding c_def using y1 by simp
    have e: "exponentOf x = - bitlen c" using False by (simp add: exponentOf_def c_def y_def)
    have b1: "1 \<le> bitlen c" using c by (simp add: bitlen_alt_def)
    from bitlen_bounds[OF c] have lo: "2 ^ nat (bitlen c - 1) \<le> c" and hi: "c < 2 ^ nat (bitlen c)"
      by simp_all
    have cy: "of_int c < y" "y \<le> of_int c + 1" unfolding c_def by linarith+
    have "c + 1 \<le> 2 ^ nat (bitlen c)" using hi by simp
    then have "(of_int (c + 1) :: real) \<le> of_int (2 ^ nat (bitlen c))" by (simp only: of_int_le_iff)
    then have "of_int c + 1 \<le> (2::real) ^ nat (bitlen c)" by simp
    then have "y \<le> 2 ^ nat (bitlen c)" using cy by linarith
    then have "y \<le> 2 powi (bitlen c)" using b1 by (simp add: power_int_nonneg_exp)
    then have A: "2 powi exponentOf x \<le> \<bar>x\<bar>"
      using x0 unfolding e y_def by (simp add: power_int_minus field_simps)
    have "(of_int (2 ^ nat (bitlen c - 1)) :: real) \<le> of_int c" using lo by (simp only: of_int_le_iff)
    then have "(2::real) ^ nat (bitlen c - 1) \<le> of_int c" by simp
    then have "2 ^ nat (bitlen c - 1) < y" using cy by linarith
    then have py: "2 powi (bitlen c - 1) < y" using b1 by (simp add: power_int_nonneg_exp)
    have pp: "0 < (2::real) powi (bitlen c - 1)" by simp
    have "\<bar>x\<bar> < 1 / 2 powi (bitlen c - 1)"
      using py x0 pp unfolding y_def by (simp add: field_simps)
    moreover have "exponentOf x + 1 = - (bitlen c - 1)" by (simp add: e)
    ultimately have B: "\<bar>x\<bar> < 2 powi (exponentOf x + 1)"
      by (simp only: power_int_minus_divide)
    show ?thesis using A B by simp
  qed
  then show "2 powi exponentOf x \<le> \<bar>x\<bar>" and "\<bar>x\<bar> < 2 powi (exponentOf x + 1)" by simp_all
qed

lemma exponentOf_unique:
  assumes "2 powi k \<le> \<bar>x\<bar>" and "\<bar>x\<bar> < 2 powi (k + 1)"
  shows "exponentOf x = k"
proof -
  have "0 < (2::real) powi k" by simp
  have x: "x \<noteq> 0"
  proof
    assume "x = 0"
    with assms(1) have "2 powi k \<le> (0::real)" by simp
    with \<open>0 < (2::real) powi k\<close> show False by linarith
  qed
  note b = exponentOf_bounds[OF x]
  have "\<not> exponentOf x < k"
  proof
    assume "exponentOf x < k"
    then have "(2::real) powi (exponentOf x + 1) \<le> 2 powi k" by (intro power_int_increasing) simp_all
    then show False using b(2) assms(1) by linarith
  qed
  moreover have "\<not> k < exponentOf x"
  proof
    assume "k < exponentOf x"
    then have "(2::real) powi (k + 1) \<le> 2 powi exponentOf x" by (intro power_int_increasing) simp_all
    then show False using b(1) assms(2) by linarith
  qed
  ultimately show ?thesis by simp
qed


lemma p2_add: "(2::real) powi (a + b) = 2 powi a * 2 powi b"
  by (simp add: power_int_add)

lemma p2_diff: "(2::real) powi (a - b) = 2 powi a / 2 powi b"
  by (simp add: power_int_diff)

lemma p2_mono: "a \<le> b \<Longrightarrow> (2::real) powi a \<le> 2 powi b"
  by (rule power_int_increasing) simp_all

lemma p2_pos: "0 < (2::real) powi a"
  by simp

lemma ulpExponent_ge: "- 1074 \<le> ulpExponent x"
  by (simp add: ulpExponent_def)

lemma round64_zero [simp]: "round64 0 = 0"
  by (simp add: round64_def)

lemma round64_error: "\<bar>round64 x - x\<bar> \<le> 2 powi ulpExponent x / 2"
proof -
  define u where "u = (2::real) powi ulpExponent x"
  have u: "0 < u" unfolding u_def by simp
  have "round64 x - x = (of_int (roundEven (x / u)) - x / u) * u"
    using u unfolding round64_def u_def by (simp add: field_simps)
  then have "\<bar>round64 x - x\<bar> = \<bar>of_int (roundEven (x / u)) - x / u\<bar> * u"
    using u by (simp add: abs_mult)
  also have "\<dots> \<le> (1 / 2) * u"
    using roundEven_error[of "x / u"] u by (intro mult_right_mono) simp_all
  finally show ?thesis by (simp add: u_def)
qed

lemma round64_nonneg: "0 \<le> x \<Longrightarrow> 0 \<le> round64 x"
  unfolding round64_def by (intro mult_nonneg_nonneg) (simp_all add: roundEven_nonneg)

lemma round64_relative: "\<bar>round64 x - x\<bar> \<le> max (\<bar>x\<bar> / 2 ^ 53) (1 / 2 ^ 1075)"
proof (cases "x = 0")
  case True
  then show ?thesis by simp
next
  case False
  note b = exponentOf_bounds[OF False]
  show ?thesis
  proof (cases "- 1074 \<le> exponentOf x - 52")
    case True
    then have u: "ulpExponent x = exponentOf x - 52" by (simp add: ulpExponent_def)
    have "(2::real) powi ulpExponent x / 2 = 2 powi exponentOf x / 2 ^ 53"
      unfolding u p2_diff by simp
    also have "\<dots> \<le> \<bar>x\<bar> / 2 ^ 53" using b(1) by (simp add: divide_right_mono)
    finally show ?thesis using round64_error[of x] by linarith
  next
    case False
    then have u: "ulpExponent x = - 1074" by (simp add: ulpExponent_def)
    have "(2::real) powi ulpExponent x / 2 = 1 / 2 ^ 1075"
      unfolding u by (simp add: power_int_minus_divide)
    then show ?thesis using round64_error[of x] by linarith
  qed
qed

lemma round64_exact:
  assumes x: "x = of_int m * 2 powi e" and m: "\<bar>m\<bar> < 2 ^ 53" and e: "- 1074 \<le> e"
  shows "round64 x = x"
proof (cases "m = 0")
  case True
  then show ?thesis using x by simp
next
  case False
  then have x0: "x \<noteq> 0" using x by simp
  note b = exponentOf_bounds[OF x0]
  have "\<bar>x\<bar> = of_int \<bar>m\<bar> * 2 powi e" unfolding x by (simp add: abs_mult)
  also have "\<dots> < 2 ^ 53 * 2 powi e"
  proof (rule mult_strict_right_mono)
    have "(of_int \<bar>m\<bar> :: real) < of_int (2 ^ 53)" using m by (simp only: of_int_less_iff)
    then show "(of_int \<bar>m\<bar> :: real) < 2 ^ 53" by simp
  qed simp
  also have "\<dots> = 2 powi (e + 53)" unfolding p2_add by simp
  finally have "2 powi exponentOf x < (2::real) powi (e + 53)" using b(1) by linarith
  then have "exponentOf x < e + 53"
    using p2_mono[of "e + 53" "exponentOf x"] by (cases "exponentOf x < e + 53") auto
  then have "ulpExponent x \<le> e" using e by (simp add: ulpExponent_def)
  moreover define u where "u = ulpExponent x"
  ultimately have u: "u \<le> e" by simp
  define d where "d = nat (e - u)"
  have ed: "e = u + int d" using u by (simp add: d_def)
  have "x / 2 powi u = of_int m * 2 ^ d"
    unfolding x ed p2_add by simp
  also have "\<dots> = of_int (m * 2 ^ d)" by simp
  finally have "roundEven (x / 2 powi u) = m * 2 ^ d"
    by (simp only: roundEven_of_int)
  then have "round64 x = of_int (m * 2 ^ d) * 2 powi u"
    by (simp add: round64_def u_def)
  also have "\<dots> = of_int m * 2 powi (u + int d)"
    unfolding p2_add by simp
  also have "\<dots> = x" unfolding x ed[symmetric] ..
  finally show ?thesis .
qed

lemma round64_mantissa:
  "\<bar>roundEven (x / 2 powi ulpExponent x)\<bar> \<le> 2 ^ 53"
proof (cases "x = 0")
  case True
  then show ?thesis by simp
next
  case False
  note b = exponentOf_bounds[OF False]
  define u where "u = ulpExponent x"
  have ku: "exponentOf x + 1 \<le> u + 53" by (simp add: u_def ulpExponent_def)
  have "\<bar>x\<bar> < 2 powi (u + 53)" using b(2) p2_mono[OF ku] by linarith
  then have "\<bar>x\<bar> / 2 powi u < 2 ^ 53"
    unfolding p2_add by (simp add: field_simps)
  then have "\<bar>x / 2 powi u\<bar> < 2 ^ 53" by (simp add: abs_divide)
  then have lo: "- (2 ^ 53) \<le> x / 2 powi u" and hi: "x / 2 powi u \<le> 2 ^ 53" by linarith+
  have "roundEven (x / 2 powi u) \<le> roundEven (of_int (2 ^ 53))"
    using hi by (intro roundEven_mono) simp
  moreover have "roundEven (of_int (- (2 ^ 53))) \<le> roundEven (x / 2 powi u)"
    using lo by (intro roundEven_mono) simp
  ultimately show ?thesis unfolding u_def[symmetric] by (simp only: roundEven_of_int)
qed

lemma round64_idem [simp]: "round64 (round64 x) = round64 x"
proof -
  define u where "u = ulpExponent x"
  define M where "M = roundEven (x / 2 powi u)"
  have r: "round64 x = of_int M * 2 powi u" by (simp add: round64_def M_def u_def)
  have M: "\<bar>M\<bar> \<le> 2 ^ 53" using round64_mantissa[of x] by (simp add: M_def u_def)
  have u: "- 1074 \<le> u" by (simp add: u_def ulpExponent_ge)
  show ?thesis
  proof (cases "\<bar>M\<bar> < 2 ^ 53")
    case True
    show ?thesis by (rule round64_exact[OF r True u])
  next
    case False
    then have "M = 2 ^ 53 \<or> M = - (2 ^ 53)" using M by linarith
    then have "round64 x = of_int (M div 2) * 2 powi (u + 1)"
      unfolding r p2_add by auto
    moreover have "\<bar>M div 2\<bar> < 2 ^ 53" using \<open>M = 2 ^ 53 \<or> M = - (2 ^ 53)\<close> by auto
    ultimately show ?thesis using u by (intro round64_exact[where m = "M div 2" and e = "u + 1"]) simp_all
  qed
qed


lemma exponentOf_mono:
  assumes "0 < x" and "x \<le> y"
  shows "exponentOf x \<le> exponentOf y"
proof -
  have x: "x \<noteq> 0" and y: "y \<noteq> 0" using assms by simp_all
  have "2 powi exponentOf x < (2::real) powi (exponentOf y + 1)"
    using exponentOf_bounds(1)[OF x] exponentOf_bounds(2)[OF y] assms by simp
  then show ?thesis
    using p2_mono[of "exponentOf y + 1" "exponentOf x"]
    by (cases "exponentOf x \<le> exponentOf y") auto
qed

lemma round64_mono:
  assumes "0 \<le> x" and "x \<le> y"
  shows "round64 x \<le> round64 y"
proof (cases "x = 0")
  case True
  then show ?thesis using round64_nonneg[of y] assms by simp
next
  case False
  then have x: "0 < x" and y: "0 < y" using assms by simp_all
  have x0: "x \<noteq> 0" and y0: "y \<noteq> 0" using x y by simp_all
  define ux where "ux = ulpExponent x"
  define uy where "uy = ulpExponent y"
  have k: "exponentOf x \<le> exponentOf y" by (rule exponentOf_mono[OF x assms(2)])
  then have u: "ux \<le> uy" by (simp add: ux_def uy_def ulpExponent_def)
  show ?thesis
  proof (cases "ux = uy")
    case True
    have "x / 2 powi uy \<le> y / 2 powi uy" using assms(2) by (simp add: divide_right_mono)
    then have "roundEven (x / 2 powi uy) \<le> roundEven (y / 2 powi uy)" by (rule roundEven_mono)
    then have "(of_int (roundEven (x / 2 powi uy)) :: real) \<le> of_int (roundEven (y / 2 powi uy))"
      by (simp only: of_int_le_iff)
    then have "of_int (roundEven (x / 2 powi uy)) * 2 powi uy
                 \<le> of_int (roundEven (y / 2 powi uy)) * (2::real) powi uy"
      by (intro mult_right_mono) simp_all
    then show ?thesis using True by (simp add: round64_def ux_def[symmetric] uy_def[symmetric])
  next
    case False
    then have lt: "ux + 1 \<le> uy" using u by simp
    have uyn: "uy = exponentOf y - 52"
      using lt ulpExponent_ge[of x] by (simp add: uy_def ux_def ulpExponent_def)
    have "roundEven (x / 2 powi ux) \<le> 2 ^ 53"
      using round64_mantissa[of x] by (simp add: ux_def)
    then have "(of_int (roundEven (x / 2 powi ux)) :: real) \<le> of_int (2 ^ 53)"
      by (simp only: of_int_le_iff)
    then have "of_int (roundEven (x / 2 powi ux)) * 2 powi ux \<le> of_int (2 ^ 53) * (2::real) powi ux"
      by (intro mult_right_mono) simp_all
    then have "round64 x \<le> 2 powi (ux + 53)"
      unfolding p2_add by (simp add: round64_def ux_def[symmetric])
    also have "\<dots> \<le> 2 powi (uy + 52)" using lt by (intro p2_mono) simp
    finally have A: "round64 x \<le> 2 powi (uy + 52)" .
    have "2 powi (uy + 52) \<le> y" using exponentOf_bounds(1)[OF y0] y by (simp add: uyn)
    then have "2 ^ 52 \<le> y / 2 powi uy" unfolding p2_add by (simp add: field_simps)
    then have "roundEven (of_int (2 ^ 52)) \<le> roundEven (y / 2 powi uy)"
      by (intro roundEven_mono) simp
    then have "2 ^ 52 \<le> roundEven (y / 2 powi uy)" by (simp only: roundEven_of_int)
    then have "(of_int (2 ^ 52) :: real) \<le> of_int (roundEven (y / 2 powi uy))"
      by (simp only: of_int_le_iff)
    then have "of_int (2 ^ 52) * (2::real) powi uy \<le> of_int (roundEven (y / 2 powi uy)) * 2 powi uy"
      by (intro mult_right_mono) simp_all
    then have "2 powi (uy + 52) \<le> round64 y"
      unfolding p2_add by (simp add: round64_def uy_def[symmetric] mult.commute)
    then show ?thesis using A by linarith
  qed
qed

lemma round64_ge:
  assumes "round64 c = c" and "0 \<le> c" and "c \<le> x"
  shows "c \<le> round64 x"
  using round64_mono[OF assms(2,3)] assms(1) by simp

lemma round64_le:
  assumes "round64 c = c" and "0 \<le> x" and "x \<le> c"
  shows "round64 x \<le> c"
  using round64_mono[OF assms(2,3)] assms(1) by simp

section \<open>Properties of the accumulator\<close>

lemma physicsLoop_run:
  "0 < ft \<Longrightarrow> 0 \<le> acc \<Longrightarrow> nat \<lfloor>acc / ft\<rfloor> = n \<Longrightarrow>
   physicsLoop upd ft acc w =
     Some (acc - real n * ft, ((map_option (upd (ft * 1000))) ^^ n) w)"
proof (induction n arbitrary: acc w)
  case 0
  then have "\<lfloor>acc / ft\<rfloor> \<le> 0" by simp
  then have "acc / ft < 1" by linarith
  with \<open>0 < ft\<close> have "acc < ft" by (simp add: field_simps)
  then show ?case by (subst physicsLoop.simps) simp
next
  case (Suc k)
  then have fl: "\<lfloor>acc / ft\<rfloor> = int k + 1" by linarith
  then have "1 \<le> acc / ft" by linarith
  with \<open>0 < ft\<close> have ge: "ft \<le> acc" by (simp add: field_simps)
  have "(acc - ft) / ft = acc / ft - 1" using \<open>0 < ft\<close> by (simp add: field_simps)
  then have "nat \<lfloor>(acc - ft) / ft\<rfloor> = k" using fl by simp
  from Suc.IH[OF \<open>0 < ft\<close> _ this, of "map_option (upd (ft * 1000)) w"] ge
  have "physicsLoop upd ft (acc - ft) (map_option (upd (ft * 1000)) w) =
    Some (acc - ft - real k * ft,
      (map_option (upd (ft * 1000)) ^^ k) (map_option (upd (ft * 1000)) w))"
    by simp
  then show ?case using ge
    by (subst physicsLoop.simps) (simp add: funpow_swap1 algebra_simps)
qed

lemma floor_remainder_bounds:
  fixes a ft :: real
  assumes "0 < ft" "0 \<le> a"
  shows "0 \<le> a - real (nat \<lfloor>a / ft\<rfloor>) * ft" and "a - real (nat \<lfloor>a / ft\<rfloor>) * ft < ft"
proof -
  have nn: "0 \<le> \<lfloor>a / ft\<rfloor>" using assms by simp
  have le: "of_int \<lfloor>a / ft\<rfloor> \<le> a / ft" and lt: "a / ft < of_int \<lfloor>a / ft\<rfloor> + 1"
    by linarith+
  have eq: "real (nat \<lfloor>a / ft\<rfloor>) = of_int \<lfloor>a / ft\<rfloor>" using nn by simp
  have "of_int \<lfloor>a / ft\<rfloor> * ft \<le> a"
    using le by (simp only: pos_le_divide_eq[OF assms(1), symmetric])
  then show "0 \<le> a - real (nat \<lfloor>a / ft\<rfloor>) * ft" using eq by simp
  have "a < (of_int \<lfloor>a / ft\<rfloor> + 1) * ft"
    using lt by (simp only: pos_divide_less_eq[OF assms(1), symmetric])
  then show "a - real (nat \<lfloor>a / ft\<rfloor>) * ft < ft" using eq by (simp add: algebra_simps)
qed

text \<open>A timestep that is not positive never lets the loop return.\<close>

lemma physicsLoop_positive:
  assumes "physicsLoop upd ft acc w = Some r"
  shows "ft \<le> acc \<longrightarrow> 0 < ft"
proof (rule physicsLoop.raw_induct[where P = "\<lambda>upd ft acc w r. ft \<le> acc \<longrightarrow> 0 < ft", OF _ assms])
  fix f and upd :: "real \<Rightarrow> 'a \<Rightarrow> 'a" and ft acc :: real and w r
  assume IH: "\<And>upd ft acc w r. f upd ft acc w = Some r \<Longrightarrow> ft \<le> acc \<longrightarrow> 0 < ft"
    and body: "(if ft \<le> acc then f upd ft (acc - ft) (map_option (upd (ft * 1000)) w)
                else Some (acc, w)) = Some r"
  show "ft \<le> acc \<longrightarrow> 0 < ft"
  proof
    assume le: "ft \<le> acc"
    with body have "f upd ft (acc - ft) (map_option (upd (ft * 1000)) w) = Some r" by simp
    from IH[OF this] have "ft \<le> acc - ft \<longrightarrow> 0 < ft" .
    with le show "0 < ft" by (cases "0 < ft") auto
  qed
qed

lemma physicsLoop_diverges:
  "ft \<le> 0 \<Longrightarrow> ft \<le> acc \<Longrightarrow> physicsLoop upd ft acc w = None"
  using physicsLoop_positive[of upd ft acc w] by (cases "physicsLoop upd ft acc w") auto

text \<open>
  In exact arithmetic the loop of a frame runs
  \<open>floor ((previous remainder + min dt 0.1) / fixedTimestep)\<close> times and leaves a
  remainder in \<open>[0, fixedTimestep)\<close>, for a positive timestep, a non-negative
  previous remainder and a non-negative frame time.
\<close>

lemma accumulate_exact:
  assumes "0 < fixedTimestepOf (scenePhysics sc)" and "0 \<le> accumulator fs" and "0 \<le> dt"
  shows "accumulate (engineUpdate ev) (fixedTimestepOf (scenePhysics sc)) (accumulator fs)
             (cappedDt dt) (engine fs) =
           Some (accumulator fs + min dt (1 / 10)
                   - real (advances (fixedTimestepOf (scenePhysics sc)) (accumulator fs) dt)
                     * fixedTimestepOf (scenePhysics sc),
                 (map_option (engineUpdate ev (fixedTimestepOf (scenePhysics sc) * 1000))
                    ^^ advances (fixedTimestepOf (scenePhysics sc)) (accumulator fs) dt)
                   (engine fs))
         \<and> map_option (\<lambda>r. (accumulator (snd r), engine (snd r)))
               (update ev True sc (cappedDt dt) fs) =
           Some (accumulator fs + min dt (1 / 10)
                   - real (advances (fixedTimestepOf (scenePhysics sc)) (accumulator fs) dt)
                     * fixedTimestepOf (scenePhysics sc),
                 (map_option (engineUpdate ev (fixedTimestepOf (scenePhysics sc) * 1000))
                    ^^ advances (fixedTimestepOf (scenePhysics sc)) (accumulator fs) dt)
                   (engine fs))
         \<and> 0 \<le> accumulator fs + min dt (1 / 10)
                   - real (advances (fixedTimestepOf (scenePhysics sc)) (accumulator fs) dt)
                     * fixedTimestepOf (scenePhysics sc)
         \<and> accumulator fs + min dt (1 / 10)
                   - real (advances (fixedTimestepOf (scenePhysics sc)) (accumulator fs) dt)
                     * fixedTimestepOf (scenePhysics sc)
             < fixedTimestepOf (scenePhysics sc)
         \<and> int (advances (fixedTimestepOf (scenePhysics sc)) (accumulator fs) dt)
             = \<lfloor>(accumulator fs + min dt (1 / 10)) / fixedTimestepOf (scenePhysics sc)\<rfloor>"
proof -
  let ?ft = "fixedTimestepOf (scenePhysics sc)"
  let ?a = "accumulator fs + min dt (1 / 10)"
  let ?n = "advances ?ft (accumulator fs) dt"
  have a0: "0 \<le> ?a" using assms by simp
  have n: "?n = nat \<lfloor>?a / ?ft\<rfloor>" by (simp add: advances_def)
  have run: "physicsLoop (engineUpdate ev) ?ft ?a (engine fs) =
      Some (?a - real ?n * ?ft, (map_option (engineUpdate ev (?ft * 1000)) ^^ ?n) (engine fs))"
    unfolding n by (rule physicsLoop_run[OF assms(1) a0 refl])
  have acc: "accumulate (engineUpdate ev) ?ft (accumulator fs) (cappedDt dt) (engine fs) =
      Some (?a - real ?n * ?ft, (map_option (engineUpdate ev (?ft * 1000)) ^^ ?n) (engine fs))"
    using run by (simp add: accumulate_def cappedDt_def)
  have upd: "map_option (\<lambda>r. (accumulator (snd r), engine (snd r)))
               (update ev True sc (cappedDt dt) fs) =
      Some (?a - real ?n * ?ft, (map_option (engineUpdate ev (?ft * 1000)) ^^ ?n) (engine fs))"
    unfolding update_def acc by (simp add: Let_def)
  have fl: "0 \<le> \<lfloor>?a / ?ft\<rfloor>" using a0 assms(1) by simp
  have bounds: "0 \<le> ?a - real ?n * ?ft" "?a - real ?n * ?ft < ?ft"
    unfolding n using floor_remainder_bounds[OF assms(1) a0] by simp_all
  have cnt: "int ?n = \<lfloor>?a / ?ft\<rfloor>" unfolding n using fl by simp
  show ?thesis using acc upd bounds cnt by simp
qed

text \<open>
  In binary64 the loop makes progress as long as the timestep is not lost in the
  rounding of \<open>acc - ft\<close>. With \<open>A\<close> a bound on the accumulator and \<open>eps\<close> the
  rounding error of one subtraction below \<open>A\<close>, every iteration lowers the
  accumulator by at least half a timestep; after \<open>n\<close> iterations the accumulator is
  within \<open>n * eps\<close> of \<open>a - n * ft\<close>.
\<close>

lemma physicsLoop64_run:
  fixes ft A :: real
  defines "eps \<equiv> A / 2 ^ 53 + 1 / 2 ^ 1075"
  assumes ft: "0 < ft" and eps: "eps \<le> ft / 2"
  shows "0 \<le> a \<Longrightarrow> a \<le> A \<Longrightarrow>
     \<exists>n r. physicsLoop64 upd ft a w = Some (r, map_option (upd (round64 (ft * 1000)) ^^ n) w)
        \<and> 0 \<le> r \<and> r < ft \<and> \<bar>r - (a - real n * ft)\<bar> \<le> real n * eps \<and> real n * ft / 2 \<le> a"
proof (induction "nat \<lfloor>2 * a / ft\<rfloor>" arbitrary: a w rule: less_induct)
  case less
  show ?case
  proof (cases "ft \<le> a")
    case False
    then have "physicsLoop64 upd ft a w = Some (a, map_option (upd (round64 (ft * 1000)) ^^ 0) w)"
      by (subst physicsLoop64.simps) (simp add: option.map_id)
    then show ?thesis using False less.prems by (intro exI[of _ 0] exI[of _ a]) simp
  next
    case True
    define x where "x = a - ft"
    define a' where "a' = round64 x"
    define w' where "w' = map_option (upd (round64 (ft * 1000))) w"
    have x: "0 \<le> x" "x \<le> A" using True less.prems ft by (simp_all add: x_def)
    have "\<bar>a' - x\<bar> \<le> max (\<bar>x\<bar> / 2 ^ 53) (1 / 2 ^ 1075)"
      unfolding a'_def by (rule round64_relative)
    moreover have "\<bar>x\<bar> / 2 ^ 53 \<le> A / 2 ^ 53" using x by (simp add: divide_right_mono)
    ultimately have err: "\<bar>a' - x\<bar> \<le> eps" unfolding eps_def by simp
    have a0: "0 \<le> a'" unfolding a'_def using x(1) by (rule round64_nonneg)
    have ale: "a' \<le> a - ft / 2" using err eps by (simp add: x_def)
    then have aA: "a' \<le> A" using less.prems ft by linarith
    have "2 * a' / ft \<le> 2 * a / ft - 1"
    proof -
      have "2 * a' / ft \<le> (2 * a - ft) / ft" using ale ft by (intro divide_right_mono) simp_all
      also have "\<dots> = 2 * a / ft - 1" using ft by (simp add: field_simps)
      finally show ?thesis .
    qed
    then have "\<lfloor>2 * a' / ft\<rfloor> \<le> \<lfloor>2 * a / ft - 1\<rfloor>" by (rule floor_mono)
    moreover have "1 \<le> 2 * a / ft" using True ft by (simp add: field_simps)
    then have "1 \<le> \<lfloor>2 * a / ft\<rfloor>" by simp
    ultimately have m: "nat \<lfloor>2 * a' / ft\<rfloor> < nat \<lfloor>2 * a / ft\<rfloor>" by simp
    from less.hyps[OF m a0 aA, of w'] obtain n r where
      run: "physicsLoop64 upd ft a' w' = Some (r, map_option (upd (round64 (ft * 1000)) ^^ n) w')"
      and r: "0 \<le> r" "r < ft"
      and d: "\<bar>r - (a' - real n * ft)\<bar> \<le> real n * eps"
      and h: "real n * ft / 2 \<le> a'"
      by blast
    have "physicsLoop64 upd ft a w = physicsLoop64 upd ft a' w'"
      using True by (subst physicsLoop64.simps) (simp add: a'_def x_def w'_def)
    moreover have "map_option (upd (round64 (ft * 1000)) ^^ n) w'
                     = map_option (upd (round64 (ft * 1000)) ^^ Suc n) w"
      unfolding w'_def by (simp add: option.map_comp funpow_swap1 comp_def)
    ultimately have run': "physicsLoop64 upd ft a w
                     = Some (r, map_option (upd (round64 (ft * 1000)) ^^ Suc n) w)"
      using run by simp
    have "\<bar>r - (a - real (Suc n) * ft)\<bar> \<le> \<bar>r - (a' - real n * ft)\<bar> + \<bar>a' - x\<bar>"
      by (simp add: x_def algebra_simps)
    then have d': "\<bar>r - (a - real (Suc n) * ft)\<bar> \<le> real (Suc n) * eps"
      using d err by (simp add: algebra_simps)
    have h': "real (Suc n) * ft / 2 \<le> a" using h ale by (simp add: algebra_simps)
    show ?thesis using run' r d' h' by blast
  qed
qed


lemma tenth64: "round64 (1 / 10) = 3602879701896397 / 2 ^ 55"
  by code_simp

lemma cappedDt64_bounds:
  assumes "0 \<le> dt"
  shows "0 \<le> cappedDt64 dt" and "cappedDt64 dt \<le> 1 / 8"
  using assms unfolding cappedDt64_def tenth64 by simp_all

lemma tiny: "(1::real) / 2 ^ 1075 \<le> 1 / 2 ^ 60"
  by (intro divide_left_mono power_increasing) simp_all


text \<open>
  Claim C3 as stated fails on the number of advances and on the lower bound of the
  remainder. At 50 Hz (\<open>fixedTimestep = 0.02\<close>) a frame of 100 ms adds \<open>0.1\<close> to an
  empty accumulator; the four subtractions leave \<open>0.019999999999999993\<close>, which is
  below the timestep, so physics advances 4 times, while
  \<open>floor ((0 + min dt 0.1) / fixedTimestep)\<close> is 5. And \<open>loop\<close> caps the frame time
  from above only: a negative frame time (a frame timestamp earlier than the
  \<open>performance.now()\<close> stored at play start) leaves a negative remainder.
\<close>

theorem accumulate_floor_counterexample:
  "accumulate64 (\<lambda>ms n. Suc n) (round64 (1 / 50)) 0 (cappedDt64 (round64 (1 / 10))) (Some (0::nat))
     = Some (5764607523034233 / 2 ^ 58, Some 4)
   \<and> \<lfloor>(0 + cappedDt64 (round64 (1 / 10))) / round64 (1 / 50)\<rfloor> = 5
   \<and> accumulate64 (\<lambda>ms n. Suc n) (round64 (1 / 50)) 0 (cappedDt64 (- (1 / 128))) (Some (0::nat))
     = Some (- (1 / 128), Some 0)"
  by code_simp

text \<open>
  Claim C3, amended. For a frame time that is not negative, a previous remainder in
  \<open>[0, fixedTimestep)\<close> and a timestep of at least \<open>2^-20\<close> seconds (the inspector
  stores at least \<open>1/240\<close>), the frame adds \<open>min dt 0.1\<close> to the accumulator, then
  advances physics once and subtracts the timestep while the accumulator is at least
  the timestep, all in binary64. The loop ends; the remainder it leaves is in
  \<open>[0, fixedTimestep)\<close> and within \<open>fixedTimestep / 2^14\<close> of
  \<open>previous remainder + min dt 0.1 - n * fixedTimestep\<close> for the number \<open>n\<close> of
  advances; and \<open>n\<close> differs from
  \<open>floor ((previous remainder + min dt 0.1) / fixedTimestep)\<close> by at most one.
\<close>

theorem accumulate64_steps:
  assumes ft: "1 / 2 ^ 20 \<le> ft" and acc: "0 \<le> acc" "acc < ft" and dt: "0 \<le> dt"
  shows "\<exists>n r. accumulate64 upd ft acc (cappedDt64 dt) w
                  = Some (r, map_option (upd (round64 (ft * 1000)) ^^ n) w)
           \<and> 0 \<le> r \<and> r < ft
           \<and> \<bar>r - (acc + cappedDt64 dt - real n * ft)\<bar> \<le> ft / 2 ^ 14
           \<and> \<bar>int n - \<lfloor>(acc + cappedDt64 dt) / ft\<rfloor>\<bar> \<le> 1"
proof -
  define t where "t = (1::real) / 2 ^ 1075"
  define s where "s = acc + cappedDt64 dt"
  define A where "A = round64 s"
  define A0 where "A0 = 2 ^ 18 * ft"
  define eps where "eps = A0 / 2 ^ 53 + t"
  have ft0: "0 < ft" using ft by (simp add: less_le_trans[of 0 "1 / 2 ^ 20"])
  have t: "0 \<le> t" "t \<le> ft / 2 ^ 40"
  proof -
    show "0 \<le> t" by (simp add: t_def)
    have "t \<le> 1 / 2 ^ 60" unfolding t_def by (rule tiny)
    also have "\<dots> = (1 / 2 ^ 20) / 2 ^ 40" by simp
    also have "\<dots> \<le> ft / 2 ^ 40" using ft by (intro divide_right_mono) simp_all
    finally show "t \<le> ft / 2 ^ 40" .
  qed
  have s: "0 \<le> s" "s \<le> (2 ^ 17 + 1) * ft"
  proof -
    show "0 \<le> s" using acc cappedDt64_bounds[OF dt] by (simp add: s_def)
    have "1 / 8 \<le> 2 ^ 17 * ft" using ft by simp
    then show "s \<le> (2 ^ 17 + 1) * ft"
      using acc cappedDt64_bounds(2)[OF dt] by (simp add: s_def algebra_simps)
  qed
  have s53: "\<bar>s\<bar> / 2 ^ 53 \<le> ft / 2 ^ 35"
  proof -
    have "\<bar>s\<bar> / 2 ^ 53 \<le> ((2 ^ 17 + 1) * ft) / 2 ^ 53"
      using s by (intro divide_right_mono) simp_all
    also have "\<dots> \<le> ft / 2 ^ 35" using ft0 by (simp add: field_simps)
    finally show ?thesis .
  qed
  have As: "\<bar>A - s\<bar> \<le> ft / 2 ^ 35"
  proof -
    have e: "\<bar>A - s\<bar> \<le> max (\<bar>s\<bar> / 2 ^ 53) t" unfolding A_def t_def by (rule round64_relative)
    have "t \<le> ft / 2 ^ 35" using t(2) ft0 by (simp add: field_simps)
    with s53 have "max (\<bar>s\<bar> / 2 ^ 53) t \<le> ft / 2 ^ 35" by (rule max.boundedI)
    with e show ?thesis by (rule order_trans)
  qed
  have A: "0 \<le> A" "A \<le> A0"
  proof -
    show "0 \<le> A" unfolding A_def using s(1) by (rule round64_nonneg)
    have "A \<le> s + ft / 2 ^ 35" using As by linarith
    also have "\<dots> \<le> (2 ^ 17 + 1) * ft + ft" using s(2) ft0 by (simp add: field_simps)
    also have "\<dots> \<le> A0" using ft0 by (simp add: A0_def algebra_simps)
    finally show "A \<le> A0" .
  qed
  have eps: "0 \<le> eps" "eps \<le> ft / 2 ^ 34"
  proof -
    show "0 \<le> eps" using t(1) ft0 by (simp add: eps_def A0_def)
    have "A0 / 2 ^ 53 = ft / 2 ^ 35" by (simp add: A0_def)
    moreover have "t \<le> ft / 2 ^ 35" using t(2) ft0 by (simp add: field_simps)
    ultimately show "eps \<le> ft / 2 ^ 34" by (simp add: eps_def)
  qed
  have eps2: "A0 / 2 ^ 53 + 1 / 2 ^ 1075 \<le> ft / 2"
    using eps(2) ft0 by (simp add: eps_def t_def field_simps)
  from physicsLoop64_run[OF ft0 eps2 A, of upd w] obtain n r where
    run: "physicsLoop64 upd ft A w = Some (r, map_option (upd (round64 (ft * 1000)) ^^ n) w)"
    and r: "0 \<le> r" "r < ft"
    and d: "\<bar>r - (A - real n * ft)\<bar> \<le> real n * eps"
    and h: "real n * ft / 2 \<le> A"
    unfolding eps_def t_def by blast
  have n: "real n \<le> 2 ^ 19"
  proof -
    have "real n * ft \<le> 2 ^ 19 * ft" using h A(2) by (simp add: A0_def)
    then show ?thesis using ft0 by simp
  qed
  have ne: "real n * eps \<le> ft / 2 ^ 15"
  proof -
    have "real n * eps \<le> 2 ^ 19 * (ft / 2 ^ 34)"
      using n eps by (intro mult_mono) simp_all
    then show ?thesis by simp
  qed
  have near: "\<bar>r - (s - real n * ft)\<bar> \<le> ft / 2 ^ 14"
  proof -
    have "\<bar>r - (s - real n * ft)\<bar> \<le> \<bar>r - (A - real n * ft)\<bar> + \<bar>A - s\<bar>" by simp
    also have "\<dots> \<le> ft / 2 ^ 15 + ft / 2 ^ 35" using d ne As by linarith
    also have "\<dots> \<le> ft / 2 ^ 14" using ft0 by (simp add: field_simps)
    finally show ?thesis .
  qed
  have "ft / 2 ^ 14 < ft / 2" using ft0 by (simp add: field_simps)
  with near have close: "\<bar>r - (s - real n * ft)\<bar> < ft / 2" by linarith
  define q where "q = s / ft"
  have c1: "r - (s - real n * ft) < ft / 2" and c2: "- (ft / 2) < r - (s - real n * ft)"
    using close unfolding abs_less_iff by simp_all
  have "s < (real n + 2) * ft" using c2 r by (simp add: algebra_simps)
  then have lo: "q - 2 < real n" using ft0 by (simp add: q_def field_simps)
  have "(real n - 1) * ft < s" using c1 r by (simp add: algebra_simps)
  then have hi: "real n < q + 1" using ft0 by (simp add: q_def field_simps)
  have "\<bar>int n - \<lfloor>q\<rfloor>\<bar> \<le> 1" using lo hi by linarith
  then show ?thesis
    using run r near
    unfolding accumulate64_def A_def[symmetric] s_def[symmetric] q_def[symmetric]
    by (simp add: A_def) blast
qed

theorem accumulate64_steps_witness:
  "1 / 2 ^ 20 \<le> round64 (1 / 60) \<and>
   (\<exists>n r. accumulate64 (\<lambda>ms n. Suc n) (round64 (1 / 60)) 0 (cappedDt64 1) (Some (0::nat))
             = Some (r, map_option ((\<lambda>n. Suc n) ^^ n) (Some 0))
          \<and> 0 \<le> r \<and> r < round64 (1 / 60)
          \<and> \<bar>r - (0 + cappedDt64 1 - real n * round64 (1 / 60))\<bar> \<le> round64 (1 / 60) / 2 ^ 14
          \<and> \<bar>int n - \<lfloor>(0 + cappedDt64 1) / round64 (1 / 60)\<rfloor>\<bar> \<le> 1)"
proof -
  have s: "round64 (1 / 60) = 4803839602528529 / 2 ^ 58" by code_simp
  have h: "1 / 2 ^ 20 \<le> round64 (1 / 60)" "(0::real) \<le> 0" "0 < round64 (1 / 60)" "(0::real) \<le> 1"
    unfolding s by simp_all
  from accumulate64_steps[OF h, of "\<lambda>ms n. Suc n" "Some (0::nat)"] h(1)
  show ?thesis by simp
qed

section \<open>Properties of the tilemap renderer\<close>

lemma jsRem_nat: "0 < b \<Longrightarrow> jsRem (real a) (real b) = real (a mod b)"
proof -
  assume b: "0 < b"
  have "jsTrunc (real a / real b) = int (a div b)"
    by (simp add: jsTrunc_def floor_divide_of_nat_eq)
  then have "jsRem (real a) (real b) = real a - real b * real (a div b)"
    by (simp add: jsRem_def)
  also have "\<dots> = real (a mod b)"
  proof -
    have "a = b * (a div b) + a mod b" by simp
    then have "real a = real b * real (a div b) + real (a mod b)"
      by (metis of_nat_add of_nat_mult)
    then show ?thesis by simp
  qed
  finally show ?thesis .
qed

lemma emit_cur [simp]: "cur (emit pr c) = cur c"
  by (simp add: emit_def)

lemma emit_many:
  "fold emit ps c = c\<lparr>drawn := drawn c @ map (Pair (cur c)) ps\<rparr>"
  by (induction ps arbitrary: c) (simp_all add: emit_def)

lemma layerCalls_Nil: "layerCalls url ts c r tpr i [] = []"
  by (simp add: layerCalls_def)

lemma layerCalls_Cons:
  "layerCalls url ts c r tpr i (n # ns) =
     (if 0 < n then [tileCall url ts c r tpr i n] else []) @ layerCalls url ts c r tpr (Suc i) ns"
proof -
  have up: "[i ..< i + length (n # ns)] = i # [Suc i ..< Suc i + length ns]"
    by (simp add: upt_rec)
  show ?thesis unfolding layerCalls_def up by simp
qed

lemma tile_step:
  assumes "0 < c" "0 < tpr" "0 < n"
  shows "DrawImage url (jsRem (real n - 1) (of_int (int tpr)) * ts)
           (of_int \<lfloor>(real n - 1) / of_int (int tpr)\<rfloor> * ts) ts ts
           (- ((real c * ts) / 2) + jsRem (real i) (real c) * ts)
           (- ((r * ts) / 2) + of_int \<lfloor>real i / real c\<rfloor> * ts) ts ts
         = tileCall url ts c r tpr i n"
proof -
  have n1: "real n - 1 = real (n - 1)" using assms(3) by (simp add: of_nat_diff)
  have a: "jsRem (real n - 1) (of_int (int tpr)) = real ((n - 1) mod tpr)"
    unfolding n1 of_int_of_nat_eq by (rule jsRem_nat[OF assms(2)])
  have b: "real_of_int \<lfloor>(real n - 1) / of_int (int tpr)\<rfloor> = real ((n - 1) div tpr)"
    unfolding n1 of_int_of_nat_eq floor_divide_of_nat_eq by simp
  have c: "jsRem (real i) (real c) = real (i mod c)" by (rule jsRem_nat[OF assms(1)])
  have d: "real_of_int \<lfloor>real i / real c\<rfloor> = real (i div c)"
    unfolding floor_divide_of_nat_eq by simp
  show ?thesis unfolding a b c d tileCall_def ..
qed

lemma tileLoop_calls:
  assumes "0 < c" "0 < tpr"
  shows "tileLoop url ts (real c) (int tpr) ((real c * ts) / 2) ((r * ts) / 2) i (map real ns) cv
         = fold emit (layerCalls url ts c r tpr i ns) cv"
proof (induction ns arbitrary: i cv)
  case Nil
  then show ?case by (simp add: layerCalls_Nil)
next
  case (Cons n ns)
  show ?case
  proof (cases "0 < n")
    case True
    then show ?thesis
      unfolding list.map tileLoop.simps Let_def layerCalls_Cons Cons.IH
      using tile_step[OF assms True, of url ts i r] by simp
  next
    case False
    then show ?thesis
      unfolding list.map tileLoop.simps Let_def layerCalls_Cons Cons.IH by simp
  qed
qed

lemma tile_layers:
  assumes "0 < c" "0 < tpr"
  shows "fold (\<lambda>layer. tileLoop url ts (real c) (int tpr) ((real c * ts) / 2) ((r * ts) / 2) 0
                          (layerData layer)) (map natLayer ls) cv
         = fold emit (concat (map (\<lambda>l. layerCalls url ts c r tpr 0 (snd l)) ls)) cv"
proof (induction ls arbitrary: cv)
  case Nil
  then show ?case by simp
next
  case (Cons l ls)
  have "layerData (natLayer l) = map real (snd l)" by (simp add: natLayer_def)
  then show ?case using Cons.IH by (simp add: tileLoop_calls[OF assms])
qed

text \<open>
  Claim C10. With a complete tileset image holding \<open>tpr = floor (imageWidth / tileSize) > 0\<close>
  tiles per row and a grid of \<open>c > 0\<close> columns, the tilemap block draws, layer after
  layer and cell after cell, nothing for the index \<open>0\<close> and for an index \<open>n > 0\<close> the
  source tile \<open>n - 1\<close> (column \<open>(n - 1) mod tpr\<close>, row \<open>(n - 1) div tpr\<close>) at grid column
  \<open>i mod c\<close> and grid row \<open>i div c\<close>, offset by minus half the grid's width and height.
\<close>

theorem drawTilemap_layout:
  assumes "0 < c" and "0 < tpr" and "url \<noteq> []" and "cache url = Some img"
    and "complete img" and "\<lfloor>imageWidth img / ts\<rfloor> = int tpr"
  shows "drawTilemap \<lparr>tileSize = ts, columns = real c, tilemapRows = r,
                       layers = map natLayer ls, tilesetUrl = Some url\<rparr> (cache, cv)
         = (cache, cv\<lparr>drawn := drawn cv
              @ map (Pair (cur cv))
                  (concat (map (\<lambda>l. layerCalls url ts c r tpr 0 (snd l)) ls))\<rparr>)
         \<and> layerCalls url ts c r tpr i [] = []
         \<and> layerCalls url ts c r tpr i (0 # ns) = layerCalls url ts c r tpr (Suc i) ns
         \<and> layerCalls url ts c r tpr i (Suc n # ns)
             = DrawImage url (real (n mod tpr) * ts) (real (n div tpr) * ts) ts ts
                 (- ((real c * ts) / 2) + real (i mod c) * ts)
                 (- ((r * ts) / 2) + real (i div c) * ts) ts ts
               # layerCalls url ts c r tpr (Suc i) ns"
proof -
  have "drawTilemap \<lparr>tileSize = ts, columns = real c, tilemapRows = r,
                       layers = map natLayer ls, tilesetUrl = Some url\<rparr> (cache, cv)
        = (cache, fold emit (concat (map (\<lambda>l. layerCalls url ts c r tpr 0 (snd l)) ls)) cv)"
    using assms(3-6) by (simp add: drawTilemap_def tile_layers[OF assms(1,2)])
  then show ?thesis
    by (simp add: emit_many layerCalls_Nil layerCalls_Cons tileCall_def)
qed

theorem drawTilemap_layout_witness:
  "drawTilemap \<lparr>tileSize = 32, columns = 2, tilemapRows = 2,
                 layers = [\<lparr>layerName = ''ground'', layerData = [0, 3, 1, 0]\<rparr>],
                 tilesetUrl = Some ''tiles.png''\<rparr>
     ([''tiles.png'' \<mapsto> \<lparr>complete = True, imageWidth = 64, imageHeight = 64\<rparr>],
      \<lparr>canvasWidth = 800, canvasHeight = 600,
       cur = \<lparr>ctm = identityMatrix, fillStyle = ''#000000'', globalAlpha = 1, fontPx = 10\<rparr>,
       saved = [], drawn = []\<rparr>)
   = ([''tiles.png'' \<mapsto> \<lparr>complete = True, imageWidth = 64, imageHeight = 64\<rparr>],
      \<lparr>canvasWidth = 800, canvasHeight = 600,
       cur = \<lparr>ctm = identityMatrix, fillStyle = ''#000000'', globalAlpha = 1, fontPx = 10\<rparr>,
       saved = [],
       drawn =
         [(\<lparr>ctm = identityMatrix, fillStyle = ''#000000'', globalAlpha = 1, fontPx = 10\<rparr>,
           DrawImage ''tiles.png'' 0 32 32 32 0 (- 32) 32 32),
          (\<lparr>ctm = identityMatrix, fillStyle = ''#000000'', globalAlpha = 1, fontPx = 10\<rparr>,
           DrawImage ''tiles.png'' 0 0 32 32 (- 32) 0 32 32)]\<rparr>)"
proof -
  let ?img = "\<lparr>complete = True, imageWidth = 64, imageHeight = 64\<rparr>"
  let ?cache = "[''tiles.png'' \<mapsto> ?img]"
  have h: "(0::nat) < 2" "''tiles.png'' \<noteq> []" "?cache ''tiles.png'' = Some ?img"
    "complete ?img" "\<lfloor>imageWidth ?img / 32\<rfloor> = int 2"
    by simp_all
  have l: "map natLayer [(''ground'', [0, 3, 1, 0])]
           = [\<lparr>layerName = ''ground'', layerData = [0, 3, 1, 0]\<rparr>]"
    by (simp add: natLayer_def)
  have calls: "layerCalls ''tiles.png'' 32 2 2 2 0 [0, 3, Suc 0, 0]
        = [DrawImage ''tiles.png'' 0 32 32 32 0 (- 32) 32 32,
           DrawImage ''tiles.png'' 0 0 32 32 (- 32) 0 32 32]"
    by (simp add: layerCalls_def tileCall_def upt_rec)
  have "drawTilemap \<lparr>tileSize = 32, columns = real 2, tilemapRows = 2,
            layers = map natLayer [(''ground'', [0, 3, 1, 0])], tilesetUrl = Some ''tiles.png''\<rparr>
          (?cache, cv)
        = (?cache, cv\<lparr>drawn := drawn cv
              @ map (Pair (cur cv))
                  (concat (map (\<lambda>l. layerCalls ''tiles.png'' 32 2 2 2 0 (snd l))
                     [(''ground'', [0, 3, 1, 0])]))\<rparr>)" for cv
    using drawTilemap_layout[where c = 2 and tpr = 2 and url = "''tiles.png''"
        and cache = "?cache" and img = "?img" and ts = 32 and r = 2
        and ls = "[(''ground'', [0, 3, 1, 0])]" and cv = cv, OF h(1) h(1) h(2-5)]
    by (rule conjunct1)
  then show ?thesis unfolding l by (simp add: calls)
qed

section \<open>Properties of pointer hit-testing\<close>

lemma find_append_case:
  "List.find P (xs @ ys) = (case List.find P xs of None \<Rightarrow> List.find P ys | Some x \<Rightarrow> Some x)"
  by (induction xs) simp_all

lemma find_rev_last:
  "List.find P (rev es) = Some e \<longleftrightarrow>
     (\<exists>pre post. es = pre @ e # post \<and> P e \<and> (\<forall>x\<in>set post. \<not> P x))"
proof
  assume "List.find P (rev es) = Some e"
  then show "\<exists>pre post. es = pre @ e # post \<and> P e \<and> (\<forall>x\<in>set post. \<not> P x)"
  proof (induction es rule: rev_induct)
    case Nil
    then show ?case by simp
  next
    case (snoc x xs)
    show ?case
    proof (cases "P x")
      case True
      with snoc.prems have "e = x" by simp
      with True have "xs @ [x] = xs @ e # [] \<and> P e \<and> (\<forall>y\<in>set []. \<not> P y)" by simp
      then show ?thesis by blast
    next
      case False
      with snoc.prems have "List.find P (rev xs) = Some e" by simp
      from snoc.IH[OF this] obtain pre post
        where "xs = pre @ e # post" "P e" "\<forall>y\<in>set post. \<not> P y" by blast
      with False have "xs @ [x] = pre @ e # (post @ [x]) \<and> P e \<and> (\<forall>y\<in>set (post @ [x]). \<not> P y)"
        by simp
      then show ?thesis by blast
    qed
  qed
next
  assume "\<exists>pre post. es = pre @ e # post \<and> P e \<and> (\<forall>x\<in>set post. \<not> P x)"
  then obtain pre post where es: "es = pre @ e # post" and pe: "P e"
    and np: "\<forall>x\<in>set post. \<not> P x" by blast
  from np have "List.find P (rev post) = None" by (simp add: find_None_iff)
  then show "List.find P (rev es) = Some e"
    using pe by (simp add: es find_append_case)
qed

lemma localPointer_eq:
  "localPointer cam sx sy e =
     (let th = rotation (transform e) * pi / 180;
          dx = sx - (vecX (position (transform e)) - vecX cam * nullish (parallaxFactor (renderer e)) 1);
          dy = sy - (vecY (position (transform e)) - vecY cam * nullish (parallaxFactor (renderer e)) 1)
      in (dx * cos th + dy * sin th, dy * cos th - dx * sin th))"
proof -
  have "- rotation (transform e) * pi / 180 = - (rotation (transform e) * pi / 180)" by simp
  then show ?thesis
    unfolding localPointer_def Let_def by (simp only: cos_minus sin_minus) simp
qed

lemma entityMatrix_apply:
  "applyMatrix (entityMatrix cam e) (u, v) =
     (let th = rotation (transform e) * pi / 180;
          kx = vecX (scale (transform e)); ky = vecY (scale (transform e));
          ex = vecX (position (transform e)) - vecX cam * nullish (parallaxFactor (renderer e)) 1;
          ey = vecY (position (transform e)) - vecY cam * nullish (parallaxFactor (renderer e)) 1
      in (cos th * kx * u - sin th * ky * v + ex, sin th * kx * u + cos th * ky * v + ey))"
  by (simp add: applyMatrix_def entityMatrix_def Let_def scaleM_def rotateM_def translateM_def
      identityMatrix_def algebra_simps)


lemma rot_inverse:
  fixes c s :: real
  assumes cs: "c * c + s * s = 1"
  shows "(dx * c + dy * s = U \<and> dy * c - dx * s = V) \<longleftrightarrow> (dx = c * U - s * V \<and> dy = s * U + c * V)"
proof
  assume h: "dx * c + dy * s = U \<and> dy * c - dx * s = V"
  have "c * (dx * c + dy * s) - s * (dy * c - dx * s) = dx * (c * c + s * s)"
    by (simp add: algebra_simps)
  moreover have "s * (dx * c + dy * s) + c * (dy * c - dx * s) = dy * (c * c + s * s)"
    by (simp add: algebra_simps)
  ultimately show "dx = c * U - s * V \<and> dy = s * U + c * V" using h cs by simp
next
  assume h: "dx = c * U - s * V \<and> dy = s * U + c * V"
  have "(c * U - s * V) * c + (s * U + c * V) * s = U * (c * c + s * s)"
    by (simp add: algebra_simps)
  moreover have "(s * U + c * V) * c - (c * U - s * V) * s = V * (c * c + s * s)"
    by (simp add: algebra_simps)
  ultimately show "dx * c + dy * s = U \<and> dy * c - dx * s = V" using h cs by simp
qed

lemma cos_sin_one: "cos (t::real) * cos t + sin t * sin t = 1"
  using sin_cos_squared_add2[of t] by (simp add: power2_eq_square)

lemma entityHit_box:
  assumes nc: "rendererType (renderer e) \<noteq> Circle"
    and kx: "0 < vecX (scale (transform e))" and ky: "0 < vecY (scale (transform e))"
  shows "entityHit cam sx sy e \<longleftrightarrow>
     (\<exists>u v. \<bar>u\<bar> \<le> width (renderer e) / 2 \<and> \<bar>v\<bar> \<le> height (renderer e) / 2
        \<and> applyMatrix (entityMatrix cam e) (u, v) = (sx, sy))"
proof -
  define th where "th = rotation (transform e) * pi / 180"
  define KX where "KX = vecX (scale (transform e))"
  define KY where "KY = vecY (scale (transform e))"
  define dx where "dx = sx - (vecX (position (transform e)) - vecX cam * nullish (parallaxFactor (renderer e)) 1)"
  define dy where "dy = sy - (vecY (position (transform e)) - vecY cam * nullish (parallaxFactor (renderer e)) 1)"
  define W where "W = width (renderer e)"
  define H where "H = height (renderer e)"
  define lX where "lX = dx * cos th + dy * sin th"
  define lY where "lY = dy * cos th - dx * sin th"
  have K: "0 < KX" "0 < KY" using kx ky by (simp_all add: KX_def KY_def)
  have lp: "localPointer cam sx sy e = (lX, lY)"
    unfolding localPointer_eq Let_def lX_def lY_def dx_def dy_def th_def ..
  have box: "(a \<ge> - w / 2 \<and> a \<le> w / 2 \<and> b \<ge> - h / 2 \<and> b \<le> h / 2)
      \<longleftrightarrow> (\<bar>a\<bar> \<le> w / 2 \<and> \<bar>b\<bar> \<le> h / 2)" for a b w h :: real
    unfolding abs_le_iff by auto
  have hit: "entityHit cam sx sy e \<longleftrightarrow> \<bar>lX\<bar> \<le> W * KX / 2 \<and> \<bar>lY\<bar> \<le> H * KY / 2"
    unfolding entityHit_def lp Let_def fst_conv snd_conv W_def H_def KX_def KY_def
    using nc box by simp
  have app: "applyMatrix (entityMatrix cam e) (u, v) = (sx, sy) \<longleftrightarrow>
       (dx = cos th * (KX * u) - sin th * (KY * v) \<and> dy = sin th * (KX * u) + cos th * (KY * v))" for u v
    unfolding entityMatrix_apply Let_def
    by (auto simp: dx_def dy_def th_def KX_def KY_def algebra_simps)
  have inv: "applyMatrix (entityMatrix cam e) (u, v) = (sx, sy) \<longleftrightarrow> (lX = KX * u \<and> lY = KY * v)" for u v
    unfolding app lX_def lY_def using rot_inverse[OF cos_sin_one, of dx th dy "KX * u" "KY * v"] by simp
  show ?thesis
  proof
    assume "entityHit cam sx sy e"
    then have b: "\<bar>lX\<bar> \<le> W * KX / 2" "\<bar>lY\<bar> \<le> H * KY / 2" using hit by simp_all
    have "\<bar>lX / KX\<bar> \<le> W / 2" using b(1) K(1) by (simp add: field_simps abs_if split: if_splits)
    moreover have "\<bar>lY / KY\<bar> \<le> H / 2" using b(2) K(2) by (simp add: field_simps abs_if split: if_splits)
    moreover have "applyMatrix (entityMatrix cam e) (lX / KX, lY / KY) = (sx, sy)"
      unfolding inv using K by simp
    ultimately show "\<exists>u v. \<bar>u\<bar> \<le> width (renderer e) / 2 \<and> \<bar>v\<bar> \<le> height (renderer e) / 2
        \<and> applyMatrix (entityMatrix cam e) (u, v) = (sx, sy)"
      unfolding W_def H_def by blast
  next
    assume "\<exists>u v. \<bar>u\<bar> \<le> width (renderer e) / 2 \<and> \<bar>v\<bar> \<le> height (renderer e) / 2
        \<and> applyMatrix (entityMatrix cam e) (u, v) = (sx, sy)"
    then obtain u v where u: "\<bar>u\<bar> \<le> W / 2" and v: "\<bar>v\<bar> \<le> H / 2"
      and a: "applyMatrix (entityMatrix cam e) (u, v) = (sx, sy)"
      unfolding W_def H_def by blast
    from a have l: "lX = KX * u" "lY = KY * v" unfolding inv by simp_all
    have "\<bar>KX * u\<bar> \<le> W * KX / 2"
      using mult_left_mono[OF u, of KX] K(1) by (simp add: abs_mult algebra_simps)
    moreover have "\<bar>KY * v\<bar> \<le> H * KY / 2"
      using mult_left_mono[OF v, of KY] K(2) by (simp add: abs_mult algebra_simps)
    ultimately show "entityHit cam sx sy e" unfolding hit l by simp
  qed
qed

lemma rot_norm:
  fixes c s :: real
  assumes cs: "c * c + s * s = 1"
  shows "(dx * c + dy * s) * (dx * c + dy * s) + (dy * c - dx * s) * (dy * c - dx * s)
         = dx\<^sup>2 + dy\<^sup>2"
proof -
  have "(dx * c + dy * s) * (dx * c + dy * s) + (dy * c - dx * s) * (dy * c - dx * s)
        = (dx * dx + dy * dy) * (c * c + s * s)"
    by (simp add: algebra_simps)
  then show ?thesis unfolding cs by (simp add: power2_eq_square)
qed

lemma entityHit_circle:
  assumes "rendererType (renderer e) = Circle"
  shows "entityHit cam sx sy e \<longleftrightarrow>
     sqrt ((sx - (vecX (position (transform e)) - vecX cam * nullish (parallaxFactor (renderer e)) 1))\<^sup>2
         + (sy - (vecY (position (transform e)) - vecY cam * nullish (parallaxFactor (renderer e)) 1))\<^sup>2)
       \<le> width (renderer e) * vecX (scale (transform e)) / 2"
  using assms unfolding entityHit_def localPointer_eq Let_def fst_conv snd_conv
  by (simp only: rot_norm[OF cos_sin_one]) simp

text \<open>
  Claim C9. The clicked entity is the last entity of the scene order that the hit
  predicate accepts (none if no entity is accepted), and pointer-down selects exactly
  that entity unless it grabs a resize handle of the selected entity, which it cannot
  when nothing is selected. The hit predicate is containment in the
  shape as drawn: for a circle, distance to the parallax-adjusted position at most
  \<open>width * scale.x / 2\<close>; for any other shape with positive scale, the pointer is the
  image, under the transform the renderer draws the entity with, of a point of the
  unscaled box \<open>width\<close> by \<open>height\<close>. For the 100 by 20 rectangle rotated by 90
  degrees the point \<open>(0, 40)\<close>, outside the unrotated box, is a hit and \<open>(40, 0)\<close>,
  inside the unrotated box, is not.
\<close>

theorem pointer_hit_test:
  "(clickedEntity cam sx sy es = Some e \<longleftrightarrow>
      (\<exists>pre post. es = pre @ e # post \<and> entityHit cam sx sy e
         \<and> (\<forall>x\<in>set post. \<not> entityHit cam sx sy x)))
   \<and> (clickedEntity cam sx sy es = None \<longleftrightarrow> (\<forall>x\<in>set es. \<not> entityHit cam sx sy x))
   \<and> (rendererType (renderer e) = Circle \<longrightarrow>
        (entityHit cam sx sy e \<longleftrightarrow>
           sqrt ((sx - (vecX (position (transform e))
                          - vecX cam * nullish (parallaxFactor (renderer e)) 1))\<^sup>2
               + (sy - (vecY (position (transform e))
                          - vecY cam * nullish (parallaxFactor (renderer e)) 1))\<^sup>2)
             \<le> width (renderer e) * vecX (scale (transform e)) / 2))
   \<and> (rendererType (renderer e) \<noteq> Circle \<longrightarrow> 0 < vecX (scale (transform e)) \<longrightarrow>
        0 < vecY (scale (transform e)) \<longrightarrow>
        (entityHit cam sx sy e \<longleftrightarrow>
           (\<exists>u v. \<bar>u\<bar> \<le> width (renderer e) / 2 \<and> \<bar>v\<bar> \<le> height (renderer e) / 2
              \<and> applyMatrix (entityMatrix cam e) (u, v) = (sx, sy))))
   \<and> (grabbedHandle zm cam es pc (selectedEntityId st) = None \<longrightarrow>
        selectedEntityId (handlePointerDown False False zm cam es pc st)
          = map_option entityId (clickedEntity cam (screenX pc) (screenY pc) es)
        \<and> isDragging (handlePointerDown False False zm cam es pc st)
          = (isDragging st \<or> clickedEntity cam (screenX pc) (screenY pc) es \<noteq> None)
        \<and> isPanning (handlePointerDown False False zm cam es pc st)
          = (isPanning st \<or> clickedEntity cam (screenX pc) (screenY pc) es = None))
   \<and> grabbedHandle zm cam es pc None = None
   \<and> entityHit originVec 0 40 (exampleRect 90) \<and> \<not> entityHit originVec 0 40 (exampleRect 0)
   \<and> \<not> entityHit originVec 40 0 (exampleRect 90) \<and> entityHit originVec 40 0 (exampleRect 0)"
proof -
  have g: "grabbedHandle zm cam es pc None = None" by (simp add: grabbedHandle_def)
  have a: "clickedEntity cam sx sy es = Some e \<longleftrightarrow>
      (\<exists>pre post. es = pre @ e # post \<and> entityHit cam sx sy e
         \<and> (\<forall>x\<in>set post. \<not> entityHit cam sx sy x))"
    unfolding clickedEntity_def by (rule find_rev_last)
  have b: "clickedEntity cam sx sy es = None \<longleftrightarrow> (\<forall>x\<in>set es. \<not> entityHit cam sx sy x)"
    unfolding clickedEntity_def by (auto simp: find_None_iff)
  have c: "grabbedHandle zm cam es pc (selectedEntityId st) = None \<longrightarrow>
        selectedEntityId (handlePointerDown False False zm cam es pc st)
          = map_option entityId (clickedEntity cam (screenX pc) (screenY pc) es)
        \<and> isDragging (handlePointerDown False False zm cam es pc st)
          = (isDragging st \<or> clickedEntity cam (screenX pc) (screenY pc) es \<noteq> None)
        \<and> isPanning (handlePointerDown False False zm cam es pc st)
          = (isPanning st \<or> clickedEntity cam (screenX pc) (screenY pc) es = None)"
    by (cases "clickedEntity cam (screenX pc) (screenY pc) es")
       (simp_all add: handlePointerDown_def Let_def)
  have half: "90 * pi / 180 = pi / 2" by simp
  have d: "entityHit originVec 0 40 (exampleRect 90)" "\<not> entityHit originVec 0 40 (exampleRect 0)"
    "\<not> entityHit originVec 40 0 (exampleRect 90)" "entityHit originVec 40 0 (exampleRect 0)"
    by (simp_all add: entityHit_def localPointer_eq exampleRect_def originVec_def nullish_def half)
  show ?thesis
    using a b c d g entityHit_circle[of e cam sx sy] entityHit_box[of e cam sx sy] by blast
qed

theorem pointer_hit_test_witness:
  "clickedEntity originVec 0 40 [exampleRect 90, exampleRect 0] = Some (exampleRect 90)
   \<and> clickedEntity originVec 40 0 [exampleRect 90, exampleRect 0] = Some (exampleRect 0)
   \<and> clickedEntity originVec 40 40 [exampleRect 90, exampleRect 0] = None
   \<and> (\<exists>u v. \<bar>u\<bar> \<le> 50 \<and> \<bar>v\<bar> \<le> 10
         \<and> applyMatrix (entityMatrix originVec (exampleRect 90)) (u, v) = (0, 40))"
proof -
  have half: "90 * pi / 180 = pi / 2" by simp
  have hits: "entityHit originVec 0 40 (exampleRect 90)" "\<not> entityHit originVec 0 40 (exampleRect 0)"
    "\<not> entityHit originVec 40 0 (exampleRect 90)" "entityHit originVec 40 0 (exampleRect 0)"
    "\<not> entityHit originVec 40 40 (exampleRect 90)" "\<not> entityHit originVec 40 40 (exampleRect 0)"
    by (simp_all add: entityHit_def localPointer_eq exampleRect_def originVec_def nullish_def half)
  have "[exampleRect 90, exampleRect 0] = [] @ exampleRect 90 # [exampleRect 0]
        \<and> entityHit originVec 0 40 (exampleRect 90)
        \<and> (\<forall>x\<in>set [exampleRect 0]. \<not> entityHit originVec 0 40 x)"
    using hits by simp
  then have 1: "clickedEntity originVec 0 40 [exampleRect 90, exampleRect 0] = Some (exampleRect 90)"
    using pointer_hit_test[of originVec 0 40 "[exampleRect 90, exampleRect 0]" "exampleRect 90",
        THEN conjunct1] by blast
  have "[exampleRect 90, exampleRect 0] = [exampleRect 90] @ exampleRect 0 # []
        \<and> entityHit originVec 40 0 (exampleRect 0)
        \<and> (\<forall>x\<in>set []. \<not> entityHit originVec 40 0 x)"
    using hits by simp
  then have 2: "clickedEntity originVec 40 0 [exampleRect 90, exampleRect 0] = Some (exampleRect 0)"
    using pointer_hit_test[of originVec 40 0 "[exampleRect 90, exampleRect 0]" "exampleRect 0",
        THEN conjunct1] by blast
  have 3: "clickedEntity originVec 40 40 [exampleRect 90, exampleRect 0] = None"
    using pointer_hit_test[of originVec 40 40 "[exampleRect 90, exampleRect 0]" "exampleRect 0",
        THEN conjunct2, THEN conjunct1] hits by simp
  have "rendererType (renderer (exampleRect 90)) \<noteq> Circle"
    "0 < vecX (scale (transform (exampleRect 90)))" "0 < vecY (scale (transform (exampleRect 90)))"
    "width (renderer (exampleRect 90)) / 2 = 50" "height (renderer (exampleRect 90)) / 2 = 10"
    by (simp_all add: exampleRect_def)
  then have 4: "\<exists>u v. \<bar>u\<bar> \<le> 50 \<and> \<bar>v\<bar> \<le> 10
         \<and> applyMatrix (entityMatrix originVec (exampleRect 90)) (u, v) = (0, 40)"
    using pointer_hit_test[of originVec 0 40 "[]" "exampleRect 90",
        THEN conjunct2, THEN conjunct2, THEN conjunct2, THEN conjunct1] hits(1) by simp
  show ?thesis using 1 2 3 4 by simp
qed

section \<open>Properties of the particle subsystem\<close>

lemma agePool_length: "length (agePool dt pool) \<le> length pool"
  by (induction pool) (auto simp: Let_def)

lemma spawnLoop_bound:
  "length pool \<le> nat \<lceil>maxParticles em\<rceil> \<Longrightarrow>
   length (snd (spawnLoop rnd em pos n k pool)) \<le> nat \<lceil>maxParticles em\<rceil>"
proof (induction rnd em pos n k pool rule: spawnLoop.induct)
  case (1 rnd em pos emitCount k pool)
  show ?case
  proof (cases "emitCount > 0 \<and> real (length pool) < maxParticles em")
    case True
    then have "int (length pool) < \<lceil>maxParticles em\<rceil>" by (simp add: less_ceiling_iff)
    then have "length pool + 1 \<le> nat \<lceil>maxParticles em\<rceil>" by linarith
    with "1.IH"[OF True refl refl refl] show ?thesis
      using True by (subst spawnLoop.simps) (simp add: Let_def)
  next
    case False
    then show ?thesis using "1.prems" by (subst spawnLoop.simps) auto
  qed
qed

lemma spawnLoop_prefix:
  "\<exists>spawned. snd (spawnLoop rnd em pos n k pool) = pool @ spawned \<and> length spawned \<le> nat n"
proof (induction rnd em pos n k pool rule: spawnLoop.induct)
  case (1 rnd em pos emitCount k pool)
  show ?case
  proof (cases "emitCount > 0 \<and> real (length pool) < maxParticles em")
    case True
    from "1.IH"[OF True refl refl refl] obtain spawned p where
      sp: "snd (spawnLoop rnd em pos (emitCount - 1) (k + 3) (pool @ [p])) = (pool @ [p]) @ spawned"
        "length spawned \<le> nat (emitCount - 1)"
      and step: "spawnLoop rnd em pos emitCount k pool
                 = spawnLoop rnd em pos (emitCount - 1) (k + 3) (pool @ [p])"
      using True by (subst (asm) spawnLoop.simps[of rnd em pos emitCount]) (auto simp: Let_def)
    have "length (p # spawned) \<le> nat emitCount" using sp(2) True by simp linarith
    then show ?thesis using step sp(1) by (metis append.assoc append_Cons append_Nil)
  next
    case False
    then show ?thesis by (subst spawnLoop.simps) auto
  qed
qed

lemma spawnLoop_full:
  "maxParticles em \<le> real (length pool) \<Longrightarrow> spawnLoop rnd em pos n k pool = (k, pool)"
  by (subst spawnLoop.simps) simp

lemma updateParticles_bound:
  "length pool \<le> nat \<lceil>maxParticles em\<rceil> \<Longrightarrow>
   length (snd (updateParticles rnd em pos dt k pool)) \<le> nat \<lceil>maxParticles em\<rceil>"
  using agePool_length[of dt pool]
  by (auto simp: updateParticles_def Let_def intro!: spawnLoop_bound)

lemma updateParticles_prefix:
  "\<exists>spawned. snd (updateParticles rnd em pos dt k pool) = agePool dt pool @ spawned
     \<and> length spawned \<le> nat (\<lfloor>emissionRate em * dt\<rfloor> + 1)"
proof (cases "emitting em")
  case True
  define n where "n = \<lfloor>emissionRate em * dt\<rfloor>
      + (if rnd k < emissionRate em * dt - of_int \<lfloor>emissionRate em * dt\<rfloor> then 1 else 0)"
  have le: "nat n \<le> nat (\<lfloor>emissionRate em * dt\<rfloor> + 1)"
    unfolding n_def by (simp split: if_splits) linarith
  have "updateParticles rnd em pos dt k pool = spawnLoop rnd em pos n (Suc k) (agePool dt pool)"
    using True by (simp add: updateParticles_def Let_def n_def)
  moreover obtain spawned where
    "snd (spawnLoop rnd em pos n (Suc k) (agePool dt pool)) = agePool dt pool @ spawned"
    "length spawned \<le> nat n"
    using spawnLoop_prefix by blast
  ultimately show ?thesis using le by (metis order_trans)
next
  case False
  then show ?thesis by (simp add: updateParticles_def Let_def)
qed

lemma runParticles_bound:
  "\<forall>s\<in>set steps. maxParticles (fst s) = m \<Longrightarrow> length pool \<le> nat \<lceil>m\<rceil> \<Longrightarrow>
   length (snd (runParticles rnd k pool steps)) \<le> nat \<lceil>m\<rceil>"
proof (induction steps arbitrary: k pool)
  case Nil
  then show ?case by simp
next
  case (Cons s steps)
  obtain em pos dt where s: "s = (em, pos, dt)" by (cases s)
  obtain k' pool' where u: "updateParticles rnd em pos dt k pool = (k', pool')"
    by (cases "updateParticles rnd em pos dt k pool")
  have m: "maxParticles em = m" using Cons.prems(1) s by simp
  have "length pool' \<le> nat \<lceil>m\<rceil>"
    using updateParticles_bound[of pool em rnd pos dt k] Cons.prems(2) u m by simp
  then show ?case using Cons.IH[of pool' k'] Cons.prems(1) s u by simp
qed

text \<open>
  Claim C2 as stated fails: \<open>maxParticles\<close> is a number the inspector reads with
  \<open>parseFloat\<close>, and the loop spawns while \<open>pool.length < maxParticles\<close>. With the
  editor's default emitter capped at \<open>2.5\<close>, three frames of a tenth of a second
  leave three particles in the pool.
\<close>

theorem particle_cap_counterexample:
  "maxParticles (defaultEmitter (5 / 2))
     < real (length (snd (runParticles zeroDraws 0 []
          [(defaultEmitter (5 / 2), originVec, 1 / 10),
           (defaultEmitter (5 / 2), originVec, 1 / 10),
           (defaultEmitter (5 / 2), originVec, 1 / 10)])))"
  by (simp add: updateParticles_def defaultEmitter_def Let_def spawnLoop.simps zeroDraws_def)

text \<open>
  Claim C2, amended. Starting from the empty pool of play start, after any sequence of
  steps with any emission rates, frame times and random draws, an emitter whose
  \<open>maxParticles\<close> stays \<open>m\<close> holds at most \<open>ceiling m\<close> particles (none if \<open>m\<close> is
  negative), hence at most \<open>maxParticles\<close> whenever that is a natural number. Each step
  keeps the aged survivors of the pool, in order, and appends at most
  \<open>floor (emissionRate * dt) + 1\<close> new particles, none once the pool has reached
  \<open>maxParticles\<close>.
\<close>

theorem particle_pool_bounded:
  assumes "\<forall>s\<in>set steps. maxParticles (fst s) = m"
  shows "length (snd (runParticles rnd k [] steps)) \<le> nat \<lceil>m\<rceil>
       \<and> (m = real n \<longrightarrow> length (snd (runParticles rnd k [] steps)) \<le> n)
       \<and> length (agePool dt pool) \<le> length pool
       \<and> (\<exists>spawned. snd (updateParticles rnd em pos dt j pool) = agePool dt pool @ spawned
             \<and> length spawned \<le> nat (\<lfloor>emissionRate em * dt\<rfloor> + 1))
       \<and> (maxParticles em \<le> real (length (agePool dt pool)) \<longrightarrow>
             snd (updateParticles rnd em pos dt j pool) = agePool dt pool)"
proof -
  have b: "length (snd (runParticles rnd k [] steps)) \<le> nat \<lceil>m\<rceil>"
    using runParticles_bound[OF assms, of "[]" rnd k] by simp
  have c: "m = real n \<longrightarrow> length (snd (runParticles rnd k [] steps)) \<le> n"
    using b by auto
  have d: "maxParticles em \<le> real (length (agePool dt pool)) \<longrightarrow>
             snd (updateParticles rnd em pos dt j pool) = agePool dt pool"
    by (simp add: updateParticles_def Let_def spawnLoop_full)
  show ?thesis
    using b c d agePool_length[of dt pool] updateParticles_prefix[of rnd em pos dt j pool]
    by blast
qed

theorem particle_pool_bounded_witness:
  "maxParticles (defaultEmitter 2) = 2
   \<and> length (snd (runParticles zeroDraws 0 []
          [(defaultEmitter 2, originVec, 1 / 10),
           (defaultEmitter 2, originVec, 1 / 10),
           (defaultEmitter 2, originVec, 1 / 10)])) \<le> 2"
proof -
  have h: "\<forall>s\<in>set [(defaultEmitter 2, originVec, 1 / 10),
           (defaultEmitter 2, originVec, 1 / 10),
           (defaultEmitter 2, originVec, 1 / 10 :: real)]. maxParticles (fst s) = real 2"
    by (simp add: defaultEmitter_def)
  from particle_pool_bounded[OF h, of zeroDraws 0 2, THEN conjunct2, THEN conjunct1]
  show ?thesis by (simp add: defaultEmitter_def)
qed

section \<open>Properties of the renderer\<close>

lemmas ctx_defs = ctxSave_def ctxRestore_def ctxTranslate_def ctxScale_def ctxRotate_def
  setFillStyle_def setFontPx_def setGlobalAlpha_def emit_def

lemma placeEntity_ui:
  "cur (placeEntity cam e True c) =
     (cur c)\<lparr>ctm := scaleM (vecX (scale (transform e))) (vecY (scale (transform e)))
        (rotateM (rotation (transform e) * pi / 180)
          (translateM
             (vecX (position (transform e))
                + fst (anchorOffset (canvasWidth c) (canvasHeight c) (anchor (transform e))))
             (vecY (position (transform e))
                + snd (anchorOffset (canvasWidth c) (canvasHeight c) (anchor (transform e))))
             (ctm (cur c))))\<rparr>"
  by (simp add: placeEntity_def ctx_defs Let_def)

text \<open>
  Claim C4 against the code. In \<open>drawEntity\<close> the UI branch calls \<open>ctx.restore()\<close>
  right after the \<open>ctx.save()\<close> that opens the function, with the comment "Undo camera
  transform"; the pair only pops what was just pushed, so the camera's translate and
  scale stay in force. A UI entity is therefore placed at the image, under the matrix
  current on entry, of its position plus the anchor offset. Drawn alone on an 800 by
  600 canvas without camera settings (zoom 1), the button anchored bottom-right at
  \<open>(-10, -10)\<close> has its origin at pixel \<open>(1190, 890)\<close>, not \<open>(790, 590)\<close>.
\<close>

theorem ui_entity_drawn_under_camera:
  "originPixel (cur (placeEntity cam e True c))
     = applyMatrix (ctm (cur c))
         (vecX (position (transform e))
            + fst (anchorOffset (canvasWidth c) (canvasHeight c) (anchor (transform e))),
          vecY (position (transform e))
            + snd (anchorOffset (canvasWidth c) (canvasHeight c) (anchor (transform e))))
   \<and> saved (placeEntity cam e True c) = cur c # saved c
   \<and> map (\<lambda>d. originPixel (fst d))
         (drawn (snd (draw (exampleScene [exampleButton]) [exampleButton] cam Map.empty
                        (Map.empty, blankCanvas 800 600))))
       = [(0, 0), (1190, 890), (1190, 890)]"
proof -
  have a: "originPixel (cur (placeEntity cam e True c))
     = applyMatrix (ctm (cur c))
         (vecX (position (transform e))
            + fst (anchorOffset (canvasWidth c) (canvasHeight c) (anchor (transform e))),
          vecY (position (transform e))
            + snd (anchorOffset (canvasWidth c) (canvasHeight c) (anchor (transform e))))"
    unfolding placeEntity_ui
    by (simp add: originPixel_def applyMatrix_def scaleM_def rotateM_def translateM_def)
  have b: "saved (placeEntity cam e True c) = cur c # saved c"
    by (simp add: placeEntity_def ctx_defs Let_def)
  have c: "map (\<lambda>d. originPixel (fst d))
         (drawn (snd (draw (exampleScene [exampleButton]) [exampleButton] cam Map.empty
                        (Map.empty, blankCanvas 800 600))))
       = [(0, 0), (1190, 890), (1190, 890)]"
    by (simp add: draw_def drawEntity_def placeEntity_def drawShape_def exampleScene_def
        exampleButton_def blankCanvas_def sceneZoom_def truthyBool_def truthyStr_def numOr_def
        anchorOffset_def ctx_defs Let_def originPixel_def applyMatrix_def translateM_def
        scaleM_def rotateM_def identityMatrix_def)
  show ?thesis using a b c by simp
qed

section \<open>Objects and records agree; the prefab round trip\<close>

lemma prim_codecs [simp]:
  "numOf (JNum n) = Some n" "strOf (JStr s) = Some s" "boolOf (JBool b) = Some b"
  by (simp_all add: numOf_def strOf_def boolOf_def)

lemma anchorOf_name [simp]: "anchorOf (JStr (anchorName a)) = Some a"
  by (cases a) (simp_all add: anchorOf_def)

lemma entityTypeOf_name [simp]: "entityTypeOf (JStr (entityTypeName a)) = Some a"
  by (cases a) (simp_all add: entityTypeOf_def)

lemma scriptTypeOf_name [simp]: "scriptTypeOf (JStr (scriptTypeName a)) = Some a"
  by (cases a) (simp_all add: scriptTypeOf_def)

lemma optOf_optJ:
  "(\<And>a. dec (enc a) = Some a) \<Longrightarrow> (\<And>a. enc a \<noteq> JUndefined) \<Longrightarrow>
   optOf dec (optJ enc v) = Some v"
  by (cases v) (simp_all add: optOf_def optJ_def)

lemma optOf_clone:
  "(\<And>a. dec (jsonClone (enc a)) = Some a) \<Longrightarrow> (\<And>a. jsonClone (enc a) \<noteq> JUndefined) \<Longrightarrow>
   optOf dec (jsonClone (optJ enc v)) = Some v"
  by (cases v) (simp_all add: optOf_def optJ_def)

lemma those_map_Some: "(\<And>a. f a = Some (g a)) \<Longrightarrow> those (map f xs) = Some (map g xs)"
  by (induction xs) simp_all

lemma listOf_map:
  "(\<And>a. dec (enc a) = Some a) \<Longrightarrow> listOf dec (JArr (map enc xs)) = Some xs"
  using those_map_Some[of "\<lambda>a. dec (enc a)" "\<lambda>a. a" xs]
  by (simp add: listOf_def comp_def)

lemma jsonCloneItems_map:
  "(\<And>a. enc a \<noteq> JUndefined) \<Longrightarrow> jsonCloneItems (map enc xs) = map (\<lambda>a. jsonClone (enc a)) xs"
  by (induction xs) simp_all

lemma listOf_clone:
  "(\<And>a. dec (jsonClone (enc a)) = Some a) \<Longrightarrow> (\<And>a. enc a \<noteq> JUndefined) \<Longrightarrow>
   listOf dec (JArr (jsonCloneItems (map enc xs))) = Some xs"
  using those_map_Some[of "\<lambda>a. dec (jsonClone (enc a))" "\<lambda>a. a" xs]
  by (simp add: listOf_def comp_def jsonCloneItems_map)

lemma map_of_jsonCloneFields:
  "distinct (map fst kvs) \<Longrightarrow>
   map_of (jsonCloneFields kvs) k =
     (case map_of kvs k of None \<Rightarrow> None
      | Some v \<Rightarrow> if v = JUndefined then None else Some (jsonClone v))"
proof (induction kvs)
  case Nil
  then show ?case by simp
next
  case (Cons kv kvs)
  then have "fst kv \<notin> fst ` set kvs" by simp
  then have "map_of kvs (fst kv) = None" by (simp add: map_of_eq_None_iff)
  then show ?case using Cons by (cases kv) (auto split: option.splits)
qed

lemma field_clone:
  "distinct (map fst kvs) \<Longrightarrow> field (jsonClone (JObj kvs)) k = jsonClone (field (JObj kvs) k)"
  by (simp add: field_def map_of_jsonCloneFields split: option.splits)

lemma vector2_codec [simp]:
  "vector2Of (vector2J v) = Some v" "vector2Of (jsonClone (vector2J v)) = Some v"
  by (simp_all add: vector2Of_def vector2J_def field_def)

lemma jsonClone_obj [simp]: "jsonClone (JObj kvs) \<noteq> JUndefined"
  by simp

lemmas obj_simps = field_def optOf_optJ optOf_clone listOf_map listOf_clone

lemma transform_codec [simp]:
  "transformOf (transformJ t) = Some t" "transformOf (jsonClone (transformJ t)) = Some t"
  "transformJ t \<noteq> JUndefined" "jsonClone (transformJ t) \<noteq> JUndefined"
  unfolding transformOf_def transformJ_def
  by (simp_all add: field_clone del: jsonClone.simps(1))
     (simp_all add: obj_simps del: jsonClone.simps(1))

lemma physics_codec [simp]:
  "physicsOf (physicsJ t) = Some t" "physicsOf (jsonClone (physicsJ t)) = Some t"
  "physicsJ t \<noteq> JUndefined" "jsonClone (physicsJ t) \<noteq> JUndefined"
  unfolding physicsOf_def physicsJ_def
  by (simp_all add: field_clone del: jsonClone.simps(1))
     (simp_all add: obj_simps del: jsonClone.simps(1))

lemma spriteAnimation_codec [simp]:
  "spriteAnimationOf (spriteAnimationJ t) = Some t"
  "spriteAnimationOf (jsonClone (spriteAnimationJ t)) = Some t"
  "spriteAnimationJ t \<noteq> JUndefined" "jsonClone (spriteAnimationJ t) \<noteq> JUndefined"
  unfolding spriteAnimationOf_def spriteAnimationJ_def
  by (simp_all add: field_clone del: jsonClone.simps(1))
     (simp_all add: obj_simps del: jsonClone.simps(1))

lemma renderer_codec [simp]:
  "rendererOf (rendererJ t) = Some t" "rendererOf (jsonClone (rendererJ t)) = Some t"
  "rendererJ t \<noteq> JUndefined" "jsonClone (rendererJ t) \<noteq> JUndefined"
  unfolding rendererOf_def rendererJ_def
  by (simp_all add: field_clone del: jsonClone.simps(1))
     (simp_all add: obj_simps del: jsonClone.simps(1))

lemma script_codec [simp]:
  "scriptOf (scriptJ t) = Some t" "scriptOf (jsonClone (scriptJ t)) = Some t"
  "scriptJ t \<noteq> JUndefined" "jsonClone (scriptJ t) \<noteq> JUndefined"
  unfolding scriptOf_def scriptJ_def
  by (simp_all add: field_clone del: jsonClone.simps(1))
     (simp_all add: obj_simps del: jsonClone.simps(1))

lemma particles_codec [simp]:
  "particlesOf (particlesJ t) = Some t" "particlesOf (jsonClone (particlesJ t)) = Some t"
  "particlesJ t \<noteq> JUndefined" "jsonClone (particlesJ t) \<noteq> JUndefined"
  unfolding particlesOf_def particlesJ_def
  by (simp_all add: field_clone del: jsonClone.simps(1))
     (simp_all add: obj_simps del: jsonClone.simps(1))

lemma tilemapLayer_codec [simp]:
  "tilemapLayerOf (tilemapLayerJ t) = Some t" "tilemapLayerOf (jsonClone (tilemapLayerJ t)) = Some t"
  "tilemapLayerJ t \<noteq> JUndefined" "jsonClone (tilemapLayerJ t) \<noteq> JUndefined"
  unfolding tilemapLayerOf_def tilemapLayerJ_def
  by (simp_all add: field_clone del: jsonClone.simps(1))
     (simp_all add: obj_simps del: jsonClone.simps(1))

lemma tilemap_codec [simp]:
  "tilemapOf (tilemapJ t) = Some t" "tilemapOf (jsonClone (tilemapJ t)) = Some t"
  "tilemapJ t \<noteq> JUndefined" "jsonClone (tilemapJ t) \<noteq> JUndefined"
  unfolding tilemapOf_def tilemapJ_def
  by (simp_all add: field_clone del: jsonClone.simps(1))
     (simp_all add: obj_simps del: jsonClone.simps(1))

lemma keyframe_codec [simp]:
  "keyframeOf (keyframeJ t) = Some t" "keyframeOf (jsonClone (keyframeJ t)) = Some t"
  "keyframeJ t \<noteq> JUndefined" "jsonClone (keyframeJ t) \<noteq> JUndefined"
  unfolding keyframeOf_def keyframeJ_def
  by (simp_all add: field_clone del: jsonClone.simps(1))
     (simp_all add: obj_simps del: jsonClone.simps(1))

lemma propertyAnimation_codec [simp]:
  "propertyAnimationOf (propertyAnimationJ t) = Some t"
  "propertyAnimationOf (jsonClone (propertyAnimationJ t)) = Some t"
  "propertyAnimationJ t \<noteq> JUndefined" "jsonClone (propertyAnimationJ t) \<noteq> JUndefined"
  unfolding propertyAnimationOf_def propertyAnimationJ_def
  by (simp_all add: field_clone del: jsonClone.simps(1))
     (simp_all add: obj_simps del: jsonClone.simps(1))

lemma entity_codec:
  "entityOf (entityJ t) = Some t" "entityOf (jsonClone (entityJ t)) = Some t"
  unfolding entityOf_def entityJ_def
  by (simp_all add: field_clone del: jsonClone.simps(1))
     (simp_all add: obj_simps del: jsonClone.simps(1))

lemma jsonClone_undef_iff: "jsonClone v = JUndefined \<longleftrightarrow> v = JUndefined"
  by (cases v) simp_all

lemma jsonClone_idem:
  "jsonClone (jsonClone v) = jsonClone v"
  "jsonCloneFields (jsonCloneFields kvs) = jsonCloneFields kvs"
  "jsonCloneItems (jsonCloneItems xs) = jsonCloneItems xs"
proof (induction v and kvs and xs rule: jsonClone_jsonCloneFields_jsonCloneItems.induct)
  case (9 kv r)
  then show ?case by (simp add: jsonClone_undef_iff)
next
  case (11 v r)
  then show ?case by (cases v) (simp_all add: jsonClone_undef_iff)
qed simp_all

lemma jsonCloneFields_keys: "set (map fst (jsonCloneFields kvs)) \<subseteq> set (map fst kvs)"
  by (induction kvs) auto

lemma jsonCloneFields_distinct:
  "distinct (map fst kvs) \<Longrightarrow> distinct (map fst (jsonCloneFields kvs))"
proof (induction kvs)
  case Nil
  then show ?case by simp
next
  case (Cons kv kvs)
  then show ?case using jsonCloneFields_keys[of kvs] by auto
qed

lemma field_cloneFields:
  "distinct (map fst kvs) \<Longrightarrow> field (JObj (jsonCloneFields kvs)) k = jsonClone (field (JObj kvs) k)"
  using field_clone[of kvs k] by simp

lemma field_update:
  "field (JObj (AList.update k v kvs)) k' = (if k' = k then v else field (JObj kvs) k')"
  by (simp add: field_def update_conv')

lemma field_delete:
  "field (JObj (AList.delete k kvs)) k' = (if k' = k then JUndefined else field (JObj kvs) k')"
  by (simp add: field_def delete_conv')

lemma field_saved:
  assumes "distinct (map fst kvs)"
  shows "field (JObj (jsonCloneFields (AList.delete k0 (jsonCloneFields kvs)))) k
         = (if k = k0 then JUndefined else jsonClone (field (JObj kvs) k))"
proof -
  have d: "distinct (map fst (AList.delete k0 (jsonCloneFields kvs)))"
    using jsonCloneFields_distinct[OF assms] by (simp add: distinct_delete)
  show ?thesis
    unfolding field_cloneFields[OF d] field_delete
    by (simp add: field_cloneFields[OF assms] jsonClone_idem)
qed


lemma optOf_prim:
  "optOf strOf (JStr s) = Some (Some s)" "optOf numOf (JNum n) = Some (Some n)"
  "optOf boolOf (JBool b) = Some (Some b)"
  by (simp_all add: optOf_def)

lemma readProp_obj:
  "k \<notin> set inheritedNames \<Longrightarrow> readProp (JObj kvs) k = Inr (field (JObj kvs) k)"
  by (simp add: readProp_def field_def)

lemma jsonClone_vector2J [simp]: "jsonClone (vector2J v) = vector2J v"
  by (simp add: vector2J_def)

lemma moved_transform:
  "transformOf (JObj (AList.update ''position''
        (JObj [(''x'', JNum a), (''y'', JNum b)]) (spreadOf (jsonClone (transformJ t)))))
   = Some (t\<lparr>position := \<lparr>vecX = a, vecY = b\<rparr>\<rparr>)"
proof -
  define TL where "TL = [(''position'', vector2J (position t)), (''rotation'', JNum (rotation t)),
           (''scale'', vector2J (scale t)), (''isUI'', optJ JBool (isUI t)),
           (''anchor'', optJ (\<lambda>a. JStr (anchorName a)) (anchor t))]"
  have d: "distinct (map fst TL)" by (simp add: TL_def)
  have sp: "spreadOf (jsonClone (transformJ t)) = jsonCloneFields TL"
    by (simp add: transformJ_def TL_def spreadOf_def del: jsonCloneFields.simps)
  have f: "field (JObj (AList.update ''position'' v (jsonCloneFields TL))) k
        = (if k = ''position'' then v else jsonClone (field (JObj TL) k))" for k v
    by (simp add: field_update field_cloneFields[OF d])
  have v: "vector2Of (JObj [(''x'', JNum a), (''y'', JNum b)]) = Some \<lparr>vecX = a, vecY = b\<rparr>"
    by (simp add: vector2Of_def field_def)
  show ?thesis
    unfolding sp transformOf_def f
    by (simp add: v) (simp add: TL_def field_def optOf_clone)
qed

lemma instantiate_saved:
  "\<exists>obj. instantiateObject uuid pid (savePrefabData e) = Inr obj
     \<and> entityOf obj = Some (prefabInstance uuid pid e)"
proof -
  define E where "E = [(''id'', JStr (entityId e)), (''name'', JStr (entityName e)),
           (''transform'', transformJ (transform e)), (''physics'', optJ physicsJ (physics e)),
           (''renderer'', rendererJ (renderer e)), (''script'', optJ scriptJ (script e)),
           (''particles'', optJ particlesJ (particles e)),
           (''tilemap'', optJ tilemapJ (tilemap e)),
           (''propertyAnimations'',
              optJ (\<lambda>l. JArr (map propertyAnimationJ l)) (propertyAnimations e)),
           (''prefabId'', optJ JStr (prefabId e))]"
  define D where "D = jsonCloneFields (AList.delete ''id'' (jsonCloneFields E))"
  define TR where "TR = jsonClone (transformJ (transform e))"
  have dE: "distinct (map fst E)" by (simp add: E_def)
  have sD: "savePrefabData e = JObj D"
    by (simp add: savePrefabData_def entityJ_def objectRest_def D_def E_def
        del: jsonCloneFields.simps)
  have fD: "field (JObj D) k = (if k = ''id'' then JUndefined else jsonClone (field (JObj E) k))" for k
    unfolding D_def by (rule field_saved[OF dE])
  have fE: "field (JObj E) ''name'' = JStr (entityName e)"
    "field (JObj E) ''transform'' = transformJ (transform e)"
    "field (JObj E) ''physics'' = optJ physicsJ (physics e)"
    "field (JObj E) ''renderer'' = rendererJ (renderer e)"
    "field (JObj E) ''script'' = optJ scriptJ (script e)"
    "field (JObj E) ''particles'' = optJ particlesJ (particles e)"
    "field (JObj E) ''tilemap'' = optJ tilemapJ (tilemap e)"
    "field (JObj E) ''propertyAnimations''
       = optJ (\<lambda>l. JArr (map propertyAnimationJ l)) (propertyAnimations e)"
    "field (JObj E) ''prefabId'' = optJ JStr (prefabId e)"
    by (simp_all add: E_def field_def)
  have rD: "readProp (JObj D) ''name'' = Inr (JStr (entityName e))"
    "readProp (JObj D) ''transform'' = Inr TR"
    by (simp_all add: readProp_obj inheritedNames_def fD fE TR_def)
  have rT: "readProp TR ''position'' = Inr (vector2J (position (transform e)))"
    unfolding TR_def transformJ_def
    by (simp add: readProp_def inheritedNames_def field_def)
  have rP: "readProp (vector2J (position (transform e))) ''x'' = Inr (JNum (vecX (position (transform e))))"
    "readProp (vector2J (position (transform e))) ''y'' = Inr (JNum (vecY (position (transform e))))"
    by (simp_all add: vector2J_def readProp_def inheritedNames_def)
  define obj where "obj = JObj
            (AList.update ''transform''
               (JObj (AList.update ''position''
                        (JObj [(''x'', JNum (vecX (position (transform e)) + 20)),
                               (''y'', JNum (vecY (position (transform e)) + 20))])
                        (spreadOf TR)))
               (AList.update ''prefabId'' (JStr pid)
                  (AList.update ''name'' (JStr (entityName e @ '' (Instance)''))
                     (AList.update ''id'' (JStr uuid) D))))"
  have io: "instantiateObject uuid pid (savePrefabData e) = Inr obj"
    by (simp add: instantiateObject_def sD rD rT rP obj_def spreadOf_def)
  have fo: "field obj k =
      (if k = ''transform'' then
         JObj (AList.update ''position''
                        (JObj [(''x'', JNum (vecX (position (transform e)) + 20)),
                               (''y'', JNum (vecY (position (transform e)) + 20))])
                        (spreadOf TR))
       else if k = ''prefabId'' then JStr pid
       else if k = ''name'' then JStr (entityName e @ '' (Instance)'')
       else if k = ''id'' then JStr uuid
       else jsonClone (field (JObj E) k))" for k
    unfolding obj_def field_update fD by simp
  have "entityOf obj = Some (prefabInstance uuid pid e)"
    unfolding entityOf_def fo
    by (simp add: fE TR_def moved_transform optOf_clone listOf_clone optOf_prim
        prefabInstance_def claimedInstance_def del: jsonClone.simps(1))
  with io show ?thesis by blast
qed


lemma save_then_instantiate:
  assumes sc: "currentScene st = Some sc"
    and e: "List.find (\<lambda>x. entityId x = eid) (entities sc) = Some e"
    and fresh: "\<forall>a\<in>set (assets st). assetId a \<noteq> aid"
  shows "handleInstantiatePrefab uuid aid (handleSavePrefab aid eid st)
         = Inr (st\<lparr>assets := assets st @
                     [\<lparr>assetId = aid, assetName = entityName e @ '' Prefab'',
                       assetType = PrefabAsset, assetUrl = [],
                       assetData = Some (savePrefabData e)\<rparr>],
                   currentScene := Some (sc\<lparr>entities := entities sc @ [prefabInstance uuid aid e]\<rparr>),
                   appSelectedEntityId := Some uuid\<rparr>)"
proof -
  let ?a = "\<lparr>assetId = aid, assetName = entityName e @ '' Prefab'',
                       assetType = PrefabAsset, assetUrl = [],
                       assetData = Some (savePrefabData e)\<rparr>"
  have s: "handleSavePrefab aid eid st = st\<lparr>assets := assets st @ [?a]\<rparr>"
    by (simp add: handleSavePrefab_def sc e)
  have "List.find (\<lambda>a. assetId a = aid) (assets st) = None"
    using fresh by (simp add: find_None_iff)
  then have f: "List.find (\<lambda>a. assetId a = aid) (assets st @ [?a]) = Some ?a"
    by (simp add: find_append_case)
  obtain obj where o: "instantiateObject uuid aid (savePrefabData e) = Inr obj"
    "entityOf obj = Some (prefabInstance uuid aid e)"
    using instantiate_saved by blast
  have i: "entityId (prefabInstance uuid aid e) = uuid"
    by (simp add: prefabInstance_def claimedInstance_def)
  show ?thesis
    unfolding s by (simp add: handleInstantiatePrefab_def f o sc i)
qed

lemma example_prefab_run:
  "handleInstantiatePrefab ''uuid-2'' ''asset-1'' (handleSavePrefab ''asset-1'' ''rect-1'' exampleApp)
   = Inr (exampleApp\<lparr>assets := assets exampleApp @
                     [\<lparr>assetId = ''asset-1'', assetName = entityName (exampleRect 0) @ '' Prefab'',
                       assetType = PrefabAsset, assetUrl = [],
                       assetData = Some (savePrefabData (exampleRect 0))\<rparr>],
                   currentScene := Some ((exampleScene [exampleRect 0])\<lparr>entities :=
                      entities (exampleScene [exampleRect 0])
                        @ [prefabInstance ''uuid-2'' ''asset-1'' (exampleRect 0)]\<rparr>),
                   appSelectedEntityId := Some ''uuid-2''\<rparr>)"
proof (rule save_then_instantiate)
  show "currentScene exampleApp = Some (exampleScene [exampleRect 0])"
    by (simp add: exampleApp_def)
  show "List.find (\<lambda>x. entityId x = ''rect-1'') (entities (exampleScene [exampleRect 0]))
        = Some (exampleRect 0)"
    by (simp add: exampleScene_def exampleRect_def)
  show "\<forall>a\<in>set (assets exampleApp). assetId a \<noteq> ''asset-1''"
    by (simp add: exampleApp_def)
qed

text \<open>
  Claim C8 as stated fails: the instance is not the original with only the id and the
  position changed. \<open>handleInstantiatePrefab\<close> also renames it and records the prefab
  it came from.
\<close>

theorem prefab_identity_counterexample:
  "resultEntities (handleInstantiatePrefab ''uuid-2'' ''asset-1''
       (handleSavePrefab ''asset-1'' ''rect-1'' exampleApp))
     \<noteq> [exampleRect 0, claimedInstance ''uuid-2'' (exampleRect 0)]
   \<and> map entityName (resultEntities (handleInstantiatePrefab ''uuid-2'' ''asset-1''
       (handleSavePrefab ''asset-1'' ''rect-1'' exampleApp)))
     = [''New rect'', ''New rect (Instance)'']
   \<and> map prefabId (resultEntities (handleInstantiatePrefab ''uuid-2'' ''asset-1''
       (handleSavePrefab ''asset-1'' ''rect-1'' exampleApp)))
     = [None, Some ''asset-1'']"
  unfolding example_prefab_run
  by (simp add: resultEntities_def exampleScene_def prefabInstance_def claimedInstance_def
      exampleRect_def)

text \<open>
  Claim C8, amended. Saving an entity of the scene as a prefab under a new asset id
  and instantiating that prefab appends to the scene a copy of the entity that differs
  from it in exactly four places: a fresh id, the name with \<open>" (Instance)"\<close> appended,
  \<open>prefabId\<close> set to the asset's id, and the position moved by \<open>(+20, +20)\<close>. Every
  other field, through the JSON round trip, equals the original's.
\<close>

theorem prefab_round_trip:
  assumes "currentScene st = Some sc"
    and "List.find (\<lambda>x. entityId x = eid) (entities sc) = Some e"
    and "\<forall>a\<in>set (assets st). assetId a \<noteq> aid"
  shows "resultEntities (handleInstantiatePrefab uuid aid (handleSavePrefab aid eid st))
         = entities sc @
             [e\<lparr>entityId := uuid,
                entityName := entityName e @ '' (Instance)'',
                prefabId := Some aid,
                transform := (transform e)\<lparr>position :=
                  \<lparr>vecX = vecX (position (transform e)) + 20,
                   vecY = vecY (position (transform e)) + 20\<rparr>\<rparr>\<rparr>]"
  unfolding save_then_instantiate[OF assms]
  by (simp add: resultEntities_def prefabInstance_def claimedInstance_def)

theorem prefab_round_trip_witness:
  "resultEntities (handleInstantiatePrefab ''uuid-2'' ''asset-1''
       (handleSavePrefab ''asset-1'' ''rect-1'' exampleApp))
   = [exampleRect 0,
      (exampleRect 0)\<lparr>entityId := ''uuid-2'', entityName := ''New rect (Instance)'',
         prefabId := Some ''asset-1'',
         transform := (transform (exampleRect 0))\<lparr>position := \<lparr>vecX = 20, vecY = 20\<rparr>\<rparr>\<rparr>]"
proof -
  have a: "currentScene exampleApp = Some (exampleScene [exampleRect 0])"
    by (simp add: exampleApp_def)
  have b: "List.find (\<lambda>x. entityId x = ''rect-1'') (entities (exampleScene [exampleRect 0]))
        = Some (exampleRect 0)"
    by (simp add: exampleScene_def exampleRect_def)
  have c: "\<forall>a\<in>set (assets exampleApp). assetId a \<noteq> ''asset-1''"
    by (simp add: exampleApp_def)
  show ?thesis
    unfolding prefab_round_trip[OF a b c, of "''uuid-2''"]
    by (simp add: exampleScene_def exampleRect_def)
qed

section \<open>Properties of the property animations\<close>

lemma split_ramp: "splitOn CHR ''.'' ''transform.position.x'' = [''transform'', ''position'', ''x'']"
  by simp

lemma assign_position_x:
  "assignPath strict (entityJ e) [''transform'', ''position'', ''x''] (JNum v)
   = Inr (entityJ (withPositionX v e))"
  by (simp add: entityJ_def transformJ_def vector2J_def readProp_def writeProp_def
      storeChild_def truthy_def inheritedNames_def withPositionX_def)

lemma applyValue_position_x:
  "applyValue strict e [''transform'', ''position'', ''x''] v = Inr (withPositionX v e)"
  unfolding applyValue_def assign_position_x by (simp add: entity_codec)

lemma animate_single:
  "propertyAnimations e = Some [a] \<Longrightarrow> animateEntity strict dt e = stepAnimation strict dt 0 e"
  by (cases "stepAnimation strict dt 0 e") (auto simp: animateEntity_def split: option.splits)

lemma ramp_fields [simp]:
  "keyframes (rampAt b ct pl) = [\<lparr>keyframeTime = 0, keyframeValue = 0\<rparr>,
                   \<lparr>keyframeTime = 1, keyframeValue = 10\<rparr>]"
  "property (rampAt b ct pl) = ''transform.position.x''"
  "loop (rampAt b ct pl) = b" "playing (rampAt b ct pl) = pl" "currentTime (rampAt b ct pl) = ct"
  by (simp_all add: rampAt_def rampAnimation_def)

lemma advance_ramp:
  "advanceTime dt (rampAt b ct True) =
     (if ct + dt > 1 then (if b then rampAt b (jsRem (ct + dt) 1) True else rampAt b 1 False)
      else rampAt b (ct + dt) True)"
  by (simp add: advanceTime_def Let_def) (simp add: rampAt_def rampAnimation_def)

lemma interpolate_ramp:
  "interpolate ct [\<lparr>keyframeTime = 0, keyframeValue = 0\<rparr>, \<lparr>keyframeTime = 1, keyframeValue = 10\<rparr>]
   = Inr (10 * ct)"
  by (simp add: interpolate_def Let_def)

lemma step_ramp:
  assumes "propertyAnimations e = Some [rampAt b ct True]"
  shows "animateEntity strict dt e =
     (None, withPositionX (10 * currentTime (advanceTime dt (rampAt b ct True)))
              (e\<lparr>propertyAnimations := Some [advanceTime dt (rampAt b ct True)]\<rparr>))"
proof -
  have k: "keyframes (advanceTime dt (rampAt b ct True)) = keyframes (rampAt b ct True)"
    "property (advanceTime dt (rampAt b ct True)) = ''transform.position.x''"
    by (simp_all add: advance_ramp)
  show ?thesis
    unfolding animate_single[OF assms]
    by (simp add: stepAnimation_def assms Let_def k interpolate_ramp applyValue_position_x
        del: splitOn.simps add: split_ramp)
qed

lemma stopped_ramp:
  assumes "propertyAnimations e = Some [rampAt b ct False]"
  shows "animateEntity strict dt e = (None, e)"
  unfolding animate_single[OF assms] by (simp add: stepAnimation_def assms)


lemma withPositionX_again:
  "withPositionX v ((withPositionX u e)\<lparr>propertyAnimations := A\<rparr>)
   = withPositionX v (e\<lparr>propertyAnimations := A\<rparr>)"
  "propertyAnimations (withPositionX u (e\<lparr>propertyAnimations := A\<rparr>)) = A"
  by (simp_all add: withPositionX_def)



lemma ramp_start: "rampAt b 0 True = rampAnimation b"
  by (simp add: rampAt_def rampAnimation_def)

text \<open>
  The non-looping ramp in binary64. Its cursor after a sequence of frames is the
  running sum of the frame times as long as no rounded sum has exceeded 1; the running
  sum does not decrease, so that is the case exactly when the last one has not. The
  interpolated value at a cursor \<open>c\<close> in \<open>[0, 1]\<close> is \<open>10 * c\<close>, rounded.
\<close>

lemma one64 [simp]: "round64 1 = 1"
  using round64_exact[of 1 1 0] by simp

lemma ten64 [simp]: "round64 10 = 10"
  using round64_exact[of 10 10 0] by simp

lemma two64: "round64 2 = 2"
  using round64_exact[of 2 2 0] by simp

lemma advance_ramp64:
  "advanceTime64 dt (rampAt b ct True) =
     (if round64 (ct + dt) > 1
      then (if b then rampAt b (jsRem (round64 (ct + dt)) 1) True else rampAt b 1 False)
      else rampAt b (round64 (ct + dt)) True)"
  by (simp add: advanceTime64_def Let_def) (simp add: rampAt_def rampAnimation_def)

lemma interpolate_ramp64:
  assumes "0 \<le> ct" and "ct \<le> 1" and "round64 ct = ct"
  shows "interpolate64 ct [\<lparr>keyframeTime = 0, keyframeValue = 0\<rparr>, \<lparr>keyframeTime = 1, keyframeValue = 10\<rparr>]
   = Inr (round64 (10 * ct))"
  using assms by (simp add: interpolate64_def Let_def)

lemma animate_single64:
  "propertyAnimations e = Some [a] \<Longrightarrow> animateEntity64 strict dt e = stepAnimation64 strict dt 0 e"
  by (cases "stepAnimation64 strict dt 0 e") (auto simp: animateEntity64_def split: option.splits)


lemma step_ramp64:
  assumes p: "propertyAnimations e = Some [rampAt False ct True]" and nn: "0 \<le> ct + dt"
  shows "animateEntity64 strict dt e =
     (if 1 < round64 (ct + dt)
      then (None, withPositionX 10 (e\<lparr>propertyAnimations := Some [rampAt False 1 False]\<rparr>))
      else (None, withPositionX (round64 (10 * round64 (ct + dt)))
                    (e\<lparr>propertyAnimations := Some [rampAt False (round64 (ct + dt)) True]\<rparr>)))"
proof -
  define c where "c = round64 (ct + dt)"
  have c0: "0 \<le> c" unfolding c_def using nn by (rule round64_nonneg)
  have cc: "round64 c = c" by (simp add: c_def)
  show ?thesis
  proof (cases "1 < c")
    case True
    have i: "interpolate64 1 [\<lparr>keyframeTime = 0, keyframeValue = 0\<rparr>, \<lparr>keyframeTime = 1, keyframeValue = 10\<rparr>]
       = Inr 10"
      using interpolate_ramp64[of 1] by simp
    show ?thesis
      unfolding animate_single64[OF p]
      using True
      by (simp add: stepAnimation64_def p Let_def advance_ramp64 c_def[symmetric] i
          applyValue_position_x del: splitOn.simps add: split_ramp)
  next
    case False
    then have c1: "c \<le> 1" by simp
    show ?thesis
      unfolding animate_single64[OF p]
      using False
      by (simp add: stepAnimation64_def p Let_def advance_ramp64 c_def[symmetric]
          interpolate_ramp64[OF c0 c1 cc] applyValue_position_x del: splitOn.simps add: split_ramp)
  qed
qed

lemma stopped_ramp64:
  assumes "propertyAnimations e = Some [rampAt b ct False]"
  shows "animateEntity64 strict dt e = (None, e)"
  unfolding animate_single64[OF assms] by (simp add: stepAnimation64_def assms)

lemma stopped_frames64:
  assumes "propertyAnimations e = Some [rampAt b ct False]"
  shows "animateFrames64 strict e dts = (None, e)"
  by (induction dts) (simp_all add: stopped_ramp64[OF assms])

lemma runningSum64_ge:
  "round64 c = c \<Longrightarrow> 0 \<le> c \<Longrightarrow> \<forall>d\<in>set ds. 0 \<le> d \<Longrightarrow> c \<le> runningSum64 c ds"
proof (induction ds arbitrary: c)
  case Nil
  then show ?case by simp
next
  case (Cons d ds)
  have d: "0 \<le> d" using Cons.prems(3) by simp
  have "c \<le> round64 (c + d)" using Cons.prems(1,2) d by (intro round64_ge) simp_all
  also have "\<dots> \<le> runningSum64 (round64 (c + d)) ds"
    using Cons.prems d by (intro Cons.IH) (simp_all add: round64_nonneg)
  finally show ?case by simp
qed

lemma run_ramp64:
  assumes "propertyAnimations e = Some [rampAt False ct True]"
    and "\<forall>dt\<in>set dts. 0 \<le> dt" and "0 \<le> ct" and "dts \<noteq> []"
  shows "animateFrames64 strict e dts =
     (if 1 < runningSum64 ct dts
      then (None, withPositionX 10 (e\<lparr>propertyAnimations := Some [rampAt False 1 False]\<rparr>))
      else (None, withPositionX (round64 (10 * runningSum64 ct dts))
                    (e\<lparr>propertyAnimations := Some [rampAt False (runningSum64 ct dts) True]\<rparr>)))"
  using assms
proof (induction dts arbitrary: e ct)
  case Nil
  then show ?case by simp
next
  case (Cons dt dts)
  define c where "c = round64 (ct + dt)"
  have dt0: "0 \<le> dt" and rest: "\<forall>d\<in>set dts. 0 \<le> d" using Cons.prems(2) by simp_all
  have nn: "0 \<le> ct + dt" using dt0 Cons.prems(3) by simp
  have c0: "0 \<le> c" unfolding c_def using nn by (rule round64_nonneg)
  have cc: "round64 c = c" by (simp add: c_def)
  have up: "c \<le> runningSum64 c dts" by (rule runningSum64_ge[OF cc c0 rest])
  note st = step_ramp64[OF Cons.prems(1) nn, where strict = strict, unfolded c_def[symmetric]]
  show ?case
  proof (cases "1 < c")
    case True
    let ?e1 = "withPositionX 10 (e\<lparr>propertyAnimations := Some [rampAt False 1 False]\<rparr>)"
    have "propertyAnimations ?e1 = Some [rampAt False 1 False]" by (simp add: withPositionX_again)
    from stopped_frames64[OF this, of strict dts] st True up
    show ?thesis by (simp add: c_def[symmetric])
  next
    case False
    let ?e1 = "withPositionX (round64 (10 * c)) (e\<lparr>propertyAnimations := Some [rampAt False c True]\<rparr>)"
    have st1: "animateEntity64 strict dt e = (None, ?e1)" using st False by simp
    show ?thesis
    proof (cases "dts = []")
      case True
      then show ?thesis using st1 False by (simp add: c_def[symmetric])
    next
      case ne: False
      have p1: "propertyAnimations ?e1 = Some [rampAt False c True]" by (simp add: withPositionX_again)
      from Cons.IH[OF p1 rest c0 ne] st1
      show ?thesis by (simp add: c_def[symmetric] withPositionX_again)
    qed
  qed
qed

lemma round64_error_below_two:
  assumes "0 \<le> x" and "x < 2"
  shows "\<bar>round64 x - x\<bar> \<le> 1 / 2 ^ 53"
proof (cases "x = 0")
  case True
  then show ?thesis by simp
next
  case False
  have "2 powi exponentOf x < (2::real) powi 1"
    using exponentOf_bounds(1)[OF False] assms by simp
  then have "exponentOf x < 1"
    using p2_mono[of 1 "exponentOf x"] by (cases "exponentOf x < 1") auto
  then have "ulpExponent x \<le> - 52" by (simp add: ulpExponent_def)
  then have "(2::real) powi ulpExponent x \<le> 2 powi (- 52)" by (rule p2_mono)
  then have "(2::real) powi ulpExponent x / 2 \<le> 1 / 2 ^ 53"
    by (simp add: power_int_minus_divide)
  then show ?thesis using round64_error[of x] by linarith
qed

lemma runningSum64_sum:
  "0 \<le> c \<Longrightarrow> \<forall>d\<in>set ds. 0 \<le> d \<Longrightarrow> runningSum64 c ds \<le> 1
     \<Longrightarrow> c + sum_list ds \<le> runningSum64 c ds + real (length ds) / 2 ^ 53"
proof (induction ds arbitrary: c)
  case Nil
  then show ?case by simp
next
  case (Cons d ds)
  define c' where "c' = round64 (c + d)"
  have d: "0 \<le> d" and rest: "\<forall>d\<in>set ds. 0 \<le> d" using Cons.prems(2) by simp_all
  have nn: "0 \<le> c + d" using d Cons.prems(1) by simp
  have c0: "0 \<le> c'" unfolding c'_def using nn by (rule round64_nonneg)
  have cc: "round64 c' = c'" by (simp add: c'_def)
  have r: "runningSum64 c' ds \<le> 1" using Cons.prems(3) by (simp add: c'_def)
  have "c' \<le> runningSum64 c' ds" by (rule runningSum64_ge[OF cc c0 rest])
  then have c1: "c' \<le> 1" using r by simp
  have lt: "c + d < 2"
  proof (rule ccontr)
    assume "\<not> c + d < 2"
    then have "2 \<le> round64 (c + d)" by (intro round64_ge two64) simp_all
    then show False using c1 by (simp add: c'_def)
  qed
  have "\<bar>c' - (c + d)\<bar> \<le> 1 / 2 ^ 53"
    unfolding c'_def by (rule round64_error_below_two[OF nn lt])
  then have e: "c + d \<le> c' + 1 / 2 ^ 53" by linarith
  have "c' + sum_list ds \<le> runningSum64 c' ds + real (length ds) / 2 ^ 53"
    by (rule Cons.IH[OF c0 rest r])
  then show ?case using e by (simp add: c'_def[symmetric] add_divide_distrib)
qed


lemma sixteen_sixteenths64:
  "runningSum64 0 (replicate 16 (1 / 16)) = 1"
  "sum_list (replicate 16 (1 / 16 :: real)) = 1"
  by code_simp (simp add: sum_list_replicate)

text \<open>
  Claim C6 as stated fails on the playing flag: the cursor is clamped and the animation
  stopped only when the cursor is beyond the last keyframe
  (\<open>anim.currentTime > maxTime\<close>). Sixteen frames of a sixteenth of a second, every
  sum of which is exact in binary64, bring the cursor to exactly 1: the field is 10 and
  the animation is still playing.
\<close>

theorem nonlooping_end_counterexample:
  "sum_list (replicate 16 (1 / 16 :: real)) = 1
   \<and> map playing (animationsOf (snd (animateFrames64 True (rampEntity False)
        (replicate 16 (1 / 16))))) = [True]
   \<and> map currentTime (animationsOf (snd (animateFrames64 True (rampEntity False)
        (replicate 16 (1 / 16))))) = [1]
   \<and> vecX (position (transform (snd (animateFrames64 True (rampEntity False)
        (replicate 16 (1 / 16)))))) = 10"
proof -
  have p: "propertyAnimations (rampEntity False) = Some [rampAt False 0 True]"
    by (simp add: rampEntity_def ramp_start)
  have "animateFrames64 True (rampEntity False) (replicate 16 (1 / 16))
        = (None, withPositionX 10
             ((rampEntity False)\<lparr>propertyAnimations := Some [rampAt False 1 True]\<rparr>))"
    using run_ramp64[OF p, of "replicate 16 (1 / 16)" True]
    by (simp only: sixteen_sixteenths64(1)) simp
  then show ?thesis
    by (simp add: animationsOf_def withPositionX_def sixteen_sixteenths64(2))
qed

text \<open>
  Claim C6, amended. For a non-looping animation with keyframes (0, 0) and (1, 10) on
  \<open>transform.position.x\<close>, starting at cursor 0 and playing, after one or more update
  steps with non-negative frame times: if the running sum of the frame times, added
  one by one in binary64, is greater than 1, the animation has ended with
  \<open>playing = false\<close>, the cursor at 1 and the field equal to 10; otherwise it is
  still playing, the cursor is that running sum and the field is ten times the cursor
  (rounded), which is 10 when the cursor is exactly 1. Frame times of \<open>n\<close> steps that
  sum to more than \<open>1 + n / 2^53\<close> always end the animation.
\<close>

theorem nonlooping_animation_end:
  assumes "propertyAnimations e = Some [rampAnimation False]"
    and "\<forall>dt\<in>set dts. 0 \<le> dt" and "dts \<noteq> []"
  shows "animateFrames64 strict e dts =
           (if 1 < runningSum64 0 dts
            then (None, withPositionX 10 (e\<lparr>propertyAnimations := Some [rampAt False 1 False]\<rparr>))
            else (None, withPositionX (round64 (10 * runningSum64 0 dts))
                          (e\<lparr>propertyAnimations :=
                               Some [rampAt False (runningSum64 0 dts) True]\<rparr>)))
       \<and> (runningSum64 0 dts = 1 \<longrightarrow> round64 (10 * runningSum64 0 dts) = 10)
       \<and> (1 + real (length dts) / 2 ^ 53 < sum_list dts \<longrightarrow> 1 < runningSum64 0 dts)"
proof -
  have p: "propertyAnimations e = Some [rampAt False 0 True]"
    using assms(1) by (simp add: ramp_start)
  have a: "animateFrames64 strict e dts =
           (if 1 < runningSum64 0 dts
            then (None, withPositionX 10 (e\<lparr>propertyAnimations := Some [rampAt False 1 False]\<rparr>))
            else (None, withPositionX (round64 (10 * runningSum64 0 dts))
                          (e\<lparr>propertyAnimations :=
                               Some [rampAt False (runningSum64 0 dts) True]\<rparr>)))"
    by (rule run_ramp64[OF p assms(2) _ assms(3)]) simp
  have b: "runningSum64 0 dts = 1 \<longrightarrow> round64 (10 * runningSum64 0 dts) = 10" by simp
  have c: "1 + real (length dts) / 2 ^ 53 < sum_list dts \<longrightarrow> 1 < runningSum64 0 dts"
  proof (rule impI, rule ccontr)
    assume big: "1 + real (length dts) / 2 ^ 53 < sum_list dts" and "\<not> 1 < runningSum64 0 dts"
    then have "runningSum64 0 dts \<le> 1" by simp
    from runningSum64_sum[OF _ assms(2) this] have
      "sum_list dts \<le> runningSum64 0 dts + real (length dts) / 2 ^ 53" by simp
    with \<open>runningSum64 0 dts \<le> 1\<close> big show False by linarith
  qed
  show ?thesis using a b c by blast
qed

theorem nonlooping_animation_end_witness:
  "animateFrames64 True (rampEntity False) [1 / 2, 1 / 2, 1 / 4] =
     (None, withPositionX 10 ((rampEntity False)\<lparr>propertyAnimations := Some [rampAt False 1 False]\<rparr>))
   \<and> 1 < runningSum64 0 [1 / 2, 1 / 2, 1 / 4]"
proof -
  have a: "propertyAnimations (rampEntity False) = Some [rampAnimation False]"
    by (simp add: rampEntity_def)
  have b: "\<forall>dt\<in>set [1 / 2, 1 / 2, 1 / 4 :: real]. 0 \<le> dt" by simp
  have c: "[1 / 2, 1 / 2, 1 / 4 :: real] \<noteq> []" by simp
  have r: "runningSum64 0 [1 / 2, 1 / 2, 1 / 4] = 5 / 4" by code_simp
  show ?thesis using nonlooping_animation_end[OF a b c, of True] by (simp add: r)
qed



section \<open>Fault isolation in the simulation step\<close>

lemma split_broken: "splitOn CHR ''.'' ''physics.velocity.x'' = [''physics'', ''velocity'', ''x'']"
  by simp

lemma applyValue_missing_parent:
  "physics e = None \<Longrightarrow>
   applyValue strict e [''physics'', ''velocity'', ''x''] v
     = Inl (TypeError ''Cannot read properties of undefined'')"
  by (simp add: applyValue_def entityJ_def readProp_def inheritedNames_def optJ_def)

lemma applyValue_missing_target:
  "physics e = None \<Longrightarrow> applyValue strict e [''physics'', ''x''] v = Inr e"
proof -
  assume p: "physics e = None"
  have "assignPath strict (entityJ e) [''physics'', ''x''] (JNum v) = Inr (entityJ e)"
    using p by (simp add: entityJ_def readProp_def inheritedNames_def optJ_def truthy_def storeChild_def)
  then show ?thesis by (simp add: applyValue_def entity_codec)
qed

lemma broken_step:
  "animateEntity strict dt brokenEntity =
     (Some (TypeError ''Cannot read properties of undefined''),
      brokenEntity\<lparr>propertyAnimations := Some [advanceTime dt brokenAnimation]\<rparr>)"
proof -
  have p: "propertyAnimations brokenEntity = Some [brokenAnimation]"
    by (simp add: brokenEntity_def)
  have k: "keyframes brokenAnimation = [\<lparr>keyframeTime = 0, keyframeValue = 0\<rparr>,
                   \<lparr>keyframeTime = 1, keyframeValue = 10\<rparr>]"
    "playing brokenAnimation" "property brokenAnimation = ''physics.velocity.x''"
    by (simp_all add: brokenAnimation_def rampAnimation_def)
  have a: "keyframes (advanceTime dt brokenAnimation) = keyframes brokenAnimation"
    "property (advanceTime dt brokenAnimation) = ''physics.velocity.x''"
    by (simp_all add: advanceTime_def Let_def k)
  have ph: "physics (brokenEntity\<lparr>propertyAnimations := Some [advanceTime dt brokenAnimation]\<rparr>) = None"
    by (simp add: brokenEntity_def exampleRect_def)
  show ?thesis
    unfolding animate_single[OF p]
    by (simp add: stepAnimation_def p k a Let_def interpolate_ramp split_broken
        applyValue_missing_parent[OF ph] del: splitOn.simps)
qed


lemma first_frame_physics:
  "accumulate upd (fixedTimestepOf None) 0 (cappedDt (1 / 60)) None = Some (0, None)"
proof -
  have "physicsLoop upd (1 / 60) (1 / 60) None
        = Some (1 / 60 - real 1 * (1 / 60), (map_option (upd (1 / 60 * 1000)) ^^ 1) None)"
    by (rule physicsLoop_run) simp_all
  then show ?thesis by (simp add: accumulate_def fixedTimestepOf_def cappedDt_def)
qed

lemma broken_entities:
  "updateEntities ev bodies dt st (brokenEntity # es) =
     (Some (TypeError ''Cannot read properties of undefined''), st,
      brokenEntity\<lparr>propertyAnimations := Some [advanceTime dt brokenAnimation]\<rparr> # es)"
proof -
  have "syncPhysics bodies brokenEntity = brokenEntity"
    by (simp add: syncPhysics_def brokenEntity_def exampleRect_def)
  moreover have "particleStage (draws ev) dt brokenEntity st = st"
    by (simp add: particleStage_def brokenEntity_def exampleRect_def)
  ultimately show ?thesis
    by (simp add: updateEntity_def broken_step)
qed

text \<open>
  Claim C1 against the code. The guard \<open>if (target)\<close> skips the assignment only when
  the parent of the last segment is missing. When an earlier segment is missing, the
  walk itself reads a property of \<open>undefined\<close> and throws; nothing between the walk
  and the frame loop catches. For an entity without a physics component animated on
  \<open>physics.velocity.x\<close> the \<open>TypeError\<close> leaves \<open>update\<close>: the entities after it are
  returned unvisited with the state untouched, and the editor's loop ends with the
  first frame. (On \<open>physics.x\<close> the same entity is skipped silently, as claimed.)
\<close>

theorem unresolved_path_aborts_frame:
  "updateEntities ev bodies dt st (brokenEntity # es) =
     (Some (TypeError ''Cannot read properties of undefined''), st,
      brokenEntity\<lparr>propertyAnimations := Some [advanceTime dt brokenAnimation]\<rparr> # es)
   \<and> runLoop ev (exampleScene [])
         \<lparr>accumulator = 0, engine = None, frameEntities = brokenEntity # es, sim = st\<rparr>
         (1 / 60 # dts) =
       Some (Some (TypeError ''Cannot read properties of undefined''),
             \<lparr>accumulator = 0, engine = None,
              frameEntities =
                brokenEntity\<lparr>propertyAnimations :=
                  Some [advanceTime (cappedDt (1 / 60)) brokenAnimation]\<rparr> # es,
              sim = st\<rparr>)
   \<and> applyValue strict brokenEntity [''physics'', ''x''] v = Inr brokenEntity"
proof -
  have ph: "physics brokenEntity = None" by (simp add: brokenEntity_def exampleRect_def)
  have "update ev True (exampleScene [])  (cappedDt (1 / 60))
          \<lparr>accumulator = 0, engine = None, frameEntities = brokenEntity # es, sim = st\<rparr>
        = Some (Some (TypeError ''Cannot read properties of undefined''),
             \<lparr>accumulator = 0, engine = None,
              frameEntities =
                brokenEntity\<lparr>propertyAnimations :=
                  Some [advanceTime (cappedDt (1 / 60)) brokenAnimation]\<rparr> # es,
              sim = st\<rparr>)"
    unfolding update_def
    by (simp add: exampleScene_def first_frame_physics broken_entities Let_def
        del: updateEntities.simps)
  then show ?thesis
    using broken_entities[of ev bodies dt st es] applyValue_missing_target[OF ph, of strict v]
    by simp
qed

text \<open>
  The handler of a script lets nothing out as long as the log panel can render what
  was thrown, that is, unless \<open>console.error\<close> is intercepted and the thrown value
  is an object \<open>JSON.stringify\<close> rejects. Under that condition a frame, and any
  sequence of frames, run with scripts that throw reaches exactly the state (entities,
  particle pools, random draws, accumulator, physics world, and the fault of the
  animation pass if there is one) it reaches when every throw is replaced by a normal
  return at the same point; only the log panel differs.
\<close>

lemma particleStage_console:
  "particleStage rnd dt e (st\<lparr>console := c\<rparr>) = (particleStage rnd dt e st)\<lparr>console := c\<rparr>"
  by (simp add: particleStage_def Let_def split: option.splits)

lemma consoleError_fault:
  "consoleError i [NotObject t, v] logs = Inl f \<Longrightarrow> i \<and> (\<exists>m. v = Unserialisable m)"
  by (cases v) (auto simp: consoleError_def addLog_def renderArg_def split: if_splits)

lemma threw_logged:
  assumes ok: "\<And>src e inp dt e' m.
      intercepted ev \<Longrightarrow> runScript ev src e inp dt \<noteq> Threw e' (Unserialisable m)"
    and t: "runScript ev src e inp dt = Threw e' v"
  shows "\<exists>logs. consoleError (intercepted ev) [NotObject t, v] l = Inr logs"
proof (cases "consoleError (intercepted ev) [NotObject t, v] l")
  case (Inl f)
  from consoleError_fault[OF this] ok[of src e inp dt e'] t show ?thesis by auto
next
  case (Inr logs)
  then show ?thesis by blast
qed

lemma scriptStage_quiet:
  assumes ok: "\<And>src e inp dt e' m.
      intercepted ev \<Longrightarrow> runScript ev src e inp dt \<noteq> Threw e' (Unserialisable m)"
  shows "scriptStage (quiet ev) dt (st\<lparr>console := c\<rparr>, e) =
     (case scriptStage ev dt (st, e) of (r, st', e') \<Rightarrow> (None, st'\<lparr>console := c\<rparr>, e'))"
    and "fst (scriptStage ev dt (st, e)) = None"
proof -
  have "scriptStage (quiet ev) dt (st\<lparr>console := c\<rparr>, e) =
     (case scriptStage ev dt (st, e) of (r, st', e') \<Rightarrow> (None, st'\<lparr>console := c\<rparr>, e'))
     \<and> fst (scriptStage ev dt (st, e)) = None"
  proof (cases "script e")
    case None
    then show ?thesis by (simp add: scriptStage_def)
  next
    case (Some s)
    show ?thesis
    proof (cases "scriptType s = ScriptCustom \<and> truthyStr (content s)")
      case False
      then show ?thesis using Some by (auto simp: scriptStage_def)
    next
      case True
      define src where "src = (case content s of None \<Rightarrow> [] | Some c \<Rightarrow> c)"
      have i: "input (quiet ev) = input ev" by (simp add: quiet_def)
      show ?thesis
      proof (cases "runScript ev src e (input ev) dt")
        case (Returned e')
        then show ?thesis
          using Some True by (simp add: scriptStage_def src_def[symmetric] quiet_def calm_def)
      next
        case (Threw e' v)
        from threw_logged[OF ok Threw] obtain logs where
          "consoleError (intercepted ev)
             [NotObject (''Error in script for entity '' @ entityName e' @ '':''), v] (console st)
           = Inr logs" by blast
        then show ?thesis
          using Some True Threw
          by (simp add: scriptStage_def src_def[symmetric] quiet_def calm_def)
      qed
    qed
  qed
  then show "scriptStage (quiet ev) dt (st\<lparr>console := c\<rparr>, e) =
     (case scriptStage ev dt (st, e) of (r, st', e') \<Rightarrow> (None, st'\<lparr>console := c\<rparr>, e'))"
    and "fst (scriptStage ev dt (st, e)) = None" by simp_all
qed

lemma updateEntity_quiet:
  assumes ok: "\<And>src e inp dt e' m.
      intercepted ev \<Longrightarrow> runScript ev src e inp dt \<noteq> Threw e' (Unserialisable m)"
  shows "updateEntity (quiet ev) bodies dt (st\<lparr>console := c\<rparr>) e =
     (case updateEntity ev bodies dt st e of (r, st', e') \<Rightarrow> (r, st'\<lparr>console := c\<rparr>, e'))"
proof -
  have q: "draws (quiet ev) = draws ev" "strictMode (quiet ev) = strictMode ev"
    by (simp_all add: quiet_def)
  obtain r e2 where a: "animateEntity (strictMode ev) dt (syncPhysics bodies e) = (r, e2)"
    by (cases "animateEntity (strictMode ev) dt (syncPhysics bodies e)") auto
  show ?thesis
  proof (cases r)
    case (Some f)
    then show ?thesis
      unfolding updateEntity_def Let_def q particleStage_console a by simp
  next
    case None
    obtain r3 st3 e3 where
      s: "scriptStage ev dt (particleStage (draws ev) dt (syncPhysics bodies e) st, e2) = (r3, st3, e3)"
      by (cases "scriptStage ev dt (particleStage (draws ev) dt (syncPhysics bodies e) st, e2)") auto
    have "r3 = None" using scriptStage_quiet(2)[OF ok, of dt _ e2] s by (metis fst_conv)
    then show ?thesis
      unfolding updateEntity_def Let_def q particleStage_console a
      using None s by (simp add: scriptStage_quiet(1)[OF ok])
  qed
qed

lemma updateEntities_quiet:
  assumes ok: "\<And>src e inp dt e' m.
      intercepted ev \<Longrightarrow> runScript ev src e inp dt \<noteq> Threw e' (Unserialisable m)"
  shows "updateEntities (quiet ev) bodies dt (st\<lparr>console := c\<rparr>) es =
     (case updateEntities ev bodies dt st es of (r, st', es') \<Rightarrow> (r, st'\<lparr>console := c\<rparr>, es'))"
proof (induction es arbitrary: st)
  case Nil
  then show ?case by simp
next
  case (Cons e es)
  obtain r st1 e1 where u: "updateEntity ev bodies dt st e = (r, st1, e1)"
    by (cases "updateEntity ev bodies dt st e") auto
  have uq: "updateEntity (quiet ev) bodies dt (st\<lparr>console := c\<rparr>) e = (r, st1\<lparr>console := c\<rparr>, e1)"
    by (simp add: updateEntity_quiet[OF ok] u)
  show ?case
  proof (cases r)
    case None
    obtain r2 st2 es2 where v: "updateEntities ev bodies dt st1 es = (r2, st2, es2)"
      by (cases "updateEntities ev bodies dt st1 es") auto
    show ?thesis using None by (simp add: u uq v Cons.IH)
  next
    case (Some f)
    then show ?thesis by (simp add: u uq)
  qed
qed

lemma update_quiet:
  assumes ok: "\<And>src e inp dt e' m.
      intercepted ev \<Longrightarrow> runScript ev src e inp dt \<noteq> Threw e' (Unserialisable m)"
  shows "update (quiet ev) isPlaying sc dt (withConsole c fs) =
     map_option (\<lambda>r. (fst r, withConsole c (snd r))) (update ev isPlaying sc dt fs)"
proof -
  have q: "engineUpdate (quiet ev) = engineUpdate ev" "bodyOf (quiet ev) = bodyOf ev"
    by (simp_all add: quiet_def)
  have s: "sim (withConsole c fs) = (sim fs)\<lparr>console := c\<rparr>"
    "accumulator (withConsole c fs) = accumulator fs" "engine (withConsole c fs) = engine fs"
    "frameEntities (withConsole c fs) = frameEntities fs"
    by (simp_all add: withConsole_def)
  have uq: "updateEntities (quiet ev) bodies dt ((sim fs)\<lparr>console := c\<rparr>) (frameEntities fs) =
     (case updateEntities ev bodies dt (sim fs) (frameEntities fs) of
        (r, st', es') \<Rightarrow> (r, st'\<lparr>console := c\<rparr>, es'))" for bodies
    by (rule updateEntities_quiet[OF ok])
  show ?thesis
    unfolding update_def q s Let_def uq
    by (auto simp: withConsole_def split: option.splits prod.splits)
qed

lemma runLoop_quiet:
  assumes ok: "\<And>src e inp dt e' m.
      intercepted ev \<Longrightarrow> runScript ev src e inp dt \<noteq> Threw e' (Unserialisable m)"
  shows "runLoop (quiet ev) sc (withConsole c fs) dts =
     map_option (\<lambda>r. (fst r, withConsole c (snd r))) (runLoop ev sc fs dts)"
proof (induction dts arbitrary: fs)
  case Nil
  then show ?case by simp
next
  case (Cons dt dts)
  show ?case
  proof (cases "update ev True sc (cappedDt dt) fs")
    case None
    then show ?thesis by (simp add: update_quiet[OF ok])
  next
    case (Some r)
    obtain f fs' where r: "r = (f, fs')" by (cases r)
    show ?thesis
      using Some r Cons.IH[of fs'] by (cases f) (simp_all add: update_quiet[OF ok])
  qed
qed

lemma example_fields:
  "physics (rampEntity b) = None" "particles (rampEntity b) = None"
  "script (rampEntity b) = None"
  "physics scriptedEntity = None" "particles scriptedEntity = None"
  "propertyAnimations scriptedEntity = None" "entityName scriptedEntity = ''New rect''"
  "script scriptedEntity = Some \<lparr>scriptType = ScriptCustom, scriptName = Some ''main'',
                        content = Some ''foo();''\<rparr>"
  "physics cyclicEntity = None" "particles cyclicEntity = None"
  "propertyAnimations cyclicEntity = None" "entityName cyclicEntity = ''New rect''"
  "script cyclicEntity = Some \<lparr>scriptType = ScriptCustom, scriptName = Some ''main'',
                        content = Some ''const o = {}; o.self = o; throw o;''\<rparr>"
  by (simp_all add: rampEntity_def scriptedEntity_def cyclicEntity_def exampleRect_def)

lemma example_envs:
  "runScript editorEnv = exampleScripts" "intercepted editorEnv" "strictMode editorEnv"
  "draws editorEnv = zeroDraws"
  "runScript bundleEnv = exampleScripts" "\<not> intercepted bundleEnv" "\<not> strictMode bundleEnv"
  "draws bundleEnv = zeroDraws"
  by (simp_all add: editorEnv_def bundleEnv_def)

lemma untouched_entity:
  "physics e = None \<Longrightarrow> particles e = None \<Longrightarrow> propertyAnimations e = None \<Longrightarrow>
   updateEntity ev bodies dt st e = scriptStage ev dt (st, e)"
  by (simp add: updateEntity_def syncPhysics_def particleStage_def animateEntity_def)

lemma cyclic_stage:
  "scriptStage editorEnv dt (st, cyclicEntity) =
     (Some (TypeError ''Converting circular structure to JSON''), st, cyclicEntity)"
  "scriptStage bundleEnv dt (st, cyclicEntity) = (None, st, cyclicEntity)"
  by (simp_all add: scriptStage_def example_fields example_envs truthyStr_def exampleScripts_def
      consoleError_def addLog_def renderArg_def)

lemma scripted_stage:
  "scriptStage editorEnv dt (st, scriptedEntity) =
     (None,
      st\<lparr>console := console st @
         [\<lparr>logType = LogError, logText = ''Error in script for entity New rect: {}''\<rparr>]\<rparr>,
      scriptedEntity)"
  by (simp add: scriptStage_def example_fields example_envs truthyStr_def exampleScripts_def
      consoleError_def addLog_def renderArg_def)

lemma ramp_first_frame:
  "updateEntity ev bodies (1 / 60) st (rampEntity False) =
     (None, st, withPositionX (1 / 6)
        ((rampEntity False)\<lparr>propertyAnimations := Some [rampAt False (1 / 60) True]\<rparr>))"
proof -
  have p: "propertyAnimations (rampEntity False) = Some [rampAt False 0 True]"
    by (simp add: rampEntity_def ramp_start)
  let ?r = "withPositionX (1 / 6)
         ((rampEntity False)\<lparr>propertyAnimations := Some [rampAt False (1 / 60) True]\<rparr>)"
  have sr: "script ?r = None" by (simp add: withPositionX_def example_fields)
  have an: "animateEntity strict (1 / 60) (rampEntity False) = (None, ?r)" for strict
    using step_ramp[OF p, of strict "1 / 60"] by (simp add: advance_ramp)
  show ?thesis
    unfolding updateEntity_def
    by (simp add: syncPhysics_def particleStage_def Let_def example_fields an scriptStage_def sr)
qed

text \<open>
  Claim C5 against the code. The \<open>catch\<close> of the script stage logs with
  \<open>console.error(..., e)\<close>, and in the editor that is the wrapper of \<open>App.tsx\<close>,
  which passes every object argument to \<open>JSON.stringify\<close>. When the script throws an
  object that refers to itself, the wrapper throws a \<open>TypeError\<close> inside the
  handler, and nothing between the handler and the frame loop catches: the error
  leaves \<open>update\<close>, the entities after the scripted one are returned unvisited, and
  the editor's loop ends with the first frame. (A script that throws an \<open>Error\<close> is
  logged and the entity after it is updated, as claimed; so is, in the bundle, where
  the console is the browser's own, the script that throws the self-referring object.)
\<close>

theorem unserialisable_throw_aborts_frame:
  "updateEntities editorEnv bodies dt st (cyclicEntity # es) =
     (Some (TypeError ''Converting circular structure to JSON''), st, cyclicEntity # es)
   \<and> runLoop editorEnv (exampleScene [])
         \<lparr>accumulator = 0, engine = None, frameEntities = cyclicEntity # es, sim = st\<rparr>
         (1 / 60 # dts) =
       Some (Some (TypeError ''Converting circular structure to JSON''),
             \<lparr>accumulator = 0, engine = None, frameEntities = cyclicEntity # es, sim = st\<rparr>)
   \<and> updateEntities editorEnv bodies (1 / 60) emptySim [scriptedEntity, rampEntity False] =
       (None,
        emptySim\<lparr>console :=
          [\<lparr>logType = LogError, logText = ''Error in script for entity New rect: {}''\<rparr>]\<rparr>,
        [scriptedEntity,
         withPositionX (1 / 6)
           ((rampEntity False)\<lparr>propertyAnimations := Some [rampAt False (1 / 60) True]\<rparr>)])
   \<and> updateEntities bundleEnv bodies (1 / 60) emptySim [cyclicEntity, rampEntity False] =
       (None, emptySim,
        [cyclicEntity,
         withPositionX (1 / 6)
           ((rampEntity False)\<lparr>propertyAnimations := Some [rampAt False (1 / 60) True]\<rparr>)])"
proof -
  have a: "updateEntities editorEnv bodies dt st (cyclicEntity # es) =
     (Some (TypeError ''Converting circular structure to JSON''), st, cyclicEntity # es)"
    for bodies dt
    by (simp add: untouched_entity example_fields cyclic_stage)
  have b: "update editorEnv True (exampleScene []) (cappedDt (1 / 60))
          \<lparr>accumulator = 0, engine = None, frameEntities = cyclicEntity # es, sim = st\<rparr>
        = Some (Some (TypeError ''Converting circular structure to JSON''),
             \<lparr>accumulator = 0, engine = None, frameEntities = cyclicEntity # es, sim = st\<rparr>)"
    unfolding update_def
    by (simp add: exampleScene_def first_frame_physics a Let_def del: updateEntities.simps)
  have c: "updateEntities editorEnv bodies (1 / 60) emptySim [scriptedEntity, rampEntity False] =
       (None,
        emptySim\<lparr>console :=
          [\<lparr>logType = LogError, logText = ''Error in script for entity New rect: {}''\<rparr>]\<rparr>,
        [scriptedEntity,
         withPositionX (1 / 6)
           ((rampEntity False)\<lparr>propertyAnimations := Some [rampAt False (1 / 60) True]\<rparr>)])"
    by (simp add: untouched_entity example_fields scripted_stage ramp_first_frame emptySim_def)
  have d: "updateEntities bundleEnv bodies (1 / 60) emptySim [cyclicEntity, rampEntity False] =
       (None, emptySim,
        [cyclicEntity,
         withPositionX (1 / 6)
           ((rampEntity False)\<lparr>propertyAnimations := Some [rampAt False (1 / 60) True]\<rparr>)])"
    by (simp add: untouched_entity example_fields cyclic_stage ramp_first_frame)
  show ?thesis using a b c d by simp
qed

end
